theory Spec2Isabelle
  imports Complex_Main "HOL-Library.AList" "HOL-Library.Sublist" "HOL-Library.Log_Nat"
begin

section \<open>JavaScript values\<close>

text \<open>
  The status payloads, the parsed model output and the captured stage data are all
  typed \<^verbatim>\<open>any\<close> in the source. They are modelled as JSON values extended with
  \<^verbatim>\<open>undefined\<close>. Numbers are exact rationals; an object is its list of entries.
\<close>

datatype json =
    JUndefined
  | JNull
  | JBool bool
  | JNum rat
  | JStr string
  | JArr "json list"
  | JObj "(string \<times> json) list"

text \<open>
  Exceptions: the built-in \<^verbatim>\<open>TypeError\<close> and \<^verbatim>\<open>SyntaxError\<close>, an \<^verbatim>\<open>Error\<close> with its
  message, and the \<^verbatim>\<open>ERR_UNHANDLED_ERROR\<close> that \<^verbatim>\<open>EventEmitter.emit('error', x)\<close>
  throws when nobody listens. The message texts of the built-in ones are the engine's
  and are abbreviated.
\<close>

datatype js_error = TypeError | SyntaxError | Error string | UnhandledError

fun error_message :: "js_error \<Rightarrow> string" where
  "error_message (Error m) = m"
| "error_message TypeError = ''TypeError''"
| "error_message SyntaxError = ''SyntaxError''"
| "error_message UnhandledError = ''Unhandled error.''"

datatype 'a outcome = Returns 'a | Raises js_error

text \<open>Truthiness, as used by \<^verbatim>\<open>||\<close>, \<^verbatim>\<open>!\<close> and \<^verbatim>\<open>if\<close>.\<close>

fun truthy :: "json \<Rightarrow> bool" where
  "truthy JUndefined = False"
| "truthy JNull = False"
| "truthy (JBool b) = b"
| "truthy (JNum n) = (n \<noteq> 0)"
| "truthy (JStr s) = (s \<noteq> [])"
| "truthy (JArr xs) = True"
| "truthy (JObj kvs) = True"

definition or_js :: "json \<Rightarrow> json \<Rightarrow> json" where
  "or_js a b = (if truthy a then a else b)"

text \<open>Decimal rendering of a number inside a template literal.\<close>

definition digit_char :: "nat \<Rightarrow> char" where
  "digit_char n = ''0123456789'' ! n"

fun show_nat :: "nat \<Rightarrow> string" where
  "show_nat n = (if n < 10 then [digit_char n] else show_nat (n div 10) @ [digit_char (n mod 10)])"

declare show_nat.simps [simp del]

text \<open>
  Decimal rendering of an integer that may be large (a time value, a duration).
\<close>

function digits :: "int \<Rightarrow> string" where
  "digits i =
     (if i < 10 then [digit_char (nat i)] else digits (i div 10) @ [digit_char (nat (i mod 10))])"
  by pat_completeness auto
termination
  by (relation "measure nat") auto

declare digits.simps [simp del]

definition show_int :: "int \<Rightarrow> string" where
  "show_int i = (if i < 0 then ''-'' @ digits (- i) else digits i)"

subsection \<open>Double arithmetic and \<^verbatim>\<open>toFixed(1)\<close>\<close>

text \<open>
  A JavaScript number is an IEEE 754 double. \<open>toDouble x\<close> is the double nearest to the
  real \<open>x\<close>, ties to the even significand: 53 significant bits, and a fixed quantum of
  \<open>pow2 (- 1074)\<close> in the subnormal range. \<open>binexp x\<close> is the binary exponent of a
  positive \<open>x\<close>, the \<open>e\<close> with \<open>pow2 e \<le> x < pow2 (e + 1)\<close>. Overflow to
  \<^verbatim>\<open>Infinity\<close> starts at \<open>pow2 1024\<close>, which differences and quotients of time values
  (at most \<^verbatim>\<open>8.64e15\<close> in magnitude) never reach.
\<close>

definition pow2 :: "int \<Rightarrow> rat" where
  "pow2 e = (if 0 \<le> e then 2 ^ nat e else 1 / 2 ^ nat (- e))"

definition binexp :: "rat \<Rightarrow> int" where
  "binexp x =
     (let k = bitlen (fst (quotient_of x)) - bitlen (snd (quotient_of x))
      in if pow2 k \<le> x then k else k - 1)"

definition round_even :: "rat \<Rightarrow> int" where
  "round_even x =
     (let f = \<lfloor>x\<rfloor>; r = x - of_int f
      in if r < 1 / 2 then f else if 1 / 2 < r then f + 1 else if even f then f else f + 1)"

definition toDouble :: "rat \<Rightarrow> rat" where
  "toDouble x =
     (if x = 0 then 0
      else let q = pow2 (max (binexp \<bar>x\<bar> - 52) (- 1074))
           in sgn x * of_int (round_even (\<bar>x\<bar> / q)) * q)"

text \<open>
  \<^verbatim>\<open>x.toFixed(1)\<close> of a double below \<^verbatim>\<open>1e21\<close> in magnitude: the integer \<open>n\<close> for which
  \<open>n / 10\<close> is nearest to the exact value of \<open>\<bar>x\<bar>\<close>, the larger one at a tie, written with
  one decimal place, and a minus sign when \<open>x\<close> is negative.
\<close>

definition toFixed1 :: "rat \<Rightarrow> string" where
  "toFixed1 x =
     (let n = \<lfloor>\<bar>x\<bar> * 10 + 1 / 2\<rfloor>
      in (if x < 0 then ''-'' else []) @ show_int (n div 10) @ ''.'' @ show_int (n mod 10))"

text \<open>
  \<^verbatim>\<open>`${((t1 - t0) / 1000).toFixed(1)}s`\<close> where \<open>ms\<close> is the exact difference of the two
  time values: the subtraction and the division each round to a double.
\<close>

definition toFixed1_s :: "int \<Rightarrow> string" where
  "toFixed1_s ms = toFixed1 (toDouble (toDouble (of_int ms) / 1000)) @ ''s''"

text \<open>Own enumerable entries of a value, as copied by an object spread \<^verbatim>\<open>{...v}\<close>.\<close>

fun spread_obj :: "json \<Rightarrow> (string \<times> json) list" where
  "spread_obj (JObj kvs) = kvs"
| "spread_obj (JArr xs) = map (\<lambda>i. (show_nat i, xs ! i)) [0..<length xs]"
| "spread_obj (JStr s) = map (\<lambda>i. (show_nat i, JStr [s ! i])) [0..<length s]"
| "spread_obj v = []"

text \<open>An object literal \<^verbatim>\<open>{...d, k1: v1, k2: v2}\<close>: later keys overwrite earlier ones.\<close>

definition obj_with :: "json \<Rightarrow> (string \<times> json) list \<Rightarrow> json" where
  "obj_with d kvs = JObj (fold (\<lambda>(k, v). AList.update k v) kvs (spread_obj d))"

text \<open>
  Property access \<^verbatim>\<open>v.k\<close> for the data field names the source reads. It throws on
  \<^verbatim>\<open>null\<close> and \<^verbatim>\<open>undefined\<close>; arrays and strings have a \<^verbatim>\<open>length\<close>; every other
  field of a non-object is \<^verbatim>\<open>undefined\<close>.
\<close>

fun get_prop :: "json \<Rightarrow> string \<Rightarrow> js_error + json" where
  "get_prop JUndefined k = Inl TypeError"
| "get_prop JNull k = Inl TypeError"
| "get_prop (JObj kvs) k = Inr (case map_of kvs k of None \<Rightarrow> JUndefined | Some v \<Rightarrow> v)"
| "get_prop (JArr xs) k = Inr (if k = ''length'' then JNum (of_nat (length xs)) else JUndefined)"
| "get_prop (JStr s) k = Inr (if k = ''length'' then JNum (of_nat (length s)) else JUndefined)"
| "get_prop v k = Inr JUndefined"

text \<open>Optional chaining \<^verbatim>\<open>v?.k\<close>.\<close>

definition opt_prop :: "json \<Rightarrow> string \<Rightarrow> json" where
  "opt_prop v k = (case get_prop v k of Inl e \<Rightarrow> JUndefined | Inr x \<Rightarrow> x)"

text \<open>Indexing \<^verbatim>\<open>v[i]\<close> of a value that is not \<^verbatim>\<open>null\<close> or \<^verbatim>\<open>undefined\<close>.\<close>

fun js_index :: "json \<Rightarrow> nat \<Rightarrow> json" where
  "js_index (JArr xs) i = (if i < length xs then xs ! i else JUndefined)"
| "js_index (JStr s) i = (if i < length s then JStr [s ! i] else JUndefined)"
| "js_index (JObj kvs) i = (case map_of kvs (show_nat i) of None \<Rightarrow> JUndefined | Some v \<Rightarrow> v)"
| "js_index v i = JUndefined"

definition sbind :: "'e + 'a \<Rightarrow> ('a \<Rightarrow> 'e + 'b) \<Rightarrow> 'e + 'b" where
  "sbind m f = (case m of Inl e \<Rightarrow> Inl e | Inr x \<Rightarrow> f x)"

fun collect :: "('e + 'a) list \<Rightarrow> 'e + 'a list" where
  "collect [] = Inr []"
| "collect (x # xs) = sbind x (\<lambda>y. sbind (collect xs) (\<lambda>ys. Inr (y # ys)))"

section \<open>Strings\<close>

text \<open>
  Strings are HOL strings: a character is a UTF-16 code unit below 256, that is Basic
  Latin and Latin-1. The emoji that open some of the program's own log and status texts
  lie outside this range and are left out of the text constants. \<^verbatim>\<open>toLowerCase\<close>
  lowers the letters A to Z and the Latin-1 capitals (\<open>0xC0\<close> to \<open>0xDE\<close> without the
  multiplication sign \<open>0xD7\<close>) and leaves every other character as it is;
  \<^verbatim>\<open>includes\<close> and \<^verbatim>\<open>startsWith\<close> are contiguous containment and prefix.
\<close>

definition lower_char :: "char \<Rightarrow> char" where
  "lower_char c =
     (let n = of_char c :: nat
      in if (65 \<le> n \<and> n \<le> 90) \<or> (192 \<le> n \<and> n \<le> 222 \<and> n \<noteq> 215) then char_of (n + 32) else c)"

definition toLowerCase :: "string \<Rightarrow> string" where
  "toLowerCase s = map lower_char s"

definition includes_str :: "string \<Rightarrow> string \<Rightarrow> bool" where
  "includes_str s p = sublist p s"

definition startsWith :: "string \<Rightarrow> string \<Rightarrow> bool" where
  "startsWith s p = prefix p s"

fun join :: "string \<Rightarrow> string list \<Rightarrow> string" where
  "join sep [] = []"
| "join sep [x] = x"
| "join sep (x # y # ys) = x @ sep @ join sep (y # ys)"

section \<open>StatusManager (src/lib/status/status-manager.ts)\<close>

datatype update_type = T_info | T_success | T_error | T_progress | T_data

datatype phase_status = Pending | In_progress | Completed | Failed

text \<open>
  \<^verbatim>\<open>addUpdate\<close> reads the clock twice and the random generator once: the
  \<^verbatim>\<open>Date.now()\<close> and \<^verbatim>\<open>Math.random()\<close> parts of the id, and the timestamp.
\<close>

type_synonym stamp = "int \<times> nat \<times> int"

record StatusUpdate =
  uid :: "string \<times> int \<times> nat"
  utype :: update_type
  uphase :: string
  message :: string
  timestamp :: int
  udata :: json
  progress :: "rat option"

record ProcessingPhase =
  phase :: string
  status :: phase_status
  startTime :: "int option"
  endTime :: "int option"
  duration :: "string option"
  phaseUpdates :: "StatusUpdate list"

text \<open>
  The class extends Node's \<^verbatim>\<open>EventEmitter\<close>. Of the listener registry only one fact
  changes control flow: \<^verbatim>\<open>emit('error', x)\<close> throws when no \<^verbatim>\<open>'error'\<close> listener is
  registered. \<open>errorListener\<close> records whether one is. Listeners themselves are assumed
  not to throw.
\<close>

record StatusManager =
  updates :: "StatusUpdate list"
  phases :: "(string \<times> ProcessingPhase) list"
  currentPhase :: "string option"
  sessionId :: string
  errorListener :: bool

datatype completion = Normal | Throws

definition phaseNames :: "string list" where
  "phaseNames = [''planning'', ''discovery'', ''enrichment'', ''email_writing'']"

definition pendingPhase :: "string \<Rightarrow> ProcessingPhase" where
  "pendingPhase p =
     \<lparr>phase = p, status = Pending, startTime = None, endTime = None, duration = None,
      phaseUpdates = []\<rparr>"

definition initializePhases :: "StatusManager \<Rightarrow> StatusManager" where
  "initializePhases s =
     s\<lparr>phases := fold (\<lambda>p. AList.update p (pendingPhase p)) phaseNames (phases s)\<rparr>"

text \<open>
  The constructor: \<^verbatim>\<open>sessionId || `session_${Date.now()}_${r}`\<close>, where \<open>r\<close> is
  \<^verbatim>\<open>Math.random().toString(36).substr(2, 9)\<close>, the base-36 digits the random generator
  yields. \<open>g\<close> is the clock value and those digits; they are read only when the
  argument is absent or empty.
\<close>

definition generateSessionId :: "int \<times> string \<Rightarrow> string" where
  "generateSessionId g = ''session_'' @ show_int (fst g) @ ''_'' @ snd g"

definition new_StatusManager :: "string option \<Rightarrow> int \<times> string \<Rightarrow> StatusManager" where
  "new_StatusManager sid g =
     initializePhases
       \<lparr>updates = [], phases = [], currentPhase = None,
        sessionId = (case sid of None \<Rightarrow> generateSessionId g
                     | Some x \<Rightarrow> if x = [] then generateSessionId g else x),
        errorListener = False\<rparr>"

text \<open>\<^verbatim>\<open>statusManager.on('error', listener)\<close>.\<close>

definition on_error :: "StatusManager \<Rightarrow> StatusManager" where
  "on_error s = s\<lparr>errorListener := True\<rparr>"

definition addUpdate ::
  "stamp \<Rightarrow> update_type \<Rightarrow> string \<Rightarrow> string \<Rightarrow> json \<Rightarrow> rat option \<Rightarrow> StatusManager
     \<Rightarrow> completion \<times> StatusManager" where
  "addUpdate st ty ph msg d pr s =
     (let fullUpdate =
            \<lparr>uid = (sessionId s, fst st, fst (snd st)), utype = ty, uphase = ph, message = msg,
             timestamp = snd (snd st), udata = d, progress = pr\<rparr>;
          s1 = s\<lparr>updates := updates s @ [fullUpdate]\<rparr>;
          s2 = s1\<lparr>phases :=
                 AList.map_entry ph (\<lambda>p. p\<lparr>phaseUpdates := phaseUpdates p @ [fullUpdate]\<rparr>)
                   (phases s1)\<rparr>
      in (if ty = T_error \<and> \<not> errorListener s then Throws else Normal, s2))"

definition startPhase ::
  "int \<Rightarrow> stamp \<Rightarrow> string \<Rightarrow> string \<Rightarrow> StatusManager \<Rightarrow> completion \<times> StatusManager" where
  "startPhase now st ph msg s =
     (let s1 = s\<lparr>currentPhase := Some ph\<rparr>;
          s2 = s1\<lparr>phases :=
                 AList.map_entry ph (\<lambda>p. p\<lparr>status := In_progress, startTime := Some now\<rparr>)
                   (phases s1)\<rparr>
      in addUpdate st T_info ph msg (JObj [(''phase'', JStr ph), (''action'', JStr ''start'')])
           None s2)"

text \<open>The transition shared by \<^verbatim>\<open>completePhase\<close> and \<^verbatim>\<open>failPhase\<close>.\<close>

definition endPhase :: "phase_status \<Rightarrow> int \<Rightarrow> ProcessingPhase \<Rightarrow> ProcessingPhase" where
  "endPhase st now p =
     (let p1 = p\<lparr>status := st, endTime := Some now\<rparr>
      in case startTime p1 of
           None \<Rightarrow> p1
         | Some t0 \<Rightarrow> if t0 = 0 then p1 else p1\<lparr>duration := Some (toFixed1_s (now - t0))\<rparr>)"

definition duration_of :: "StatusManager \<Rightarrow> string \<Rightarrow> json" where
  "duration_of s ph =
     (case map_of (phases s) ph of
        None \<Rightarrow> JUndefined
      | Some p \<Rightarrow> (case duration p of None \<Rightarrow> JUndefined | Some d \<Rightarrow> JStr d))"

definition completePhase ::
  "int \<Rightarrow> stamp \<Rightarrow> string \<Rightarrow> string \<Rightarrow> json \<Rightarrow> StatusManager \<Rightarrow> completion \<times> StatusManager" where
  "completePhase now st ph msg d s =
     (let s1 = s\<lparr>phases := AList.map_entry ph (endPhase Completed now) (phases s)\<rparr>
      in addUpdate st T_success ph msg
           (obj_with d [(''phase'', JStr ph), (''action'', JStr ''complete''),
                        (''duration'', duration_of s1 ph)])
           None s1)"

text \<open>\<^verbatim>\<open>error?.message || error\<close>\<close>

definition error_text :: "json \<Rightarrow> json" where
  "error_text e =
     or_js (case e of JObj kvs \<Rightarrow> (case map_of kvs ''message'' of None \<Rightarrow> JUndefined | Some m \<Rightarrow> m)
                    | _ \<Rightarrow> JUndefined) e"

definition failPhase ::
  "int \<Rightarrow> stamp \<Rightarrow> string \<Rightarrow> string \<Rightarrow> json \<Rightarrow> StatusManager \<Rightarrow> completion \<times> StatusManager" where
  "failPhase now st ph msg err s =
     (let s1 = s\<lparr>phases := AList.map_entry ph (endPhase Failed now) (phases s)\<rparr>
      in addUpdate st T_error ''error'' msg
           (JObj [(''error'', error_text err), (''phase'', JStr ph), (''action'', JStr ''fail'')])
           None s1)"

definition updateProgress ::
  "stamp \<Rightarrow> string \<Rightarrow> string \<Rightarrow> rat option \<Rightarrow> json \<Rightarrow> StatusManager \<Rightarrow> completion \<times> StatusManager" where
  "updateProgress st ph msg pr d s =
     addUpdate st T_progress ph msg (obj_with d [(''phase'', JStr ph), (''action'', JStr ''progress'')])
       pr s"

definition updateData ::
  "stamp \<Rightarrow> string \<Rightarrow> string \<Rightarrow> json \<Rightarrow> StatusManager \<Rightarrow> completion \<times> StatusManager" where
  "updateData st ph msg d s =
     addUpdate st T_data ph msg (obj_with d [(''phase'', JStr ph), (''action'', JStr ''data'')])
       None s"

definition updateInfo ::
  "stamp \<Rightarrow> string \<Rightarrow> string \<Rightarrow> json \<Rightarrow> StatusManager \<Rightarrow> completion \<times> StatusManager" where
  "updateInfo st ph msg d s =
     addUpdate st T_info ph msg (obj_with d [(''phase'', JStr ph), (''action'', JStr ''info'')])
       None s"

definition updateSuccess ::
  "stamp \<Rightarrow> string \<Rightarrow> string \<Rightarrow> json \<Rightarrow> StatusManager \<Rightarrow> completion \<times> StatusManager" where
  "updateSuccess st ph msg d s =
     addUpdate st T_success ph msg (obj_with d [(''phase'', JStr ph), (''action'', JStr ''success'')])
       None s"

definition clear :: "StatusManager \<Rightarrow> StatusManager" where
  "clear s = initializePhases (s\<lparr>updates := [], phases := [], currentPhase := None\<rparr>)"

subsection \<open>getSummary\<close>

record Summary =
  overallStatus :: phase_status
  totalPhases :: nat
  completedPhases :: nat
  failedPhases :: nat
  inProgressPhases :: nat
  progressPercent :: "int option"

definition count_status :: "phase_status \<Rightarrow> StatusManager \<Rightarrow> nat" where
  "count_status st s = length (filter (\<lambda>p. status p = st) (map snd (phases s)))"

text \<open>
  \<^verbatim>\<open>Math.round((completedPhases / totalPhases) * 100)\<close>; \<open>None\<close> is the \<^verbatim>\<open>NaN\<close> of an
  empty phase map.
\<close>

definition getSummary :: "StatusManager \<Rightarrow> Summary" where
  "getSummary s =
     (let total = length (phases s);
          completed = count_status Completed s;
          failed = count_status Failed s;
          inProgress = count_status In_progress s
      in \<lparr>overallStatus =
             (if failed > 0 then Failed
              else if completed = total then Completed
              else if inProgress > 0 then In_progress
              else Pending),
          totalPhases = total,
          completedPhases = completed,
          failedPhases = failed,
          inProgressPhases = inProgress,
          progressPercent =
            (if total = 0 then None
             else Some (round (of_nat completed / of_nat total * (100 :: rat))))\<rparr>)"

text \<open>The phase records as \<^verbatim>\<open>Array.from(this.phases.values())\<close> lists them.\<close>

definition phaseRecords :: "StatusManager \<Rightarrow> ProcessingPhase list" where
  "phaseRecords s = map snd (phases s)"

subsection \<open>Sequences of operations\<close>

text \<open>
  The mutating methods of the class. The read-only ones (\<^verbatim>\<open>getStatus\<close>,
  \<^verbatim>\<open>getSummary\<close>, \<^verbatim>\<open>getAllUpdates\<close>, \<^verbatim>\<open>getUpdatesSince\<close>, \<^verbatim>\<open>getPhaseUpdates\<close>,
  \<^verbatim>\<open>getUserStatus\<close>) are functions of the state and leave it as it is.
\<close>

datatype sm_op =
    StartPhase int stamp string string
  | CompletePhase int stamp string string json
  | FailPhase int stamp string string json
  | UpdateProgress stamp string string "rat option" json
  | UpdateData stamp string string json
  | UpdateInfo stamp string string json
  | UpdateSuccess stamp string string json
  | Clear

fun apply_op :: "sm_op \<Rightarrow> StatusManager \<Rightarrow> completion \<times> StatusManager" where
  "apply_op (StartPhase now st ph msg) s = startPhase now st ph msg s"
| "apply_op (CompletePhase now st ph msg d) s = completePhase now st ph msg d s"
| "apply_op (FailPhase now st ph msg e) s = failPhase now st ph msg e s"
| "apply_op (UpdateProgress st ph msg pr d) s = updateProgress st ph msg pr d s"
| "apply_op (UpdateData st ph msg d) s = updateData st ph msg d s"
| "apply_op (UpdateInfo st ph msg d) s = updateInfo st ph msg d s"
| "apply_op (UpdateSuccess st ph msg d) s = updateSuccess st ph msg d s"
| "apply_op Clear s = (Normal, clear s)"

text \<open>
  A caller issuing the operations one after the other. A throwing \<^verbatim>\<open>emit\<close> happens
  after the state has been written, so the state of a thrown call is kept.
\<close>

definition run_ops :: "sm_op list \<Rightarrow> StatusManager \<Rightarrow> StatusManager" where
  "run_ops ops s = fold (\<lambda>op t. snd (apply_op op t)) ops s"

subsection \<open>Properties of the summary\<close>

lemma filter_pos_iff: "0 < length (filter P xs) \<longleftrightarrow> list_ex P xs"
  by (induction xs) auto

lemma filter_all_iff: "length (filter P xs) = length xs \<longleftrightarrow> list_all P xs"
proof (induction xs)
  case Nil
  show ?case by simp
next
  case (Cons a xs)
  have le: "length (filter P xs) \<le> length xs" by (rule length_filter_le)
  show ?case
  proof (cases "P a")
    case True
    with Cons show ?thesis by simp
  next
    case False
    from le have "length (filter P xs) \<noteq> Suc (length xs)" by linarith
    with False show ?thesis by simp
  qed
qed

lemma count_status_pos:
  "0 < count_status st s \<longleftrightarrow> list_ex (\<lambda>p. status p = st) (phaseRecords s)"
  unfolding count_status_def phaseRecords_def by (rule filter_pos_iff)

lemma count_status_all:
  "count_status st s = length (phases s) \<longleftrightarrow> list_all (\<lambda>p. status p = st) (phaseRecords s)"
  using filter_all_iff [of "\<lambda>p. status p = st" "map snd (phases s)"]
  unfolding count_status_def phaseRecords_def by (simp only: length_map)

lemma updates_new: "updates (new_StatusManager sid g) = []"
  by (simp add: new_StatusManager_def initializePhases_def)

lemma phaseRecords_new:
  "phaseRecords (new_StatusManager sid g) = map pendingPhase phaseNames"
  by (simp add: phaseRecords_def new_StatusManager_def initializePhases_def phaseNames_def)

lemma overallStatus_new: "overallStatus (getSummary (new_StatusManager sid g)) = Pending"
  by (simp add: getSummary_def count_status_def new_StatusManager_def initializePhases_def
      phaseNames_def pendingPhase_def)

text \<open>
  C3, as the code has it. For every state of the phase records, \<^verbatim>\<open>getSummary()\<close> reports
  \<open>failed\<close> when some phase is failed; otherwise \<open>completed\<close> when every phase is
  completed; otherwise \<open>in_progress\<close> when some phase is in progress; and \<open>pending\<close> in
  every remaining case. The last case is the one the claim words as \<open>in_progress\<close>.
\<close>

theorem getSummary_overallStatus:
  "overallStatus (getSummary s) =
     (if list_ex (\<lambda>p. status p = Failed) (phaseRecords s) then Failed
      else if list_all (\<lambda>p. status p = Completed) (phaseRecords s) then Completed
      else if list_ex (\<lambda>p. status p = In_progress) (phaseRecords s) then In_progress
      else Pending)"
  by (simp add: getSummary_def Let_def count_status_pos count_status_all)

text \<open>
  C3, as the claim states it, fails on a fresh StatusManager: all four records are
  pending, none is failed, not all are completed, and the summary is \<open>pending\<close>, not
  \<open>in_progress\<close>.
\<close>

theorem getSummary_initial_counterexample:
  "phaseRecords (new_StatusManager (Some ''s1'') (0, [])) = map pendingPhase phaseNames
   \<and> \<not> list_ex (\<lambda>p. status p = Failed) (phaseRecords (new_StatusManager (Some ''s1'') (0, [])))
   \<and> \<not> list_all (\<lambda>p. status p = Completed) (phaseRecords (new_StatusManager (Some ''s1'') (0, [])))
   \<and> overallStatus (getSummary (new_StatusManager (Some ''s1'') (0, []))) = Pending
   \<and> overallStatus (getSummary (new_StatusManager (Some ''s1'') (0, []))) \<noteq> In_progress"
  by (simp add: phaseRecords_new overallStatus_new phaseNames_def pendingPhase_def)

subsection \<open>The session log is append-only, except for clear\<close>

lemma addUpdate_updates:
  "updates (snd (addUpdate st ty ph msg d pr s)) =
     updates s @ [\<lparr>uid = (sessionId s, fst st, fst (snd st)), utype = ty, uphase = ph,
                   message = msg, timestamp = snd (snd st), udata = d, progress = pr\<rparr>]"
  by (simp add: addUpdate_def Let_def)

lemma apply_op_prefix:
  "op \<noteq> Clear \<Longrightarrow> prefix (updates s) (updates (snd (apply_op op s)))"
  by (cases op)
    (simp_all add: startPhase_def completePhase_def failPhase_def updateProgress_def
      updateData_def updateInfo_def updateSuccess_def addUpdate_updates Let_def)

lemma run_ops_Cons: "run_ops (op # ops) s = run_ops ops (snd (apply_op op s))"
  by (simp add: run_ops_def)

lemma run_ops_append: "run_ops (ops1 @ ops2) s = run_ops ops2 (run_ops ops1 s)"
  by (simp add: run_ops_def)

lemma run_ops_prefix:
  "Clear \<notin> set ops \<Longrightarrow> prefix (updates s) (updates (run_ops ops s))"
proof (induction ops arbitrary: s)
  case Nil
  show ?case by (simp add: run_ops_def)
next
  case (Cons op ops)
  from Cons.prems have "op \<noteq> Clear" and rest: "Clear \<notin> set ops" by auto
  then have "prefix (updates s) (updates (snd (apply_op op s)))"
    by (simp add: apply_op_prefix)
  moreover have "prefix (updates (snd (apply_op op s))) (updates (run_ops (op # ops) s))"
    using Cons.IH [OF rest] by (simp add: run_ops_Cons)
  ultimately show ?case by (rule prefix_order.trans)
qed

lemma clear_resets:
  "updates (clear t) = []"
  "phaseRecords (clear t) = map pendingPhase phaseNames"
  "currentPhase (clear t) = None"
  by (simp_all add: clear_def initializePhases_def phaseRecords_def phaseNames_def)

text \<open>
  C8, amended. Take any sequence of StatusManager operations \<open>ops1\<close> and any later
  operations \<open>ops2\<close> none of which is \<^verbatim>\<open>clear()\<close>. The log observed after \<open>ops1\<close> is a
  prefix of the log observed after \<open>ops1\<close> followed by \<open>ops2\<close>: every event recorded
  earlier is still there, at the same position and with the same fields. \<^verbatim>\<open>clear()\<close>,
  in whatever state \<open>t\<close> it is called and so after any operations \<open>ops1\<close>, leaves the
  log empty, the four phase records as the constructor makes them (pending, without
  times and without updates), and no current phase.
\<close>

theorem updates_append_only:
  "(Clear \<notin> set ops2 \<longrightarrow>
      prefix (updates (run_ops ops1 s)) (updates (run_ops (ops1 @ ops2) s)))
   \<and> updates (clear t) = []
   \<and> phaseRecords (clear t) = map pendingPhase phaseNames
   \<and> currentPhase (clear t) = None
   \<and> run_ops (ops1 @ [Clear]) s = clear (run_ops ops1 s)"
proof (intro conjI impI)
  assume "Clear \<notin> set ops2"
  then show "prefix (updates (run_ops ops1 s)) (updates (run_ops (ops1 @ ops2) s))"
    by (simp add: run_ops_append run_ops_prefix)
next
  show "updates (clear t) = []" by (rule clear_resets)
next
  show "phaseRecords (clear t) = map pendingPhase phaseNames" by (rule clear_resets)
next
  show "currentPhase (clear t) = None" by (rule clear_resets)
next
  have "run_ops [Clear] (run_ops ops1 s) = clear (run_ops ops1 s)"
    by (simp add: run_ops_def)
  then show "run_ops (ops1 @ [Clear]) s = clear (run_ops ops1 s)"
    by (simp only: run_ops_append)
qed

theorem updates_append_only_witness:
  "Clear \<notin> set [StartPhase 5 (5, 1, 5) ''planning'' ''go'']
   \<and> prefix (updates (run_ops [UpdateInfo (1, 7, 1) ''planning'' ''hello'' JUndefined]
                (new_StatusManager (Some ''s1'') (0, []))))
       (updates (run_ops ([UpdateInfo (1, 7, 1) ''planning'' ''hello'' JUndefined]
                  @ [StartPhase 5 (5, 1, 5) ''planning'' ''go''])
                (new_StatusManager (Some ''s1'') (0, []))))
   \<and> length (updates (run_ops [UpdateInfo (1, 7, 1) ''planning'' ''hello'' JUndefined]
                (new_StatusManager (Some ''s1'') (0, [])))) = 1
   \<and> updates (run_ops ([UpdateInfo (1, 7, 1) ''planning'' ''hello'' JUndefined] @ [Clear])
                (new_StatusManager (Some ''s1'') (0, []))) = []
   \<and> phaseRecords (run_ops ([UpdateInfo (1, 7, 1) ''planning'' ''hello'' JUndefined] @ [Clear])
                (new_StatusManager (Some ''s1'') (0, [])))
       = map pendingPhase phaseNames"
  using updates_append_only
    [of "[StartPhase 5 (5, 1, 5) ''planning'' ''go'']"
        "[UpdateInfo (1, 7, 1) ''planning'' ''hello'' JUndefined]"
        "new_StatusManager (Some ''s1'') (0, [])"
        "run_ops [UpdateInfo (1, 7, 1) ''planning'' ''hello'' JUndefined]
           (new_StatusManager (Some ''s1'') (0, []))"]
  by (simp add: run_ops_def updateInfo_def addUpdate_updates updates_new)

text \<open>
  C8, as the claim states it, fails for \<^verbatim>\<open>clear()\<close>: after one recorded event the log
  has one entry, and after \<^verbatim>\<open>clear()\<close> it is empty, so the earlier log is not a prefix
  of the later one.
\<close>

theorem clear_removes_updates_counterexample:
  "length (updates (run_ops [UpdateInfo (1, 7, 1) ''planning'' ''hello'' JUndefined]
             (new_StatusManager (Some ''s1'') (0, [])))) = 1
   \<and> updates (run_ops ([UpdateInfo (1, 7, 1) ''planning'' ''hello'' JUndefined] @ [Clear])
               (new_StatusManager (Some ''s1'') (0, []))) = []
   \<and> \<not> prefix (updates (run_ops [UpdateInfo (1, 7, 1) ''planning'' ''hello'' JUndefined]
                  (new_StatusManager (Some ''s1'') (0, []))))
         (updates (run_ops ([UpdateInfo (1, 7, 1) ''planning'' ''hello'' JUndefined] @ [Clear])
                    (new_StatusManager (Some ''s1'') (0, []))))"
  by (simp add: run_ops_def updateInfo_def addUpdate_updates clear_def initializePhases_def
      updates_new)

section \<open>Orchestrator (src/lib/agent/master-orchestrator-agent.ts)\<close>

record UserProfile =
  name :: string
  company :: string
  valueProposition :: string
  caseStudy :: "string option"
  skills :: "string option"
  industry :: "string option"

record ExecutionPlan =
  intent :: string
  searchQueries :: "string list"
  userProfile :: UserProfile
  emailType :: string
  targetCount :: nat

definition createFallbackPlan :: "string \<Rightarrow> ExecutionPlan" where
  "createFallbackPlan userQuery =
     (let baseQueries =
            [''startup founders contact information'',
             ''tech company CEO contact details'',
             ''successful startup founders LinkedIn'',
             ''venture backed startup founders'',
             ''tech entrepreneur contact information'',
             ''startup founder email addresses'',
             ''emerging tech company leaders''];
          baseQueries1 =
            (if includes_str (toLowerCase userQuery) ''bangalore''
                \<or> includes_str (toLowerCase userQuery) ''banglore''
             then [''Bangalore startup founders contact'',
                   ''AI SaaS startup founders Bangalore'',
                   ''tech entrepreneurs Bangalore LinkedIn''] @ baseQueries
             else baseQueries);
          baseQueries2 =
            (if includes_str (toLowerCase userQuery) ''yc''
                \<or> includes_str (toLowerCase userQuery) ''combinator''
             then [''Y Combinator alumni founders'',
                   ''YC startup founders contact''] @ baseQueries1
             else baseQueries1)
      in \<lparr>intent = ''sales_outreach'',
          searchQueries = take 8 baseQueries2,
          userProfile =
            \<lparr>name = ''Tamil M'', company = ''zoq agent'',
             valueProposition = ''AI  automation at scale'',
             caseStudy = Some ''helped dashchat.xyz generate leads'',
             skills = None, industry = Some ''AI/SaaS''\<rparr>,
          emailType = ''sales_outreach'',
          targetCount = 3\<rparr>)"

definition opt_entry :: "string \<Rightarrow> string option \<Rightarrow> (string \<times> json) list" where
  "opt_entry k v = (case v of None \<Rightarrow> [] | Some x \<Rightarrow> [(k, JStr x)])"

text \<open>
  The profile as a JSON object, the optional entries that are present in the order of
  the interface declaration.
\<close>

definition userProfile_json :: "UserProfile \<Rightarrow> json" where
  "userProfile_json p =
     JObj ([(''name'', JStr (name p)), (''company'', JStr (company p)),
            (''valueProposition'', JStr (valueProposition p))]
           @ opt_entry ''caseStudy'' (caseStudy p) @ opt_entry ''skills'' (skills p)
           @ opt_entry ''industry'' (industry p))"

subsection \<open>The run state and its sequencing\<close>

text \<open>
  A run threads the StatusManager and records, after every call on it, the state a
  listener observes. An action either returns a value or throws.
\<close>

record run =
  sm :: StatusManager
  trace :: "StatusManager list"

type_synonym 'a io = "run \<Rightarrow> (js_error + 'a) \<times> run"

definition ret :: "'a \<Rightarrow> 'a io" where
  "ret x r = (Inr x, r)"

definition throw :: "js_error \<Rightarrow> 'a io" where
  "throw e r = (Inl e, r)"

definition bnd :: "'a io \<Rightarrow> ('a \<Rightarrow> 'b io) \<Rightarrow> 'b io" where
  "bnd m f r = (case m r of (Inl e, r') \<Rightarrow> (Inl e, r') | (Inr x, r') \<Rightarrow> f x r')"

definition try_catch :: "'a io \<Rightarrow> (js_error \<Rightarrow> 'a io) \<Rightarrow> 'a io" where
  "try_catch m h r = (case m r of (Inl e, r') \<Rightarrow> h e r' | (Inr x, r') \<Rightarrow> (Inr x, r'))"

definition lift :: "js_error + 'a \<Rightarrow> 'a io" where
  "lift v r = (v, r)"

definition of_outcome :: "'a outcome \<Rightarrow> 'a io" where
  "of_outcome v = (case v of Returns x \<Rightarrow> ret x | Raises e \<Rightarrow> throw e)"

subsection \<open>The world outside the orchestrator\<close>

text \<open>
  What a stage agent does on the shared StatusManager: it only ever logs
  (\<^verbatim>\<open>updateInfo\<close>, \<^verbatim>\<open>updateProgress\<close>, \<^verbatim>\<open>updateData\<close>, \<^verbatim>\<open>updateSuccess\<close>).
\<close>

datatype agent_update =
    AgentInfo string string json
  | AgentProgress string string "rat option" json
  | AgentData string string json
  | AgentSuccess string string json

fun agent_call :: "agent_update \<Rightarrow> stamp \<Rightarrow> StatusManager \<Rightarrow> completion \<times> StatusManager" where
  "agent_call (AgentInfo ph msg d) st s = updateInfo st ph msg d s"
| "agent_call (AgentProgress ph msg pr d) st s = updateProgress st ph msg pr d s"
| "agent_call (AgentData ph msg d) st s = updateData st ph msg d s"
| "agent_call (AgentSuccess ph msg d) st s = updateSuccess st ph msg d s"

text \<open>One call of a stage agent: the updates it logs and how it ends.\<close>

record stage_run =
  emitted :: "agent_update list"
  returned :: "string outcome"

record attempt_env =
  planningCall :: "string outcome"
  discoveryRun :: stage_run
  enrichmentRun :: stage_run
  emailRun :: stage_run

text \<open>
  The environment of a run: the clock and random generator as read when the k-th
  update is logged, \<^verbatim>\<open>JSON.parse\<close>, the string conversion of template literals, the
  plan extraction from the model's analysis text (\<^verbatim>\<open>extractPlanFromAnalysis\<close>, a pure
  function of its two strings), and what the model and the stage agents do in each
  pipeline attempt.
\<close>

record world =
  clock :: "nat \<Rightarrow> int"
  random :: "nat \<Rightarrow> nat"
  JSON_parse :: "string \<Rightarrow> json option"
  String_of :: "json \<Rightarrow> string"
  extractPlanFromAnalysis :: "string \<Rightarrow> string \<Rightarrow> js_error + ExecutionPlan"
  attemptEnv :: "nat \<Rightarrow> attempt_env"

definition dateNow :: "world \<Rightarrow> int io" where
  "dateNow w r = (Inr (clock w (length (updates (sm r)))), r)"

definition stampAt :: "world \<Rightarrow> run \<Rightarrow> stamp" where
  "stampAt w r = (let k = length (updates (sm r)) in (clock w k, random w k, clock w k))"

text \<open>One call on the StatusManager; the state it leaves is appended to the trace.\<close>

definition call :: "world \<Rightarrow> (stamp \<Rightarrow> StatusManager \<Rightarrow> completion \<times> StatusManager) \<Rightarrow> unit io" where
  "call w f r =
     (let res = f (stampAt w r) (sm r);
          r' = \<lparr>sm = snd res, trace = trace r @ [snd res]\<rparr>
      in (case fst res of Normal \<Rightarrow> Inr () | Throws \<Rightarrow> Inl UnhandledError, r'))"

definition run_agent :: "world \<Rightarrow> stage_run \<Rightarrow> string io" where
  "run_agent w a r =
     of_outcome (returned a) (fold (\<lambda>u t. snd (call w (agent_call u) t)) (emitted a) r)"

subsection \<open>Planning\<close>

text \<open>
  \<^verbatim>\<open>generateSearchQueriesAndPlan\<close>. \<open>modelCall\<close> is how the chat completion ends: the
  content of its first choice, or an exception.
\<close>

definition generateSearchQueriesAndPlan :: "world \<Rightarrow> string outcome \<Rightarrow> string \<Rightarrow> ExecutionPlan io" where
  "generateSearchQueriesAndPlan w modelCall userQuery =
     bnd (call w (\<lambda>st. updateProgress st ''planning'' ''Analyzing your request...'' (Some 30)
                        JUndefined)) (\<lambda>_.
     try_catch
       (bnd (call w (\<lambda>st. updateProgress st ''planning'' ''Creating search strategy...'' (Some 60)
                          JUndefined)) (\<lambda>_.
        bnd (of_outcome modelCall) (\<lambda>analysisText.
        bnd (call w (\<lambda>st. updateProgress st ''planning'' ''Finalizing execution plan...'' (Some 90)
                          JUndefined)) (\<lambda>_.
        lift (extractPlanFromAnalysis w analysisText userQuery)))))
       (\<lambda>e.
        bnd (call w (\<lambda>st. updateInfo st ''planning'' ''Using fallback search strategy...''
                          JUndefined)) (\<lambda>_.
        ret (createFallbackPlan userQuery))))"

subsection \<open>Validation of a stage's output\<close>

text \<open>
  The test at the head of each \<^verbatim>\<open>try\<close> block: parse the stage's string, require
  \<^verbatim>\<open>status === 'success'\<close> and a non-empty list under \<open>listKey\<close>. The list must be an
  array for the \<^verbatim>\<open>.slice(0, 3).map(...)\<close> that follows.
\<close>

definition parseStage ::
  "world \<Rightarrow> string \<Rightarrow> string \<Rightarrow> string \<Rightarrow> string \<Rightarrow> string \<Rightarrow> js_error + json \<times> json list" where
  "parseStage w listKey errKey dflt failText raw =
     (case JSON_parse w raw of
        None \<Rightarrow> Inl SyntaxError
      | Some d \<Rightarrow>
          (let failed = Inl (Error (failText @ String_of w (or_js (opt_prop d errKey) (JStr dflt))))
           in sbind (get_prop d ''status'') (\<lambda>st.
              if st \<noteq> JStr ''success'' then failed
              else sbind (get_prop d listKey) (\<lambda>l.
                if \<not> truthy l then failed
                else sbind (get_prop l ''length'') (\<lambda>n.
                  if n = JNum 0 then failed
                  else (case l of JArr xs \<Rightarrow> Inr (d, xs) | _ \<Rightarrow> Inl TypeError))))))"

definition opt_index :: "json \<Rightarrow> nat \<Rightarrow> json" where
  "opt_index v i = (if v = JNull \<or> v = JUndefined then JUndefined else js_index v i)"

definition personLine :: "world \<Rightarrow> nat \<times> json \<Rightarrow> js_error + string" where
  "personLine w ip =
     sbind (get_prop (snd ip) ''name'') (\<lambda>n.
     sbind (get_prop (snd ip) ''company'') (\<lambda>c.
     Inr (show_nat (fst ip + 1) @ ''. '' @ String_of w n @ '' at '' @ String_of w c)))"

definition insightLine :: "world \<Rightarrow> nat \<times> json \<Rightarrow> js_error + string" where
  "insightLine w ip =
     sbind (get_prop (snd ip) ''name'') (\<lambda>n.
     Inr (show_nat (fst ip + 1) @ ''. '' @ String_of w n @ '': ''
          @ String_of w
              (or_js (opt_index (opt_prop (opt_prop (snd ip) ''emailSignals'') ''personalizedHooks'') 0)
                 (JStr ''Professional insights found''))))"

definition emailLine :: "world \<Rightarrow> nat \<times> json \<Rightarrow> js_error + string" where
  "emailLine w ie =
     sbind (get_prop (snd ie) ''recipientName'') (\<lambda>n.
     sbind (get_prop (snd ie) ''recipientCompany'') (\<lambda>c.
     sbind (get_prop (snd ie) ''subject'') (\<lambda>sj.
     Inr (show_nat (fst ie + 1) @ ''. To: '' @ String_of w n @ '' at '' @ String_of w c
          @ [CHR 0x0A] @ ''   Subject: '' @ String_of w sj))))"

text \<open>\<^verbatim>\<open>xs.slice(0, 3).map(line).join(sep)\<close>\<close>

definition first3Lines :: "(nat \<times> json \<Rightarrow> js_error + string) \<Rightarrow> string \<Rightarrow> json list \<Rightarrow> js_error + string" where
  "first3Lines line sep xs =
     sbind (collect (map line (enumerate 0 (take 3 xs)))) (\<lambda>ls. Inr (join sep ls))"

definition count_json :: "json list \<Rightarrow> json" where
  "count_json xs = JNum (of_nat (length xs))"

definition textFormat :: "string \<Rightarrow> json" where
  "textFormat raw = JObj [(''rawResponse'', JStr raw), (''status'', JStr ''text_format'')]"

definition checkDiscovery :: "world \<Rightarrow> string \<Rightarrow> int \<Rightarrow> json io" where
  "checkDiscovery w discoveryResult discoveryDuration =
     try_catch
       (bnd (lift (parseStage w ''people'' ''error'' ''No people found'' ''Discovery failed: ''
                     discoveryResult)) (\<lambda>dp.
        bnd (lift (first3Lines (personLine w) [CHR 0x0A] (snd dp))) (\<lambda>peopleList.
        bnd (call w (\<lambda>st. completePhase (fst st) st ''discovery''
                          (''Hurray! Found '' @ show_nat (length (snd dp)) @ '' people'')
                          (JObj [(''count'', count_json (snd dp)),
                                 (''people'', JArr (take 3 (snd dp))),
                                 (''duration'', JStr (toFixed1_s discoveryDuration))]))) (\<lambda>_.
        bnd (call w (\<lambda>st. updateData st ''discovery''
                          (''Found people:'' @ [CHR 0x0A] @ peopleList)
                          (JObj [(''people'', JArr (snd dp))]))) (\<lambda>_.
        ret (fst dp))))))
       (\<lambda>parseError.
        if startsWith discoveryResult ''DISCOVERY_FAILED''
        then throw (Error (''Discovery phase failed: '' @ discoveryResult))
        else bnd (call w (\<lambda>st. completePhase (fst st) st ''discovery''
                               ''Discovery completed (processing results...)''
                               (JObj [(''duration'', JStr (toFixed1_s discoveryDuration))]))) (\<lambda>_.
             ret (textFormat discoveryResult)))"

definition checkEnrichment :: "world \<Rightarrow> string \<Rightarrow> int \<Rightarrow> json io" where
  "checkEnrichment w enrichmentResult enrichmentDuration =
     try_catch
       (bnd (lift (parseStage w ''enrichedProfiles'' ''error'' ''No enriched profiles''
                     ''Enrichment failed: '' enrichmentResult)) (\<lambda>dp.
        bnd (lift (first3Lines (insightLine w) [CHR 0x0A] (snd dp))) (\<lambda>insights.
        bnd (call w (\<lambda>st. completePhase (fst st) st ''enrichment''
                          (''Enhanced '' @ show_nat (length (snd dp))
                           @ '' profiles with actionable insights'')
                          (JObj [(''count'', count_json (snd dp)),
                                 (''profiles'', JArr (take 3 (snd dp))),
                                 (''duration'', JStr (toFixed1_s enrichmentDuration))]))) (\<lambda>_.
        bnd (call w (\<lambda>st. updateData st ''enrichment''
                          (''Key insights:'' @ [CHR 0x0A] @ insights)
                          (JObj [(''enrichedProfiles'', JArr (snd dp))]))) (\<lambda>_.
        ret (fst dp))))))
       (\<lambda>parseError.
        if startsWith enrichmentResult ''ENRICHMENT_FAILED''
        then throw (Error (''Enrichment phase failed: '' @ enrichmentResult))
        else bnd (call w (\<lambda>st. completePhase (fst st) st ''enrichment''
                               ''Enrichment completed (processing data...)''
                               (JObj [(''duration'', JStr (toFixed1_s enrichmentDuration))]))) (\<lambda>_.
             ret (textFormat enrichmentResult)))"

definition checkEmail :: "world \<Rightarrow> string \<Rightarrow> int \<Rightarrow> json io" where
  "checkEmail w emailResult emailDuration =
     try_catch
       (bnd (lift (parseStage w ''emails'' ''message'' ''No emails generated''
                     ''Email writing failed: '' emailResult)) (\<lambda>dp.
        bnd (lift (first3Lines (emailLine w) [CHR 0x0A, CHR 0x0A] (snd dp))) (\<lambda>emailSummary.
        bnd (call w (\<lambda>st. completePhase (fst st) st ''email_writing''
                          (''Successfully generated '' @ show_nat (length (snd dp))
                           @ '' personalized emails'')
                          (JObj [(''count'', count_json (snd dp)),
                                 (''emails'', JArr (take 3 (snd dp))),
                                 (''averageConfidence'', opt_prop (fst dp) ''averageConfidence''),
                                 (''duration'', JStr (toFixed1_s emailDuration))]))) (\<lambda>_.
        bnd (call w (\<lambda>st. updateData st ''email_writing''
                          (''Generated emails:'' @ [CHR 0x0A] @ emailSummary)
                          (JObj [(''emails'', JArr (snd dp))]))) (\<lambda>_.
        ret (fst dp))))))
       (\<lambda>parseError.
        if startsWith emailResult ''EMAIL_WRITING_FAILED''
        then throw (Error (''Email writing failed: '' @ emailResult))
        else bnd (call w (\<lambda>st. completePhase (fst st) st ''email_writing''
                               ''Email writing completed''
                               (JObj [(''duration'', JStr (toFixed1_s emailDuration))]))) (\<lambda>_.
             ret (textFormat emailResult)))"

subsection \<open>executeQuery\<close>

record Timing =
  timing_total :: string
  timing_discovery :: string
  timing_enrichment :: string
  timing_emailWriting :: string

record MasterExecutionResult =
  success :: bool
  resultSessionId :: string
  executionPlan :: "ExecutionPlan option"
  discoveryData :: json
  enrichmentData :: json
  emailsGenerated :: json
  timing :: Timing
  attemptNumber :: nat
  resultTimestamp :: int
  error :: "string option"
  lastError :: "string option"
  totalAttempts :: "nat option"
  statusSummary :: Summary

definition planData :: "ExecutionPlan \<Rightarrow> json" where
  "planData plan =
     JObj [(''emailType'', JStr (emailType plan)),
           (''targetCount'', JNum (of_nat (targetCount plan))),
           (''userProfile'', userProfile_json (userProfile plan)),
           (''searchQueries'', JNum (of_nat (length (searchQueries plan))))]"

text \<open>
  The body of the \<^verbatim>\<open>try\<close> of one pipeline attempt. The strings handed to the
  enrichment and email agents are their inputs; what the agents do with them is the
  environment's \<open>attemptEnv\<close>.
\<close>

definition pipeline :: "world \<Rightarrow> string \<Rightarrow> nat \<Rightarrow> int \<Rightarrow> nat \<Rightarrow> MasterExecutionResult io" where
  "pipeline w userQuery retryAttempts overallStartTime attempt =
     bnd (if 1 < attempt
          then call w (\<lambda>st. updateInfo st ''planning''
                        (''Retrying... (Attempt '' @ show_nat attempt @ ''/''
                         @ show_nat retryAttempts @ '')'') JUndefined)
          else ret ()) (\<lambda>_.
     bnd (call w (\<lambda>st. startPhase (fst st) st ''planning''
                       ''Analyzing request and planning search strategy...'')) (\<lambda>_.
     bnd (generateSearchQueriesAndPlan w (planningCall (attemptEnv w attempt)) userQuery)
       (\<lambda>plan.
     bnd (call w (\<lambda>st. completePhase (fst st) st ''planning''
                       (''Plan ready: '' @ emailType plan @ '' emails for ''
                        @ show_nat (targetCount plan) @ '' people'')
                       (planData plan))) (\<lambda>_.
     bnd (call w (\<lambda>st. startPhase (fst st) st ''discovery''
                       ''Finding founders who match your criteria...'')) (\<lambda>_.
     bnd (dateNow w) (\<lambda>discoveryStartTime.
     bnd (run_agent w (discoveryRun (attemptEnv w attempt))) (\<lambda>discoveryResult.
     bnd (dateNow w) (\<lambda>discoveryEnd.
     bnd (checkDiscovery w discoveryResult (discoveryEnd - discoveryStartTime))
       (\<lambda>discoveryData'.
     bnd (call w (\<lambda>st. startPhase (fst st) st ''enrichment''
                       ''Enriching profiles with detailed information...'')) (\<lambda>_.
     bnd (dateNow w) (\<lambda>enrichmentStartTime.
     bnd (run_agent w (enrichmentRun (attemptEnv w attempt))) (\<lambda>enrichmentResult.
     bnd (dateNow w) (\<lambda>enrichmentEnd.
     bnd (checkEnrichment w enrichmentResult (enrichmentEnd - enrichmentStartTime))
       (\<lambda>enrichmentData'.
     bnd (call w (\<lambda>st. startPhase (fst st) st ''email_writing''
                       ''Generating personalized cold emails...'')) (\<lambda>_.
     bnd (dateNow w) (\<lambda>emailStartTime.
     bnd (run_agent w (emailRun (attemptEnv w attempt))) (\<lambda>emailResult.
     bnd (dateNow w) (\<lambda>emailEnd.
     bnd (checkEmail w emailResult (emailEnd - emailStartTime)) (\<lambda>emailData.
     bnd (dateNow w) (\<lambda>totalEnd.
     bnd (call w (\<lambda>st. updateSuccess st ''complete''
                       (''Success! Generated ''
                        @ String_of w (or_js (opt_prop (opt_prop emailData ''emails'') ''length'')
                                         (JStr ''multiple''))
                        @ '' personalized emails in '' @ toFixed1_s (totalEnd - overallStartTime))
                       JUndefined)) (\<lambda>_.
     bnd (dateNow w) (\<lambda>stampTime.
     (\<lambda>r. ret
        \<lparr>success = True,
         resultSessionId = sessionId (sm r),
         executionPlan = Some plan,
         discoveryData = discoveryData',
         enrichmentData = enrichmentData',
         emailsGenerated = emailData,
         timing =
           \<lparr>timing_total = toFixed1_s (totalEnd - overallStartTime),
            timing_discovery = toFixed1_s (discoveryEnd - discoveryStartTime),
            timing_enrichment = toFixed1_s (enrichmentEnd - enrichmentStartTime),
            timing_emailWriting = toFixed1_s (emailEnd - emailStartTime)\<rparr>,
         attemptNumber = attempt,
         resultTimestamp = stampTime,
         error = None,
         lastError = None,
         totalAttempts = None,
         statusSummary = getSummary (sm r)\<rparr> r)))))))))))))))))))))))"

definition failedStage :: "bool \<Rightarrow> string \<Rightarrow> json" where
  "failedStage withError text =
     JObj ((''status'', JStr ''failed'') # (if withError then [(''error'', JStr text)] else []))"

definition failureResult ::
  "StatusManager \<Rightarrow> string \<Rightarrow> string option \<Rightarrow> nat option \<Rightarrow> bool \<Rightarrow> int \<Rightarrow> nat \<Rightarrow> int
     \<Rightarrow> MasterExecutionResult" where
  "failureResult s err lastErr attemptsMade withError totalMs attempt stampTime =
     \<lparr>success = False,
      resultSessionId = sessionId s,
      executionPlan = None,
      discoveryData = failedStage withError ''Failed to discover people'',
      enrichmentData = failedStage withError ''Failed to enrich profiles'',
      emailsGenerated = failedStage withError ''Failed to generate emails'',
      timing =
        \<lparr>timing_total = toFixed1_s totalMs, timing_discovery = ''N/A'',
         timing_enrichment = ''N/A'', timing_emailWriting = ''N/A''\<rparr>,
      attemptNumber = attempt,
      resultTimestamp = stampTime,
      error = Some err,
      lastError = lastErr,
      totalAttempts = attemptsMade,
      statusSummary = getSummary s\<rparr>"

text \<open>
  The \<^verbatim>\<open>catch\<close> of one pipeline attempt. \<open>None\<close> means: go on with the next attempt
  (after the 3 second sleep). On the last attempt \<^verbatim>\<open>failPhase('error', ...)\<close> is called;
  \<open>'error'\<close> is not a key of the phase map. When it returns, the failure result is
  returned.
\<close>

definition attemptFailed ::
  "world \<Rightarrow> nat \<Rightarrow> int \<Rightarrow> nat \<Rightarrow> js_error \<Rightarrow> MasterExecutionResult option io" where
  "attemptFailed w retryAttempts overallStartTime attempt e =
     (if attempt < retryAttempts
      then bnd (call w (\<lambda>st. updateInfo st ''error''
                             (''Attempt '' @ show_nat attempt @ '' failed: '' @ error_message e
                              @ ''. Retrying...'') JUndefined)) (\<lambda>_.
           ret None)
      else bnd (call w (\<lambda>st. failPhase (fst st) st ''error''
                             (''All attempts failed: '' @ error_message e)
                             (JObj [(''message'', JStr (error_message e))]))) (\<lambda>_.
           bnd (dateNow w) (\<lambda>t.
           (\<lambda>r. ret (Some (failureResult (sm r) ''All execution attempts failed''
                              (Some (error_message e)) (Some retryAttempts) True
                              (t - overallStartTime) attempt t)) r))))"

function executeLoop ::
  "world \<Rightarrow> string \<Rightarrow> nat \<Rightarrow> int \<Rightarrow> nat \<Rightarrow> MasterExecutionResult io" where
  "executeLoop w userQuery retryAttempts overallStartTime attempt r =
     (if attempt \<le> retryAttempts
      then (case try_catch
                   (bnd (pipeline w userQuery retryAttempts overallStartTime attempt)
                      (\<lambda>res. ret (Some res)))
                   (attemptFailed w retryAttempts overallStartTime attempt) r of
              (Inl e, r') \<Rightarrow> (Inl e, r')
            | (Inr (Some res), r') \<Rightarrow> (Inr res, r')
            | (Inr None, r') \<Rightarrow>
                executeLoop w userQuery retryAttempts overallStartTime (attempt + 1) r')
      else bnd (dateNow w) (\<lambda>t.
           (\<lambda>r0. ret (failureResult (sm r0) ''Unexpected execution flow'' None None False
                         (t - overallStartTime) retryAttempts t) r0)) r)"
  by pat_completeness auto
termination
  by (relation "measure (\<lambda>(w, userQuery, retryAttempts, overallStartTime, attempt, r).
        Suc retryAttempts - attempt)") auto

declare executeLoop.simps [simp del]

text \<open>\<^verbatim>\<open>executeQuery\<close> of an orchestrator whose \<^verbatim>\<open>retryAttempts\<close> is \<open>retryAttempts\<close>.\<close>

definition executeQuery :: "world \<Rightarrow> nat \<Rightarrow> string \<Rightarrow> MasterExecutionResult io" where
  "executeQuery w retryAttempts userQuery =
     bnd (call w (\<lambda>st. updateInfo st ''planning'' ''Understanding your request...'' JUndefined))
       (\<lambda>_.
     bnd (dateNow w) (\<lambda>overallStartTime.
     executeLoop w userQuery retryAttempts overallStartTime 1))"

text \<open>The class constant: \<^verbatim>\<open>private retryAttempts: number = 2\<close>.\<close>

definition orchestratorRetryAttempts :: nat where
  "orchestratorRetryAttempts = 2"

definition start_run :: "StatusManager \<Rightarrow> run" where
  "start_run s = \<lparr>sm = s, trace = [s]\<rparr>"



subsection \<open>Reasoning about runs\<close>

text \<open>The status of every phase record, by phase name.\<close>

definition statuses :: "StatusManager \<Rightarrow> (string \<times> phase_status) list" where
  "statuses s = map (\<lambda>kp. (fst kp, status (snd kp))) (phases s)"

lemma map_entry_keep:
  "(\<And>v. g (f v) = g v) \<Longrightarrow>
     map (\<lambda>kp. (fst kp, g (snd kp))) (AList.map_entry k f xs) = map (\<lambda>kp. (fst kp, g (snd kp))) xs"
  by (induction xs) auto

lemma map_entry_set:
  "(\<And>v. g (f v) = c) \<Longrightarrow>
     map (\<lambda>kp. (fst kp, g (snd kp))) (AList.map_entry k f xs)
       = AList.map_entry k (\<lambda>_. c) (map (\<lambda>kp. (fst kp, g (snd kp))) xs)"
  by (induction xs) auto

lemma statuses_addUpdate [simp]: "statuses (snd (addUpdate st ty ph msg d pr s)) = statuses s"
  by (simp add: statuses_def addUpdate_def Let_def map_entry_keep)

lemma errorListener_addUpdate [simp]:
  "errorListener (snd (addUpdate st ty ph msg d pr s)) = errorListener s"
  by (simp add: addUpdate_def Let_def)

lemma fst_addUpdate:
  "fst (addUpdate st ty ph msg d pr s) = (if ty = T_error \<and> \<not> errorListener s then Throws else Normal)"
  by (simp add: addUpdate_def Let_def)

lemma status_endPhase [simp]: "status (endPhase st now p) = st"
  by (simp add: endPhase_def Let_def split: option.split)

lemma statuses_startPhase [simp]:
  "statuses (snd (startPhase now st ph msg s)) = AList.map_entry ph (\<lambda>_. In_progress) (statuses s)"
  by (simp add: startPhase_def Let_def) (simp add: statuses_def map_entry_set)

lemma statuses_completePhase [simp]:
  "statuses (snd (completePhase now st ph msg d s)) = AList.map_entry ph (\<lambda>_. Completed) (statuses s)"
  by (simp add: completePhase_def Let_def) (simp add: statuses_def map_entry_set)

lemma statuses_failPhase [simp]:
  "statuses (snd (failPhase now st ph msg e s)) = AList.map_entry ph (\<lambda>_. Failed) (statuses s)"
  by (simp add: failPhase_def Let_def) (simp add: statuses_def map_entry_set)

lemma statuses_log [simp]:
  "statuses (snd (updateInfo st ph msg d s)) = statuses s"
  "statuses (snd (updateProgress st ph msg pr d s)) = statuses s"
  "statuses (snd (updateData st ph msg d s)) = statuses s"
  "statuses (snd (updateSuccess st ph msg d s)) = statuses s"
  by (simp_all add: updateInfo_def updateProgress_def updateData_def updateSuccess_def)

lemma errorListener_ops [simp]:
  "errorListener (snd (updateInfo st ph msg d s)) = errorListener s"
  "errorListener (snd (updateProgress st ph msg pr d s)) = errorListener s"
  "errorListener (snd (updateData st ph msg d s)) = errorListener s"
  "errorListener (snd (updateSuccess st ph msg d s)) = errorListener s"
  "errorListener (snd (startPhase now st ph msg s)) = errorListener s"
  "errorListener (snd (completePhase now st ph msg d s)) = errorListener s"
  "errorListener (snd (failPhase now st ph msg e s)) = errorListener s"
  by (simp_all add: updateInfo_def updateProgress_def updateData_def updateSuccess_def
      startPhase_def completePhase_def failPhase_def Let_def)

lemma fst_ops [simp]:
  "fst (updateInfo st ph msg d s) = Normal"
  "fst (updateProgress st ph msg pr d s) = Normal"
  "fst (updateData st ph msg d s) = Normal"
  "fst (updateSuccess st ph msg d s) = Normal"
  "fst (startPhase now st ph msg s) = Normal"
  "fst (completePhase now st ph msg d s) = Normal"
  "fst (failPhase now st ph msg e s) = (if errorListener s then Normal else Throws)"
  by (simp_all add: updateInfo_def updateProgress_def updateData_def updateSuccess_def
      startPhase_def completePhase_def failPhase_def Let_def fst_addUpdate)

lemma count_status_statuses:
  "count_status st s = length (filter (\<lambda>kv. snd kv = st) (statuses s))"
  by (simp add: count_status_def statuses_def filter_map comp_def)

lemma sm_call: "sm (snd (call w f r)) = snd (f (stampAt w r) (sm r))"
  by (simp add: call_def Let_def)

lemma trace_call: "trace (snd (call w f r)) = trace r @ [sm (snd (call w f r))]"
  by (simp add: call_def Let_def)

lemma fst_call:
  "fst (call w f r) = (case fst (f (stampAt w r) (sm r)) of Normal \<Rightarrow> Inr () | Throws \<Rightarrow> Inl UnhandledError)"
  by (simp add: call_def Let_def)

lemma bnd_Inr: "fst (m r) = Inr x \<Longrightarrow> bnd m g r = g x (snd (m r))"
  by (cases "m r") (simp add: bnd_def)

lemma bnd_Inl: "fst (m r) = Inl e \<Longrightarrow> bnd m g r = (Inl e, snd (m r))"
  by (cases "m r") (simp add: bnd_def)


lemma bnd_call:
  "bnd (call w f) g r =
     (case fst (f (stampAt w r) (sm r)) of
        Normal \<Rightarrow> g () (snd (call w f r))
      | Throws \<Rightarrow> (Inl UnhandledError, snd (call w f r)))"
  by (simp add: bnd_def call_def Let_def split: completion.splits)

lemma bnd_ret: "bnd (ret x) g r = g x r"
  by (simp add: bnd_def ret_def)

lemma bnd_throw: "bnd (throw e) g r = (Inl e, r)"
  by (simp add: bnd_def throw_def)

lemma bnd_lift: "bnd (lift v) g r = (case v of Inl e \<Rightarrow> (Inl e, r) | Inr x \<Rightarrow> g x r)"
  by (simp add: bnd_def lift_def split: sum.splits)

lemma bnd_of_outcome:
  "bnd (of_outcome v) g r = (case v of Returns x \<Rightarrow> g x r | Raises e \<Rightarrow> (Inl e, r))"
  by (simp add: of_outcome_def bnd_ret bnd_throw split: outcome.splits)

lemma bnd_dateNow: "bnd (dateNow w) g r = g (clock w (length (updates (sm r)))) r"
  by (simp add: bnd_def dateNow_def)

lemma set_trace_call: "set (trace (snd (call w f r))) = insert (sm (snd (call w f r))) (set (trace r))"
  by (simp add: trace_call)

lemmas exec_simps = bnd_call bnd_ret bnd_throw bnd_lift bnd_of_outcome bnd_dateNow sm_call
  set_trace_call try_catch_def ret_def throw_def lift_def

lemma planning_keeps:
  "statuses (sm (snd (generateSearchQueriesAndPlan w mc q r))) = statuses (sm r)
   \<and> errorListener (sm (snd (generateSearchQueriesAndPlan w mc q r))) = errorListener (sm r)
   \<and> set (trace r) \<subseteq> set (trace (snd (generateSearchQueriesAndPlan w mc q r)))"
proof (cases mc)
  case (Returns x)
  then show ?thesis
    by (cases "extractPlanFromAnalysis w x q")
      (auto simp: generateSearchQueriesAndPlan_def exec_simps)
next
  case (Raises e)
  then show ?thesis
    by (auto simp: generateSearchQueriesAndPlan_def exec_simps)
qed

lemma agent_call_keeps [simp]:
  "statuses (snd (agent_call u st s)) = statuses s"
  "errorListener (snd (agent_call u st s)) = errorListener s"
  by (cases u; simp)+

lemma replay_keeps:
  "statuses (sm (fold (\<lambda>u t. snd (call w (agent_call u) t)) us r)) = statuses (sm r)
   \<and> errorListener (sm (fold (\<lambda>u t. snd (call w (agent_call u) t)) us r)) = errorListener (sm r)
   \<and> set (trace r) \<subseteq> set (trace (fold (\<lambda>u t. snd (call w (agent_call u) t)) us r))"
proof (induction us arbitrary: r)
  case Nil
  show ?case by simp
next
  case (Cons u us)
  from Cons [of "snd (call w (agent_call u) r)"] show ?case
    by (auto simp: sm_call set_trace_call)
qed

lemma run_agent_fst:
  "fst (run_agent w a r) = (case returned a of Returns x \<Rightarrow> Inr x | Raises e \<Rightarrow> Inl e)"
  by (simp add: run_agent_def of_outcome_def ret_def throw_def split: outcome.splits)

lemma run_agent_keeps:
  "statuses (sm (snd (run_agent w a r))) = statuses (sm r)
   \<and> errorListener (sm (snd (run_agent w a r))) = errorListener (sm r)
   \<and> set (trace r) \<subseteq> set (trace (snd (run_agent w a r)))"
  using replay_keeps [of w "emitted a" r]
  by (simp add: run_agent_def of_outcome_def ret_def throw_def split: outcome.splits)


text \<open>The status lists that a listener has observed during a run.\<close>

definition seen :: "run \<Rightarrow> (string \<times> phase_status) list set" where
  "seen r = statuses ` set (trace r)"

lemma seen_call [simp]:
  "seen (snd (call w f r)) = insert (statuses (snd (f (stampAt w r) (sm r)))) (seen r)"
  by (simp add: seen_def set_trace_call sm_call)

lemma seen_planning: "x \<in> seen r \<Longrightarrow> x \<in> seen (snd (generateSearchQueriesAndPlan w mc q r))"
  using planning_keeps [of w mc q r] by (auto simp: seen_def)

lemma seen_run_agent: "x \<in> seen r \<Longrightarrow> x \<in> seen (snd (run_agent w a r))"
  using run_agent_keeps [of w a r] by (auto simp: seen_def)

lemma planning_simps [simp]:
  "statuses (sm (snd (generateSearchQueriesAndPlan w mc q r))) = statuses (sm r)"
  "errorListener (sm (snd (generateSearchQueriesAndPlan w mc q r))) = errorListener (sm r)"
  using planning_keeps [of w mc q r] by simp_all

lemma run_agent_simps [simp]:
  "statuses (sm (snd (run_agent w a r))) = statuses (sm r)"
  "errorListener (sm (snd (run_agent w a r))) = errorListener (sm r)"
  using run_agent_keeps [of w a r] by simp_all

lemma planning_returns:
  "\<exists>plan. fst (generateSearchQueriesAndPlan w modelCall userQuery r) = Inr plan"
  by (cases modelCall; cases "extractPlanFromAnalysis w (case modelCall of Returns x \<Rightarrow> x) userQuery")
     (auto simp: generateSearchQueriesAndPlan_def exec_simps)

lemma bnd_planning:
  "bnd (generateSearchQueriesAndPlan w mc q) g r =
     g (projr (fst (generateSearchQueriesAndPlan w mc q r)))
       (snd (generateSearchQueriesAndPlan w mc q r))"
proof -
  obtain plan where "fst (generateSearchQueriesAndPlan w mc q r) = Inr plan"
    using planning_returns by blast
  then show ?thesis by (simp add: bnd_Inr)
qed

lemma planning_fallback:
  "fst (generateSearchQueriesAndPlan w (Raises e) userQuery r) = Inr (createFallbackPlan userQuery)"
  by (simp add: generateSearchQueriesAndPlan_def exec_simps)

text \<open>
  C7. For every query, every environment and every state of the run, the planning step
  returns a plan and does not throw, whatever the model call does. When the model call
  fails it returns \<open>createFallbackPlan\<close> of the query, so two invocations with the same
  query under a failing model call, in any two environments and run states, return the
  same plan.
\<close>

theorem planning_never_fails_outward:
  "(\<exists>plan. fst (generateSearchQueriesAndPlan w modelCall userQuery r) = Inr plan)
   \<and> fst (generateSearchQueriesAndPlan w (Raises e) userQuery r)
       = Inr (createFallbackPlan userQuery)
   \<and> fst (generateSearchQueriesAndPlan w (Raises e) userQuery r)
       = fst (generateSearchQueriesAndPlan w' (Raises e') userQuery r')"
  by (simp add: planning_returns planning_fallback)

lemma bnd_run_agent:
  "bnd (run_agent w a) g r =
     (case returned a of
        Returns x \<Rightarrow> g x (snd (run_agent w a r))
      | Raises e \<Rightarrow> (Inl e, snd (run_agent w a r)))"
  by (cases "returned a") (simp_all add: bnd_Inr bnd_Inl run_agent_fst)

lemma bnd_if:
  "bnd (if c then m1 else m2) g r = (if c then bnd m1 g r else bnd m2 g r)"
  by simp

lemma set_trace_planning:
  "x \<in> set (trace r) \<Longrightarrow> x \<in> set (trace (snd (generateSearchQueriesAndPlan w mc q r)))"
  using planning_keeps [of w mc q r] by auto

lemma set_trace_run_agent:
  "x \<in> set (trace r) \<Longrightarrow> x \<in> set (trace (snd (run_agent w a r)))"
  using run_agent_keeps [of w a r] by auto

lemma pipeline_discovery_throws:
  assumes "returned (discoveryRun (attemptEnv w a)) = Raises e"
  shows "fst (pipeline w q ra t0 a r) = Inl e"
    and "statuses (sm (snd (pipeline w q ra t0 a r)))
          = AList.map_entry ''discovery'' (\<lambda>_. In_progress)
              (AList.map_entry ''planning'' (\<lambda>_. Completed)
                (AList.map_entry ''planning'' (\<lambda>_. In_progress) (statuses (sm r))))"
    and "errorListener (sm (snd (pipeline w q ra t0 a r))) = errorListener (sm r)"
    and "AList.map_entry ''planning'' (\<lambda>_. In_progress) (statuses (sm r))
          \<in> seen (snd (pipeline w q ra t0 a r))"
    and "x \<in> set (trace r) \<Longrightarrow> x \<in> set (trace (snd (pipeline w q ra t0 a r)))"
  using assms
  by (auto simp: pipeline_def bnd_if bnd_planning bnd_run_agent exec_simps
      intro!: seen_planning seen_run_agent set_trace_planning set_trace_run_agent)


lemma attemptFailed_trace:
  "x \<in> set (trace r) \<Longrightarrow> x \<in> set (trace (snd (attemptFailed w ra t0 a e r)))"
  by (auto simp: attemptFailed_def exec_simps bnd_dateNow split: completion.splits)

lemma attemptFailed_retry:
  assumes "a < ra"
  shows "fst (attemptFailed w ra t0 a e r) = Inr None"
    and "statuses (sm (snd (attemptFailed w ra t0 a e r))) = statuses (sm r)"
    and "errorListener (sm (snd (attemptFailed w ra t0 a e r))) = errorListener (sm r)"
  using assms by (simp_all add: attemptFailed_def exec_simps)

lemma attemptFailed_final:
  assumes "\<not> a < ra" and "errorListener (sm r)"
  shows "\<exists>res. fst (attemptFailed w ra t0 a e r) = Inr (Some res) \<and> \<not> success res
           \<and> statusSummary res = getSummary (sm (snd (attemptFailed w ra t0 a e r)))"
    and "statuses (sm (snd (attemptFailed w ra t0 a e r)))
          = AList.map_entry ''error'' (\<lambda>_. Failed) (statuses (sm r))"
  using assms by (simp_all add: attemptFailed_def exec_simps failureResult_def)

lemma attemptFailed_final_throws:
  assumes "\<not> a < ra" and "\<not> errorListener (sm r)"
  shows "fst (attemptFailed w ra t0 a e r) = Inl UnhandledError"
  using assms by (simp add: attemptFailed_def exec_simps)

text \<open>The run state after attempt \<open>a\<close> has failed with \<open>e\<close> and its catch block has run.\<close>

definition afterAttempt :: "world \<Rightarrow> string \<Rightarrow> nat \<Rightarrow> int \<Rightarrow> nat \<Rightarrow> js_error \<Rightarrow> run \<Rightarrow> run" where
  "afterAttempt w q ra t0 a e r = snd (attemptFailed w ra t0 a e (snd (pipeline w q ra t0 a r)))"

definition queryStart :: "world \<Rightarrow> run \<Rightarrow> run" where
  "queryStart w r =
     snd (call w (\<lambda>st. updateInfo st ''planning'' ''Understanding your request...'' JUndefined) r)"

lemma attempt_discovery_throws:
  assumes "returned (discoveryRun (attemptEnv w a)) = Raises e"
  shows "try_catch (bnd (pipeline w q ra t0 a) (\<lambda>res. ret (Some res)))
           (attemptFailed w ra t0 a) r
         = attemptFailed w ra t0 a e (snd (pipeline w q ra t0 a r))"
  using pipeline_discovery_throws(1) [OF assms, of q ra t0 r]
  by (cases "pipeline w q ra t0 a r") (simp add: try_catch_def bnd_def)

lemma loop_retry:
  assumes "returned (discoveryRun (attemptEnv w a)) = Raises e" and "a < ra"
  shows "executeLoop w q ra t0 a r = executeLoop w q ra t0 (a + 1) (afterAttempt w q ra t0 a e r)"
proof -
  have "fst (attemptFailed w ra t0 a e (snd (pipeline w q ra t0 a r))) = Inr None"
    using assms(2) by (rule attemptFailed_retry(1))
  then show ?thesis
    using assms(2) unfolding afterAttempt_def
    by (subst executeLoop.simps)
       (cases "attemptFailed w ra t0 a e (snd (pipeline w q ra t0 a r))",
        simp add: attempt_discovery_throws [OF assms(1)])
qed

lemma loop_last:
  assumes "returned (discoveryRun (attemptEnv w ra)) = Raises e"
  shows "snd (executeLoop w q ra t0 ra r) = afterAttempt w q ra t0 ra e r"
    and "fst (executeLoop w q ra t0 ra r)
         = (case fst (attemptFailed w ra t0 ra e (snd (pipeline w q ra t0 ra r))) of
              Inl e' \<Rightarrow> Inl e' | Inr res \<Rightarrow> Inr (the res))"
proof -
  have "\<exists>res. fst (attemptFailed w ra t0 ra e (snd (pipeline w q ra t0 ra r))) = Inr (Some res)
        \<or> fst (attemptFailed w ra t0 ra e (snd (pipeline w q ra t0 ra r))) = Inl UnhandledError"
    using attemptFailed_final(1) [of ra ra "snd (pipeline w q ra t0 ra r)" w t0 e]
      attemptFailed_final_throws [of ra ra "snd (pipeline w q ra t0 ra r)" w t0 e]
    by (cases "errorListener (sm (snd (pipeline w q ra t0 ra r)))") auto
  then have both: "snd (executeLoop w q ra t0 ra r) = afterAttempt w q ra t0 ra e r
      \<and> fst (executeLoop w q ra t0 ra r)
         = (case fst (attemptFailed w ra t0 ra e (snd (pipeline w q ra t0 ra r))) of
              Inl e' \<Rightarrow> Inl e' | Inr res \<Rightarrow> Inr (the res))"
    unfolding afterAttempt_def
    by (subst (1 2) executeLoop.simps)
       (cases "attemptFailed w ra t0 ra e (snd (pipeline w q ra t0 ra r))",
        auto simp add: attempt_discovery_throws [OF assms])
  from both show "snd (executeLoop w q ra t0 ra r) = afterAttempt w q ra t0 ra e r" ..
  from both show "fst (executeLoop w q ra t0 ra r)
         = (case fst (attemptFailed w ra t0 ra e (snd (pipeline w q ra t0 ra r))) of
              Inl e' \<Rightarrow> Inl e' | Inr res \<Rightarrow> Inr (the res))" ..
qed

lemma afterAttempt_retry:
  assumes "returned (discoveryRun (attemptEnv w a)) = Raises e" and "a < ra"
  shows "statuses (sm (afterAttempt w q ra t0 a e r))
          = AList.map_entry ''discovery'' (\<lambda>_. In_progress)
              (AList.map_entry ''planning'' (\<lambda>_. Completed)
                (AList.map_entry ''planning'' (\<lambda>_. In_progress) (statuses (sm r))))"
    and "errorListener (sm (afterAttempt w q ra t0 a e r)) = errorListener (sm r)"
  unfolding afterAttempt_def
  by (simp_all only: attemptFailed_retry(2,3) [OF assms(2)]
      pipeline_discovery_throws(2,3) [OF assms(1)])

lemma afterAttempt_seen:
  assumes "returned (discoveryRun (attemptEnv w a)) = Raises e"
  shows "\<exists>s \<in> set (trace (afterAttempt w q ra t0 a e r)).
           statuses s = AList.map_entry ''planning'' (\<lambda>_. In_progress) (statuses (sm r))"
proof -
  from pipeline_discovery_throws(4) [OF assms, of r q ra t0]
  obtain s where "s \<in> set (trace (snd (pipeline w q ra t0 a r)))"
    and "statuses s = AList.map_entry ''planning'' (\<lambda>_. In_progress) (statuses (sm r))"
    unfolding seen_def by force
  then show ?thesis
    unfolding afterAttempt_def using attemptFailed_trace by blast
qed

lemma executeQuery_unfold:
  "executeQuery w ra q r =
     executeLoop w q ra (clock w (length (updates (sm (queryStart w r))))) 1 (queryStart w r)"
  by (simp add: executeQuery_def queryStart_def bnd_call bnd_dateNow)

lemma queryStart_keeps [simp]:
  "statuses (sm (queryStart w r)) = statuses (sm r)"
  "errorListener (sm (queryStart w r)) = errorListener (sm r)"
  by (simp_all add: queryStart_def sm_call)


subsection \<open>A run in which discovery is unavailable\<close>

text \<open>
  The search tool is not offered, so \<^verbatim>\<open>findBasicPeople\<close> throws
  \<^verbatim>\<open>Search engine tool not available\<close> before its retry loop, in every pipeline
  attempt; the planning model call fails too.
\<close>

definition unavailableStage :: stage_run where
  "unavailableStage =
     \<lparr>emitted = [], returned = Raises (Error ''Search engine tool not available'')\<rparr>"

definition searchUnavailable :: world where
  "searchUnavailable =
     \<lparr>clock = (\<lambda>k. 1000 + int k),
      random = (\<lambda>k. 0),
      JSON_parse = (\<lambda>s. None),
      String_of = (\<lambda>j. []),
      extractPlanFromAnalysis = (\<lambda>a q. Inl SyntaxError),
      attemptEnv =
        (\<lambda>n. \<lparr>planningCall = Raises (Error ''offline''),
              discoveryRun = unavailableStage,
              enrichmentRun = unavailableStage,
              emailRun = unavailableStage\<rparr>)\<rparr>"

lemma statuses_new:
  "statuses (new_StatusManager sid g)
     = [(''planning'', Pending), (''discovery'', Pending), (''enrichment'', Pending),
        (''email_writing'', Pending)]"
  by (simp add: statuses_def new_StatusManager_def initializePhases_def phaseNames_def
      pendingPhase_def)

lemma statuses_start_run:
  "phases s0 = phases (new_StatusManager sid g) \<Longrightarrow>
     statuses (sm (start_run s0))
       = [(''planning'', Pending), (''discovery'', Pending), (''enrichment'', Pending),
          (''email_writing'', Pending)]"
  using statuses_new [of sid g] by (simp add: start_run_def statuses_def)

lemma map_status_phaseRecords: "map status (phaseRecords s) = map snd (statuses s)"
  by (simp add: phaseRecords_def statuses_def comp_def)

text \<open>Both pipeline attempts fail in discovery: where the run stands after the first.\<close>

lemma first_attempt_fails:
  assumes d1: "returned (discoveryRun (attemptEnv w 1)) = Raises e1"
      and init: "phases s0 = phases (new_StatusManager sid g)"
  shows "executeQuery w 2 q (start_run s0)
         = executeLoop w q 2 (clock w (length (updates (sm (queryStart w (start_run s0)))))) 2
             (afterAttempt w q 2 (clock w (length (updates (sm (queryStart w (start_run s0))))))
                1 e1 (queryStart w (start_run s0)))"
    and "statuses (sm (afterAttempt w q 2 t0 1 e1 (queryStart w (start_run s0))))
         = [(''planning'', Completed), (''discovery'', In_progress), (''enrichment'', Pending),
            (''email_writing'', Pending)]"
    and "errorListener (sm (afterAttempt w q 2 t0 1 e1 (queryStart w (start_run s0))))
         = errorListener s0"
proof -
  have one_two: "(1::nat) < 2" by simp
  have two: "(1::nat) + 1 = 2" by simp
  show "executeQuery w 2 q (start_run s0)
         = executeLoop w q 2 (clock w (length (updates (sm (queryStart w (start_run s0)))))) 2
             (afterAttempt w q 2 (clock w (length (updates (sm (queryStart w (start_run s0))))))
                1 e1 (queryStart w (start_run s0)))"
    using loop_retry [OF d1 one_two] by (simp only: executeQuery_unfold two)
  show "statuses (sm (afterAttempt w q 2 t0 1 e1 (queryStart w (start_run s0))))
         = [(''planning'', Completed), (''discovery'', In_progress), (''enrichment'', Pending),
            (''email_writing'', Pending)]"
    using afterAttempt_retry(1) [OF d1 one_two, of q t0 "queryStart w (start_run s0)"]
      statuses_start_run [OF init]
    by simp
  show "errorListener (sm (afterAttempt w q 2 t0 1 e1 (queryStart w (start_run s0))))
         = errorListener s0"
    using afterAttempt_retry(2) [OF d1 one_two, of q t0 "queryStart w (start_run s0)"]
    by (simp add: start_run_def)
qed

subsection \<open>Phase records when attempts fail\<close>

text \<open>
  C1 on the code. Take any run of \<^verbatim>\<open>executeQuery\<close> (two pipeline attempts) on a
  StatusManager with freshly initialised phase records in which the discovery agent
  throws in both attempts, for instance because the search tool is not offered. The
  first attempt leaves \<open>discovery\<close> in progress, the retry calls
  \<^verbatim>\<open>startPhase('planning', ...)\<close>, and a listener then observes a state in which two
  phase records are in progress at once.
\<close>

theorem retry_starts_planning_while_discovery_in_progress:
  assumes d1: "returned (discoveryRun (attemptEnv w 1)) = Raises e1"
      and d2: "returned (discoveryRun (attemptEnv w 2)) = Raises e2"
      and init: "phases s0 = phases (new_StatusManager sid g)"
  shows "list_ex (\<lambda>s. count_status In_progress s = 2)
           (trace (snd (executeQuery w orchestratorRetryAttempts q (start_run s0))))"
proof -
  let ?t0 = "clock w (length (updates (sm (queryStart w (start_run s0)))))"
  let ?rF1 = "afterAttempt w q 2 ?t0 1 e1 (queryStart w (start_run s0))"
  have fin: "snd (executeQuery w orchestratorRetryAttempts q (start_run s0))
             = afterAttempt w q 2 ?t0 2 e2 ?rF1"
    by (simp only: orchestratorRetryAttempts_def first_attempt_fails(1) [OF d1 init]
        loop_last(1) [OF d2])
  from afterAttempt_seen [OF d2, of q 2 ?t0 ?rF1]
  obtain s where s_in: "s \<in> set (trace (afterAttempt w q 2 ?t0 2 e2 ?rF1))"
    and s_st: "statuses s = AList.map_entry ''planning'' (\<lambda>_. In_progress) (statuses (sm ?rF1))"
    by blast
  have "statuses s = [(''planning'', In_progress), (''discovery'', In_progress),
                      (''enrichment'', Pending), (''email_writing'', Pending)]"
    using s_st first_attempt_fails(2) [OF d1 init, of q ?t0] by simp
  then have "count_status In_progress s = 2"
    by (simp add: count_status_statuses)
  with s_in show ?thesis
    unfolding fin list_ex_iff by blast
qed

text \<open>
  The same at a concrete run: \<open>searchUnavailable\<close>, a fresh StatusManager.
\<close>

theorem retry_starts_planning_while_discovery_in_progress_witness:
  "returned (discoveryRun (attemptEnv searchUnavailable 1))
     = Raises (Error ''Search engine tool not available'')
   \<and> returned (discoveryRun (attemptEnv searchUnavailable 2))
     = Raises (Error ''Search engine tool not available'')
   \<and> list_ex (\<lambda>s. count_status In_progress s = 2)
       (trace (snd (executeQuery searchUnavailable orchestratorRetryAttempts ''find founders''
                      (start_run (new_StatusManager (Some ''s1'') (0, []))))))"
proof -
  have d: "returned (discoveryRun (attemptEnv searchUnavailable n))
             = Raises (Error ''Search engine tool not available'')" for n
    by (simp add: searchUnavailable_def unavailableStage_def)
  from d retry_starts_planning_while_discovery_in_progress [OF d d refl]
  show ?thesis by blast
qed

text \<open>
  C2 on the code. In the same runs, on a StatusManager that has an \<^verbatim>\<open>'error'\<close>
  listener, \<^verbatim>\<open>executeQuery\<close> returns its failure result after the second attempt. The
  catch block has called \<^verbatim>\<open>failPhase('error', ...)\<close>, and \<open>'error'\<close> is not a key of the
  phase map: no phase record is failed, \<open>planning\<close> is completed, \<open>discovery\<close> is still
  in progress, and the summary inside the result says \<open>in_progress\<close>.
\<close>

theorem exhausted_run_leaves_discovery_in_progress:
  assumes d1: "returned (discoveryRun (attemptEnv w 1)) = Raises e1"
      and d2: "returned (discoveryRun (attemptEnv w 2)) = Raises e2"
      and init: "phases s0 = phases (new_StatusManager sid g)"
      and listener: "errorListener s0"
  shows "(\<exists>res. fst (executeQuery w orchestratorRetryAttempts q (start_run s0)) = Inr res
            \<and> \<not> success res \<and> overallStatus (statusSummary res) = In_progress)
         \<and> map status (phaseRecords (sm (snd (executeQuery w orchestratorRetryAttempts q
                                                (start_run s0)))))
             = [Completed, In_progress, Pending, Pending]"
proof -
  let ?t0 = "clock w (length (updates (sm (queryStart w (start_run s0)))))"
  let ?rF1 = "afterAttempt w q 2 ?t0 1 e1 (queryStart w (start_run s0))"
  let ?rP2 = "snd (pipeline w q 2 ?t0 2 ?rF1)"
  let ?final = "afterAttempt w q 2 ?t0 2 e2 ?rF1"
  have run: "executeQuery w orchestratorRetryAttempts q (start_run s0)
             = executeLoop w q 2 ?t0 2 ?rF1"
    by (simp only: orchestratorRetryAttempts_def first_attempt_fails(1) [OF d1 init])
  have fin: "snd (executeQuery w orchestratorRetryAttempts q (start_run s0)) = ?final"
    by (simp only: run loop_last(1) [OF d2])
  have el: "errorListener (sm ?rP2)"
    using pipeline_discovery_throws(3) [OF d2, of q 2 ?t0 ?rF1]
      first_attempt_fails(3) [OF d1 init, of q ?t0] listener
    by simp
  have stP2: "statuses (sm ?rP2)
      = [(''planning'', Completed), (''discovery'', In_progress), (''enrichment'', Pending),
         (''email_writing'', Pending)]"
    using pipeline_discovery_throws(2) [OF d2, of q 2 ?t0 ?rF1]
      first_attempt_fails(2) [OF d1 init, of q ?t0]
    by simp
  have last: "\<not> (2::nat) < 2" by simp
  have fe: "?final = snd (attemptFailed w 2 ?t0 2 e2 ?rP2)"
    by (rule afterAttempt_def)
  have "statuses (sm (snd (attemptFailed w 2 ?t0 2 e2 ?rP2)))
      = [(''planning'', Completed), (''discovery'', In_progress), (''enrichment'', Pending),
         (''email_writing'', Pending)]"
    using attemptFailed_final(2) [OF last el, of w ?t0 e2] stP2 by simp
  then have st: "statuses (sm ?final)
      = [(''planning'', Completed), (''discovery'', In_progress), (''enrichment'', Pending),
         (''email_writing'', Pending)]"
    by (simp only: fe)
  from attemptFailed_final(1) [OF last el, of w ?t0 e2]
  obtain res where res: "fst (attemptFailed w 2 ?t0 2 e2 ?rP2) = Inr (Some res)"
    and nsucc: "\<not> success res"
    and summ': "statusSummary res = getSummary (sm (snd (attemptFailed w 2 ?t0 2 e2 ?rP2)))"
    by blast
  from summ' have summ: "statusSummary res = getSummary (sm ?final)"
    by (simp only: fe)
  have ret: "fst (executeQuery w orchestratorRetryAttempts q (start_run s0)) = Inr res"
    using loop_last(2) [OF d2, of q ?t0 ?rF1] res by (simp add: run)
  have recs: "map status (phaseRecords (sm ?final)) = [Completed, In_progress, Pending, Pending]"
    using st by (simp add: map_status_phaseRecords)
  have len: "length (phases (sm ?final)) = 4"
    using arg_cong [OF st, of length] by (simp add: statuses_def)
  have "overallStatus (getSummary (sm ?final)) = In_progress"
    using st len by (simp add: getSummary_def Let_def count_status_statuses)
  with ret nsucc summ recs fin show ?thesis by simp
qed

theorem exhausted_run_leaves_discovery_in_progress_witness:
  "returned (discoveryRun (attemptEnv searchUnavailable 1))
     = Raises (Error ''Search engine tool not available'')
   \<and> returned (discoveryRun (attemptEnv searchUnavailable 2))
     = Raises (Error ''Search engine tool not available'')
   \<and> errorListener (on_error (new_StatusManager (Some ''s1'') (0, [])))
   \<and> (\<exists>res. fst (executeQuery searchUnavailable orchestratorRetryAttempts ''find founders''
                     (start_run (on_error (new_StatusManager (Some ''s1'') (0, []))))) = Inr res
          \<and> \<not> success res \<and> overallStatus (statusSummary res) = In_progress)
   \<and> map status
       (phaseRecords
          (sm (snd (executeQuery searchUnavailable orchestratorRetryAttempts ''find founders''
                      (start_run (on_error (new_StatusManager (Some ''s1'') (0, []))))))))
     = [Completed, In_progress, Pending, Pending]"
proof -
  have d: "returned (discoveryRun (attemptEnv searchUnavailable n))
             = Raises (Error ''Search engine tool not available'')" for n
    by (simp add: searchUnavailable_def unavailableStage_def)
  have p: "phases (on_error (new_StatusManager (Some ''s1'') (0, []))) = phases (new_StatusManager (Some ''s1'') (0, []))"
    by (simp add: on_error_def)
  have l: "errorListener (on_error (new_StatusManager (Some ''s1'') (0, [])))"
    by (simp add: on_error_def)
  from d l exhausted_run_leaves_discovery_in_progress [OF d d p l]
  show ?thesis by blast
qed

text \<open>
  Without an \<^verbatim>\<open>'error'\<close> listener, which is how the API route sets the StatusManager
  up, the last \<^verbatim>\<open>failPhase\<close> throws and \<^verbatim>\<open>executeQuery\<close> rejects instead of returning.
\<close>

lemma exhausted_run_throws_without_listener:
  assumes d1: "returned (discoveryRun (attemptEnv w 1)) = Raises e1"
      and d2: "returned (discoveryRun (attemptEnv w 2)) = Raises e2"
      and init: "phases s0 = phases (new_StatusManager sid g)"
      and listener: "\<not> errorListener s0"
  shows "fst (executeQuery w orchestratorRetryAttempts q (start_run s0)) = Inl UnhandledError"
proof -
  let ?t0 = "clock w (length (updates (sm (queryStart w (start_run s0)))))"
  let ?rF1 = "afterAttempt w q 2 ?t0 1 e1 (queryStart w (start_run s0))"
  let ?rP2 = "snd (pipeline w q 2 ?t0 2 ?rF1)"
  have run: "executeQuery w orchestratorRetryAttempts q (start_run s0)
             = executeLoop w q 2 ?t0 2 ?rF1"
    by (simp only: orchestratorRetryAttempts_def first_attempt_fails(1) [OF d1 init])
  have el: "\<not> errorListener (sm ?rP2)"
    using pipeline_discovery_throws(3) [OF d2, of q 2 ?t0 ?rF1]
      first_attempt_fails(3) [OF d1 init, of q ?t0] listener
    by simp
  have last: "\<not> (2::nat) < 2" by simp
  have "fst (attemptFailed w 2 ?t0 2 e2 ?rP2) = Inl UnhandledError"
    using last el by (rule attemptFailed_final_throws)
  then show ?thesis
    using loop_last(2) [OF d2, of q ?t0 ?rF1] by (simp add: run)
qed

section \<open>Stage agents\<close>

text \<open>
  A string the source builds either literally or as \<^verbatim>\<open>JSON.stringify(v)\<close>; the second
  form keeps the value, so that its fields can be read back.
\<close>

datatype js_text = Raw string | Stringified json

text \<open>The \<open>status\<close> field of a stringified payload.\<close>

definition payload_status :: "js_text \<Rightarrow> json" where
  "payload_status t = (case t of Stringified j \<Rightarrow> opt_prop j ''status'' | Raw s \<Rightarrow> JUndefined)"

text \<open>\<^verbatim>\<open>`${error}`\<close>\<close>

fun error_string :: "js_error \<Rightarrow> string" where
  "error_string (Error m) = ''Error: '' @ m"
| "error_string TypeError = ''TypeError''"
| "error_string SyntaxError = ''SyntaxError''"
| "error_string UnhandledError = ''Error: Unhandled error.''"

subsection \<open>The retry loop of a stage\<close>

text \<open>
  How one pass through the \<^verbatim>\<open>try\<close> block of a stage's \<^verbatim>\<open>while\<close> loop ends: it returns
  the content from the function, falls through to \<^verbatim>\<open>attempt++\<close>, or throws into the
  \<^verbatim>\<open>catch\<close>.
\<close>

datatype attempt_result = Accept string | Retry | Caught js_error

text \<open>
  The three agents share the loop:
  \<^verbatim>\<open>
  let attempt = 0;
  while (attempt < this.retryAttempts) {
    try { ... return result; ... attempt++; }
    catch (error) {
      attempt++;
      if (attempt >= this.retryAttempts) return JSON.stringify(errorResponse);
      await sleep;
    }
  }
  return JSON.stringify(failedResponse);
  \<close>
  \<open>body attempt\<close> is the pass made when the counter is \<open>attempt\<close>; every pass makes the
  stage's model call. The result is paired with the number of passes made.
\<close>

function retryLoop ::
  "nat \<Rightarrow> (nat \<Rightarrow> attempt_result) \<Rightarrow> (js_error \<Rightarrow> json) \<Rightarrow> json \<Rightarrow> nat \<Rightarrow> js_text \<times> nat" where
  "retryLoop retryAttempts body errorResponse failedResponse attempt =
     (if attempt < retryAttempts
      then (case body attempt of
              Accept result \<Rightarrow> (Raw result, attempt + 1)
            | Retry \<Rightarrow> retryLoop retryAttempts body errorResponse failedResponse (attempt + 1)
            | Caught e \<Rightarrow>
                if attempt + 1 \<ge> retryAttempts
                then (Stringified (errorResponse e), attempt + 1)
                else retryLoop retryAttempts body errorResponse failedResponse (attempt + 1))
      else (Stringified failedResponse, attempt))"
  by pat_completeness auto
termination
  by (relation "measure (\<lambda>(retryAttempts, body, errorResponse, failedResponse, attempt).
        retryAttempts - attempt)") auto

declare retryLoop.simps [simp del]

text \<open>\<^verbatim>\<open>private retryAttempts: number = 2\<close> in each of the three agents.\<close>

definition agentRetryAttempts :: nat where
  "agentRetryAttempts = 2"

definition nullish :: "json \<Rightarrow> bool" where
  "nullish v = (v = JNull \<or> v = JUndefined)"

subsection \<open>Discovery (src/lib/agent/discovery-agent.ts)\<close>

record tool_call =
  call_id :: string
  function_name :: string
  arguments :: string

record assistant_message =
  content :: "string option"
  tool_calls :: "tool_call list"

text \<open>A chat completion: its \<^verbatim>\<open>choices\<close>, each holding a message.\<close>

record chat_response =
  choices :: "assistant_message list"

datatype chat_message =
    UserMessage string
  | AssistantMessage "string option" "tool_call list"
  | ToolMessage string js_text

text \<open>
  The follow-up prompt. The JSON format instructions that follow its first sentence in
  the source are left out.
\<close>

definition compilePrompt :: "nat \<Rightarrow> string" where
  "compilePrompt maxPeople =
     ''Now compile all the search results and extract the best '' @ show_nat maxPeople
     @ '' people.''"

text \<open>
  The outside of \<^verbatim>\<open>handleSearchAndReturn\<close>: \<^verbatim>\<open>JSON.parse\<close>, the search tool (what the
  i-th call of the batch does with its arguments) and the follow-up chat completion.
\<close>

record search_env =
  parseArguments :: "string \<Rightarrow> json option"
  callTool :: "nat \<Rightarrow> json \<Rightarrow> json outcome"
  compileCall :: "chat_message list \<Rightarrow> chat_response outcome"

text \<open>
  One element of \<^verbatim>\<open>toolPromises\<close>, for the call at index \<open>fst ic\<close>. The arguments are
  parsed and \<^verbatim>\<open>args.query\<close> is read before the \<^verbatim>\<open>try\<close> (\<open>parseCall\<close>); only the tool
  call itself is inside it (\<open>toolMessage\<close>). The result is the arguments the tool was
  called with and the tool message.
\<close>

definition parseCall :: "search_env \<Rightarrow> tool_call \<Rightarrow> js_error + json" where
  "parseCall env c =
     (case parseArguments env (arguments c) of
        None \<Rightarrow> Inl SyntaxError
      | Some args \<Rightarrow> sbind (get_prop args ''query'') (\<lambda>query. Inr args))"

definition toolMessage :: "search_env \<Rightarrow> nat \<times> tool_call \<Rightarrow> json \<Rightarrow> chat_message" where
  "toolMessage env ic args =
     ToolMessage (call_id (snd ic))
       (case callTool env (fst ic) args of
          Returns result \<Rightarrow> Stringified result
        | Raises e \<Rightarrow> Raw (''Search Error: '' @ error_message e))"

definition searchCall :: "search_env \<Rightarrow> nat \<times> tool_call \<Rightarrow> js_error + json \<times> chat_message" where
  "searchCall env ic =
     sbind (parseCall env (snd ic)) (\<lambda>args. Inr (args, toolMessage env ic args))"

text \<open>
  What a call of \<^verbatim>\<open>handleSearchAndReturn\<close> did: the conversation as it left it, the
  arguments of the tool calls it dispatched, the conversations it sent for compilation,
  and its result.
\<close>

record search_run =
  conversation :: "chat_message list"
  dispatched :: "json list"
  compileRequests :: "chat_message list list"
  searchResult :: "js_error + string"

definition rights :: "('e + 'a) list \<Rightarrow> 'a list" where
  "rights xs = List.map_filter (\<lambda>x. case x of Inl e \<Rightarrow> None | Inr y \<Rightarrow> Some y) xs"

definition first_content :: "chat_response \<Rightarrow> string" where
  "first_content response =
     (case choices response of
        [] \<Rightarrow> []
      | m # rest \<Rightarrow> (case content m of None \<Rightarrow> [] | Some c \<Rightarrow> c))"

definition handleSearchAndReturn ::
  "search_env \<Rightarrow> nat \<Rightarrow> chat_message list \<Rightarrow> chat_response \<Rightarrow> search_run" where
  "handleSearchAndReturn env maxPeople messages response =
     (case choices response of
        [] \<Rightarrow>
          \<lparr>conversation = messages, dispatched = [], compileRequests = [],
           searchResult = Inl (Error ''No assistant message received'')\<rparr>
      | assistantMessage # rest \<Rightarrow>
          (let messages1 =
                 messages @ [AssistantMessage (content assistantMessage) (tool_calls assistantMessage)]
           in if tool_calls assistantMessage \<noteq> []
              then (let toolPromises =
                          map (searchCall env) (enumerate 0 (tool_calls assistantMessage))
                    in case collect toolPromises of
                         Inl e \<Rightarrow>
                           \<lparr>conversation = messages1,
                            dispatched = map fst (rights toolPromises),
                            compileRequests = [],
                            searchResult = Inl e\<rparr>
                       | Inr toolResults \<Rightarrow>
                           (let messages2 =
                                  messages1 @ map snd toolResults
                                  @ [UserMessage (compilePrompt maxPeople)]
                            in \<lparr>conversation = messages2,
                                dispatched = map fst toolResults,
                                compileRequests = [messages2],
                                searchResult =
                                  (case compileCall env messages2 of
                                     Raises e \<Rightarrow> Inl e
                                   | Returns finalResponse \<Rightarrow> Inr (first_content finalResponse))\<rparr>))
              else \<lparr>conversation = messages1, dispatched = [], compileRequests = [],
                    searchResult =
                      Inr (case content assistantMessage of None \<Rightarrow> [] | Some c \<Rightarrow> c)\<rparr>))"

text \<open>
  One pass of the discovery loop: the first chat completion, \<^verbatim>\<open>handleSearchAndReturn\<close>,
  and, for a result of more than 100 characters, the logging of the people cards
  scavenged from it. \<open>logThrows result\<close> says whether that logging throws (reading
  \<^verbatim>\<open>person.summary\<close> of a null card does).
\<close>

record discovery_turn =
  firstCall :: "chat_response outcome"
  searchEnv :: search_env

definition discoveryAttempt ::
  "(string \<Rightarrow> bool) \<Rightarrow> nat \<Rightarrow> string \<Rightarrow> discovery_turn \<Rightarrow> attempt_result" where
  "discoveryAttempt logThrows maxPeople prompt turn =
     (case firstCall turn of
        Raises e \<Rightarrow> Caught e
      | Returns response \<Rightarrow>
          (case searchResult
                  (handleSearchAndReturn (searchEnv turn) maxPeople [UserMessage prompt] response) of
             Inl e \<Rightarrow> Caught e
           | Inr result \<Rightarrow>
               if 100 < length result
               then (if logThrows result then Caught TypeError else Accept result)
               else Retry))"

definition discoveryErrorResponse :: "string list \<Rightarrow> nat \<Rightarrow> js_error \<Rightarrow> json" where
  "discoveryErrorResponse queries retryAttempts e =
     JObj [(''people'', JArr []),
           (''searchQueries'', JArr (map JStr queries)),
           (''totalSearches'', JNum (of_nat (length queries))),
           (''status'', JStr ''failed''),
           (''error'', JStr (''Unable to find people data after '' @ show_nat retryAttempts
                             @ '' attempts. Error: '' @ error_string e))]"

definition discoveryFailedResponse :: "string list \<Rightarrow> json" where
  "discoveryFailedResponse queries =
     JObj [(''people'', JArr []),
           (''searchQueries'', JArr (map JStr queries)),
           (''totalSearches'', JNum (of_nat (length queries))),
           (''status'', JStr ''failed''),
           (''error'', JStr ''No attempts succeeded'')]"

text \<open>
  \<^verbatim>\<open>findBasicPeople\<close>. Before the loop it lists the tools and throws when that fails or
  when no \<^verbatim>\<open>search_engine\<close> tool is offered.
\<close>

definition findBasicPeople ::
  "(string \<Rightarrow> bool) \<Rightarrow> string list outcome \<Rightarrow> nat \<Rightarrow> string \<Rightarrow> (nat \<Rightarrow> discovery_turn)
     \<Rightarrow> nat \<Rightarrow> string list \<Rightarrow> js_error + js_text \<times> nat" where
  "findBasicPeople logThrows listTools maxPeople prompt turns retryAttempts queries =
     (case listTools of
        Raises e \<Rightarrow> Inl e
      | Returns toolNames \<Rightarrow>
          if ''search_engine'' \<notin> set toolNames
          then Inl (Error ''Search engine tool not available'')
          else Inr (retryLoop retryAttempts
                      (\<lambda>attempt. discoveryAttempt logThrows maxPeople prompt (turns attempt))
                      (discoveryErrorResponse queries retryAttempts)
                      (discoveryFailedResponse queries) 0))"

subsection \<open>Enrichment (src/lib/agent/enrichment-agent.ts)\<close>

text \<open>
  One pass of the enrichment loop. \<open>enriched\<close> is how the chat completion followed by
  \<^verbatim>\<open>handleEnrichment\<close> ends; a result of more than 300 characters is logged and
  returned.
\<close>

definition enrichmentAttempt :: "(string \<Rightarrow> bool) \<Rightarrow> string outcome \<Rightarrow> attempt_result" where
  "enrichmentAttempt logThrows enriched =
     (case enriched of
        Raises e \<Rightarrow> Caught e
      | Returns result \<Rightarrow>
          if 300 < length result
          then (if logThrows result then Caught TypeError else Accept result)
          else Retry)"

definition enrichmentFailure :: "string \<Rightarrow> json" where
  "enrichmentFailure step =
     JObj [(''enrichedProfiles'', JArr []),
           (''totalSearches'', JNum 0),
           (''sourcesScraped'', JNum 0),
           (''status'', JStr ''failed''),
           (''processingSteps'', JArr [JStr step])]"

definition enrichPeopleWithEmailSignals ::
  "(string \<Rightarrow> bool) \<Rightarrow> string list outcome \<Rightarrow> (nat \<Rightarrow> string outcome) \<Rightarrow> nat
     \<Rightarrow> js_error + js_text \<times> nat" where
  "enrichPeopleWithEmailSignals logThrows listTools enrichedAt retryAttempts =
     (case listTools of
        Raises e \<Rightarrow> Inl e
      | Returns toolNames \<Rightarrow>
          Inr (retryLoop retryAttempts
                 (\<lambda>attempt. enrichmentAttempt logThrows (enrichedAt attempt))
                 (\<lambda>e. enrichmentFailure ''Failed to start enrichment'')
                 (enrichmentFailure ''All attempts failed'') 0))"

subsection \<open>Email writing (src/lib/agent/email-writing-agent.ts)\<close>

definition genericPhrases :: "string list" where
  "genericPhrases =
     [''hope this finds you well'',
      ''hope you'' @ [CHR 0x27] @ ''re doing well'',
      ''i hope this email'',
      ''reaching out to you'',
      ''wanted to connect'',
      ''i came across your profile'',
      ''i would love to discuss'',
      ''would you be interested'']"

definition personalizationSignals :: "string list" where
  "personalizationSignals =
     [''saw your'', ''loved your'', ''noticed your'', ''congrats on'', ''your recent'',
      ''your post'', ''your interview'', ''your company'', ''just read'']"

text \<open>
  \<^verbatim>\<open>emailContent.match(/\$?\d+[KkMm]?/g)\<close> finds a match exactly when the content has a
  decimal digit.
\<close>

definition hasMetric :: "string \<Rightarrow> bool" where
  "hasMetric s = list_ex (\<lambda>c. c \<in> set ''0123456789'') s"

definition validateEmailQuality :: "string \<Rightarrow> int" where
  "validateEmailQuality emailContent =
     (let score1 =
            fold (\<lambda>phrase score.
                    if includes_str (toLowerCase emailContent) phrase then score - 2 else score)
              genericPhrases 10;
          personalizationCount =
            length (filter (\<lambda>signal. includes_str (toLowerCase emailContent) signal)
                      personalizationSignals);
          score2 = (if personalizationCount = 0 then score1 - 3 else score1);
          score3 = (if hasMetric emailContent then score2 else score2 - 1);
          score4 =
            (if 1500 < length emailContent then score3 - 2
             else if length emailContent < 100 then score3 - 2
             else score3)
      in max 0 (min 10 score4))"

text \<open>
  One pass of the email loop: a content of more than 100 characters is logged, scored,
  and returned when the score is at least 6.
\<close>

definition emailAttempt :: "(string \<Rightarrow> bool) \<Rightarrow> chat_response outcome \<Rightarrow> attempt_result" where
  "emailAttempt logThrows modelCall =
     (case modelCall of
        Raises e \<Rightarrow> Caught e
      | Returns response \<Rightarrow>
          (let emailContent = first_content response
           in if 100 < length emailContent
              then (if logThrows emailContent then Caught TypeError
                    else if 6 \<le> validateEmailQuality emailContent then Accept emailContent
                    else Retry)
              else Retry))"

text \<open>
  The failure payloads. \<open>emailType\<close> is \<^verbatim>\<open>emailParams.emailType\<close>; \<open>elapsed\<close> is
  \<^verbatim>\<open>Date.now() - startTime\<close> at the moment the payload is built.
\<close>

definition emailFailure :: "json \<Rightarrow> string \<Rightarrow> int \<Rightarrow> json" where
  "emailFailure emailType' msg elapsed =
     JObj [(''emails'', JArr []),
           (''totalEmails'', JNum 0),
           (''averagePersonalization'', JNum 0),
           (''averageConfidence'', JNum 0),
           (''emailType'', or_js emailType' (JStr ''unknown'')),
           (''status'', JStr ''failed''),
           (''message'', JStr msg),
           (''generationTime'', JStr (toFixed1_s elapsed))]"

text \<open>
  \<^verbatim>\<open>generatePersonalizedEmails\<close>. Its first statement reads \<^verbatim>\<open>emailParams.emailType\<close>,
  which throws when \<^verbatim>\<open>emailParams\<close> is \<^verbatim>\<open>null\<close> or \<^verbatim>\<open>undefined\<close>.
\<close>

definition generatePersonalizedEmails ::
  "(string \<Rightarrow> bool) \<Rightarrow> json \<Rightarrow> int \<Rightarrow> (nat \<Rightarrow> chat_response outcome) \<Rightarrow> nat
     \<Rightarrow> js_error + js_text \<times> nat" where
  "generatePersonalizedEmails logThrows emailParams elapsed modelCalls retryAttempts =
     sbind (get_prop emailParams ''emailType'') (\<lambda>emailType'.
     Inr (retryLoop retryAttempts
            (\<lambda>attempt. emailAttempt logThrows (modelCalls attempt))
            (\<lambda>e. emailFailure emailType'
                    (''Unable to generate quality emails after '' @ show_nat retryAttempts
                     @ '' attempts. Error: '' @ error_string e) elapsed)
            (emailFailure emailType' ''No attempts succeeded'' elapsed) 0))"



subsection \<open>The retry bound\<close>

lemma retryLoop_count: "snd (retryLoop n body er fr a) \<le> max n a"
proof (induction n body er fr a rule: retryLoop.induct)
  case (1 n body er fr a)
  show ?case
  proof (cases "a < n")
    case False
    then show ?thesis by (subst retryLoop.simps) simp
  next
    case True
    note lt = True
    show ?thesis
    proof (cases "body a")
      case (Accept c)
      with lt show ?thesis by (subst retryLoop.simps) simp
    next
      case Retry
      with lt "1.IH"(1) [OF lt Retry] show ?thesis by (subst retryLoop.simps) simp
    next
      case (Caught e)
      show ?thesis
      proof (cases "n \<le> a + 1")
        case True
        with lt Caught show ?thesis by (subst retryLoop.simps) simp
      next
        case False
        with lt Caught "1.IH"(2) [OF lt Caught] show ?thesis
          by (subst retryLoop.simps) simp
      qed
    qed
  qed
qed

lemma retryLoop_all_fail:
  assumes "a \<le> n" and "\<And>i c. a \<le> i \<Longrightarrow> i < n \<Longrightarrow> body i \<noteq> Accept c"
  shows "snd (retryLoop n body er fr a) = n
         \<and> (\<exists>j. fst (retryLoop n body er fr a) = Stringified j \<and> (j = fr \<or> (\<exists>e. j = er e)))"
  using assms
proof (induction n body er fr a rule: retryLoop.induct)
  case (1 n body er fr a)
  show ?case
  proof (cases "a < n")
    case False
    with "1.prems"(1) have "a = n" by simp
    then show ?thesis by (subst (1 2) retryLoop.simps) simp
  next
    case True
    note lt = True
    have rest: "\<And>i c. a + 1 \<le> i \<Longrightarrow> i < n \<Longrightarrow> body i \<noteq> Accept c"
      using "1.prems"(2) by simp
    from lt have le: "a + 1 \<le> n" by simp
    show ?thesis
    proof (cases "body a")
      case (Accept c)
      with "1.prems"(2) [of a c] lt show ?thesis by simp
    next
      case Retry
      from "1.IH"(1) [OF lt Retry le rest] lt Retry show ?thesis
        by (subst (1 2) retryLoop.simps) simp
    next
      case (Caught e)
      show ?thesis
      proof (cases "n \<le> a + 1")
        case True
        with lt have "a + 1 = n" by simp
        with lt Caught show ?thesis by (subst (1 2) retryLoop.simps) auto
      next
        case False
        from "1.IH"(2) [OF lt Caught _ le rest] False lt Caught show ?thesis
          by (subst (1 2) retryLoop.simps) simp
      qed
    qed
  qed
qed

lemma retryLoop_Raw:
  "fst (retryLoop n body er fr a) = Raw c \<Longrightarrow> \<exists>i. body i = Accept c"
proof (induction n body er fr a rule: retryLoop.induct)
  case (1 n body er fr a)
  show ?case
  proof (cases "a < n")
    case False
    with "1.prems" show ?thesis by (subst (asm) retryLoop.simps) simp
  next
    case True
    note lt = True
    show ?thesis
    proof (cases "body a")
      case (Accept c')
      with lt "1.prems" have "c' = c" by (subst (asm) retryLoop.simps) simp
      with Accept show ?thesis by blast
    next
      case Retry
      with lt "1.prems" have "fst (retryLoop n body er fr (a + 1)) = Raw c"
        by (subst (asm) retryLoop.simps) simp
      from "1.IH"(1) [OF lt Retry this] show ?thesis .
    next
      case (Caught e)
      show ?thesis
      proof (cases "n \<le> a + 1")
        case True
        with lt Caught "1.prems" show ?thesis by (subst (asm) retryLoop.simps) simp
      next
        case False
        with lt Caught "1.prems" have "fst (retryLoop n body er fr (a + 1)) = Raw c"
          by (subst (asm) retryLoop.simps) simp
        from "1.IH"(2) [OF lt Caught _ this] False show ?thesis by simp
      qed
    qed
  qed
qed


lemma get_prop_not_nullish: "\<not> nullish v \<Longrightarrow> \<exists>x. get_prop v k = Inr x"
  by (cases v) (simp_all add: nullish_def)

lemma failure_status [simp]:
  "opt_prop (discoveryErrorResponse queries n e) ''status'' = JStr ''failed''"
  "opt_prop (discoveryFailedResponse queries) ''status'' = JStr ''failed''"
  "opt_prop (enrichmentFailure step) ''status'' = JStr ''failed''"
  "opt_prop (emailFailure ty msg elapsed) ''status'' = JStr ''failed''"
  by (simp_all add: opt_prop_def discoveryErrorResponse_def discoveryFailedResponse_def
      enrichmentFailure_def emailFailure_def)

lemma retryLoop_two:
  assumes "\<And>e. opt_prop (er e) ''status'' = JStr ''failed''"
      and "opt_prop fr ''status'' = JStr ''failed''"
  shows "\<exists>out k. retryLoop agentRetryAttempts body er fr 0 = (out, k) \<and> k \<le> 2
           \<and> ((\<forall>i<2. \<forall>c. body i \<noteq> Accept c) \<longrightarrow> k = 2 \<and> payload_status out = JStr ''failed'')"
proof -
  obtain out k where ok: "retryLoop agentRetryAttempts body er fr 0 = (out, k)"
    by (cases "retryLoop agentRetryAttempts body er fr 0")
  have "snd (retryLoop agentRetryAttempts body er fr 0) \<le> max agentRetryAttempts 0"
    by (rule retryLoop_count)
  with ok have k2: "k \<le> 2" by (simp add: agentRetryAttempts_def)
  have "k = 2 \<and> payload_status out = JStr ''failed''" if "\<forall>i<2. \<forall>c. body i \<noteq> Accept c"
  proof -
    from that have h: "body i \<noteq> Accept c" if "i < agentRetryAttempts" for i c
      using that by (simp add: agentRetryAttempts_def)
    have "snd (retryLoop agentRetryAttempts body er fr 0) = agentRetryAttempts
          \<and> (\<exists>j. fst (retryLoop agentRetryAttempts body er fr 0) = Stringified j
                \<and> (j = fr \<or> (\<exists>e. j = er e)))"
    proof (rule retryLoop_all_fail)
      show "0 \<le> agentRetryAttempts" by simp
      show "body i \<noteq> Accept c" if "0 \<le> i" and "i < agentRetryAttempts" for i c
        using that(2) by (rule h)
    qed
    with ok assms show ?thesis
      by (auto simp: agentRetryAttempts_def payload_status_def)
  qed
  with ok k2 show ?thesis by blast
qed

text \<open>
  C4. Each of the three stage agents, with \<^verbatim>\<open>retryAttempts = 2\<close> and once its loop is
  reached (discovery: the tool list was obtained and offers \<^verbatim>\<open>search_engine\<close>;
  enrichment: the tool list was obtained; email writing: the parameters are an object),
  returns a string after at most 2 passes of its loop. When neither pass 0 nor pass 1
  returns a result (each throws or yields insufficient output), exactly 2 passes are
  made and the returned string is a stringified payload whose \<open>status\<close> is
  \<open>failed\<close>; nothing is thrown.
\<close>

theorem stage_retry_bound:
  assumes "listTools = Returns toolNames" and "''search_engine'' \<in> set toolNames"
      and "listTools' = Returns toolNames'"
      and "\<not> nullish emailParams"
  shows
    "(\<exists>out k. findBasicPeople logD listTools maxPeople prompt turns agentRetryAttempts queries
                = Inr (out, k)
        \<and> k \<le> 2
        \<and> ((\<forall>i<2. \<forall>c. discoveryAttempt logD maxPeople prompt (turns i) \<noteq> Accept c)
             \<longrightarrow> k = 2 \<and> payload_status out = JStr ''failed''))
     \<and> (\<exists>out k. enrichPeopleWithEmailSignals logE listTools' enrichedAt agentRetryAttempts
                = Inr (out, k)
        \<and> k \<le> 2
        \<and> ((\<forall>i<2. \<forall>c. enrichmentAttempt logE (enrichedAt i) \<noteq> Accept c)
             \<longrightarrow> k = 2 \<and> payload_status out = JStr ''failed''))
     \<and> (\<exists>out k. generatePersonalizedEmails logM emailParams elapsed modelCalls agentRetryAttempts
                = Inr (out, k)
        \<and> k \<le> 2
        \<and> ((\<forall>i<2. \<forall>c. emailAttempt logM (modelCalls i) \<noteq> Accept c)
             \<longrightarrow> k = 2 \<and> payload_status out = JStr ''failed''))"
proof -
  from get_prop_not_nullish [OF assms(4)]
  obtain ty where ty: "get_prop emailParams ''emailType'' = Inr ty" by blast
  show ?thesis
    using assms(1-3)
    by (simp add: findBasicPeople_def enrichPeopleWithEmailSignals_def
        generatePersonalizedEmails_def retryLoop_two ty sbind_def)
qed

subsection \<open>The quality score\<close>

lemma fold_penalty_le:
  "fold (\<lambda>p s. if P p then s - 2 else s) ps (s0::int) \<le> s0"
proof (induction ps arbitrary: s0)
  case Nil
  show ?case by simp
next
  case (Cons p ps)
  have "fold (\<lambda>p s. if P p then s - 2 else s) ps (if P p then s0 - 2 else s0)
          \<le> (if P p then s0 - 2 else s0)"
    by (rule Cons.IH)
  then show ?case by (simp split: if_splits)
qed

lemma fold_penalty_hit:
  "P p0 \<Longrightarrow> p0 \<in> set ps \<Longrightarrow> fold (\<lambda>p s. if P p then s - 2 else s) ps (s0::int) \<le> s0 - 2"
proof (induction ps arbitrary: s0)
  case Nil
  then show ?case by simp
next
  case (Cons p ps)
  show ?case
  proof (cases "P p")
    case True
    have "fold (\<lambda>p s. if P p then s - 2 else s) ps (s0 - 2) \<le> s0 - 2"
      by (rule fold_penalty_le)
    with True show ?thesis by simp
  next
    case False
    with Cons.prems have "p0 \<in> set ps" by auto
    from Cons.IH [OF Cons.prems(1) this] False show ?thesis by simp
  qed
qed

lemma low_score:
  assumes "includes_str (toLowerCase c) ''hope this finds you well''"
      and "\<forall>signal \<in> set personalizationSignals. \<not> includes_str (toLowerCase c) signal"
  shows "validateEmailQuality c \<le> 5"
proof -
  have hit: "''hope this finds you well'' \<in> set genericPhrases"
    by (simp add: genericPhrases_def)
  have s1: "fold (\<lambda>phrase score. if includes_str (toLowerCase c) phrase then score - 2 else score)
              genericPhrases (10::int) \<le> 10 - 2"
    using assms(1) hit by (rule fold_penalty_hit)
  have none: "filter (\<lambda>signal. includes_str (toLowerCase c) signal) personalizationSignals = []"
    using assms(2) by (simp add: filter_empty_conv)
  show ?thesis
    using s1 by (simp add: validateEmailQuality_def Let_def none)
qed

lemma emailAttempt_Accept:
  "emailAttempt logThrows modelCall = Accept c \<Longrightarrow> 6 \<le> validateEmailQuality c"
  by (auto simp: emailAttempt_def Let_def split: outcome.splits if_splits)

text \<open>
  C6. Containment is the scorer's: a phrase is contained when the lower-cased content
  includes it. For every content that contains \<open>hope this finds you well\<close> and none of
  the personalization signals, the score is at most 5, no pass of the email loop
  accepts it, and the stage never returns it as its result, whatever the other passes
  produce.
\<close>

theorem boilerplate_email_rejected:
  assumes "includes_str (toLowerCase c) ''hope this finds you well''"
      and "\<forall>signal \<in> set personalizationSignals. \<not> includes_str (toLowerCase c) signal"
  shows "validateEmailQuality c \<le> 5
         \<and> (\<forall>logThrows modelCall. emailAttempt logThrows modelCall \<noteq> Accept c)
         \<and> (\<forall>logThrows emailParams elapsed modelCalls n k.
               generatePersonalizedEmails logThrows emailParams elapsed modelCalls n
                 \<noteq> Inr (Raw c, k))"
proof -
  have low: "validateEmailQuality c \<le> 5" using assms by (rule low_score)
  have att: "emailAttempt logThrows modelCall \<noteq> Accept c" for logThrows modelCall
    using emailAttempt_Accept [of logThrows modelCall c] low by auto
  have "generatePersonalizedEmails logThrows emailParams elapsed modelCalls n \<noteq> Inr (Raw c, k)"
    for logThrows emailParams elapsed modelCalls n k
  proof
    assume g: "generatePersonalizedEmails logThrows emailParams elapsed modelCalls n
               = Inr (Raw c, k)"
    then obtain ty where
      "retryLoop n (\<lambda>attempt. emailAttempt logThrows (modelCalls attempt))
         (\<lambda>e. emailFailure ty
                 (''Unable to generate quality emails after '' @ show_nat n
                  @ '' attempts. Error: '' @ error_string e) elapsed)
         (emailFailure ty ''No attempts succeeded'' elapsed) 0 = (Raw c, k)"
      by (auto simp: generatePersonalizedEmails_def sbind_def split: sum.splits)
    then have "fst (retryLoop n (\<lambda>attempt. emailAttempt logThrows (modelCalls attempt))
         (\<lambda>e. emailFailure ty
                 (''Unable to generate quality emails after '' @ show_nat n
                  @ '' attempts. Error: '' @ error_string e) elapsed)
         (emailFailure ty ''No attempts succeeded'' elapsed) 0) = Raw c"
      by simp
    from retryLoop_Raw [OF this]
    obtain i where "emailAttempt logThrows (modelCalls i) = Accept c" by blast
    with att show False by blast
  qed
  with low att show ?thesis by blast
qed


subsection \<open>A batch of search calls\<close>

text \<open>
  The tool message the i-th call of a batch leads to, whether its tool call fails, and
  the two kinds of tool message: a \<open>Search Error\<close> string or a serialized result.
\<close>

definition callArguments :: "search_env \<Rightarrow> tool_call \<Rightarrow> json" where
  "callArguments env c = (case parseCall env c of Inl e \<Rightarrow> JUndefined | Inr args \<Rightarrow> args)"

definition toolResultMessage :: "search_env \<Rightarrow> nat \<times> tool_call \<Rightarrow> chat_message" where
  "toolResultMessage env ic = toolMessage env ic (callArguments env (snd ic))"

definition toolFails :: "search_env \<Rightarrow> nat \<times> tool_call \<Rightarrow> bool" where
  "toolFails env ic =
     (case callTool env (fst ic) (callArguments env (snd ic)) of
        Returns result \<Rightarrow> False
      | Raises e \<Rightarrow> True)"

definition isSearchError :: "chat_message \<Rightarrow> bool" where
  "isSearchError m =
     (case m of ToolMessage i (Raw s) \<Rightarrow> startsWith s ''Search Error: '' | _ \<Rightarrow> False)"

definition isSerialized :: "chat_message \<Rightarrow> bool" where
  "isSerialized m = (case m of ToolMessage i (Stringified v) \<Rightarrow> True | _ \<Rightarrow> False)"

text \<open>
  A requested call whose arguments are JSON for a value other than \<^verbatim>\<open>null\<close>: the
  model's part of the call is in order, and what can still fail is the search.
\<close>

definition wellFormedCall :: "search_env \<Rightarrow> tool_call \<Rightarrow> bool" where
  "wellFormedCall env c =
     (case parseArguments env (arguments c) of None \<Rightarrow> False | Some args \<Rightarrow> \<not> nullish args)"

lemma collect_map_Inr:
  "(\<And>x. x \<in> set xs \<Longrightarrow> f x = Inr (g x)) \<Longrightarrow> collect (map f xs) = Inr (map g xs)"
  by (induction xs) (simp_all add: sbind_def)

lemma parseCall_wellFormed:
  assumes "wellFormedCall env c"
  shows "parseCall env c = Inr (callArguments env c)"
proof -
  from assms obtain args where a: "parseArguments env (arguments c) = Some args"
    and n: "\<not> nullish args"
    by (auto simp: wellFormedCall_def split: option.splits)
  from get_prop_not_nullish [OF n] obtain x where "get_prop args ''query'' = Inr x" by blast
  with a show ?thesis
    by (simp add: parseCall_def callArguments_def sbind_def)
qed

lemma searchCall_wellFormed:
  assumes "wellFormedCall env (snd ic)"
  shows "searchCall env ic = Inr (callArguments env (snd ic), toolResultMessage env ic)"
  by (simp add: searchCall_def toolResultMessage_def sbind_def parseCall_wellFormed [OF assms])

lemma count_errors:
  "length (filter isSearchError (map (toolResultMessage env) ics))
     = length (filter (toolFails env) ics)"
  by (induction ics)
    (auto simp: isSearchError_def toolResultMessage_def toolMessage_def toolFails_def
      startsWith_def split: outcome.splits)

lemma isSerialized_toolResultMessage:
  "isSerialized (toolResultMessage env ic) = (\<not> toolFails env ic)"
  by (simp add: isSerialized_def toolResultMessage_def toolMessage_def toolFails_def
      split: outcome.splits)

lemma count_serialized:
  "length (filter isSerialized (map (toolResultMessage env) ics))
     = length ics - length (filter (toolFails env) ics)"
proof (induction ics)
  case Nil
  show ?case by simp
next
  case (Cons ic ics)
  have le: "length (filter (toolFails env) ics) \<le> length ics" by (rule length_filter_le)
  show ?case
  proof (cases "toolFails env ic")
    case True
    with Cons show ?thesis by (simp add: isSerialized_toolResultMessage)
  next
    case False
    with Cons le show ?thesis by (simp add: isSerialized_toolResultMessage Suc_diff_le)
  qed
qed

lemma snd_in_enumerate: "ic \<in> set (enumerate n xs) \<Longrightarrow> snd ic \<in> set xs"
  by (cases ic) (auto simp: enumerate_eq_zip elim: in_set_zipE)

text \<open>
  Failures of the search itself are absorbed. Take a model turn that requests N search
  calls, each with arguments that parse, of which M fail: the search tool rejects them.
  Then all N calls are dispatched with their parsed arguments; the conversation is
  extended by the assistant message, exactly N tool messages in the order of the calls,
  M of them \<open>Search Error\<close> strings and N - M serialized results, and the compilation
  prompt; and that conversation is sent to the follow-up model call.
\<close>

lemma search_batch_survives_tool_failures:
  assumes "choices response = m # rest"
      and "tool_calls m \<noteq> []"
      and "\<forall>c \<in> set (tool_calls m). wellFormedCall env c"
  shows "conversation (handleSearchAndReturn env maxPeople messages response)
           = messages @ [AssistantMessage (content m) (tool_calls m)]
             @ map (toolResultMessage env) (enumerate 0 (tool_calls m))
             @ [UserMessage (compilePrompt maxPeople)]
         \<and> dispatched (handleSearchAndReturn env maxPeople messages response)
           = map (callArguments env) (tool_calls m)
         \<and> length (map (toolResultMessage env) (enumerate 0 (tool_calls m)))
           = length (tool_calls m)
         \<and> length (filter isSearchError
                     (map (toolResultMessage env) (enumerate 0 (tool_calls m))))
           = length (filter (toolFails env) (enumerate 0 (tool_calls m)))
         \<and> length (filter isSerialized
                     (map (toolResultMessage env) (enumerate 0 (tool_calls m))))
           = length (tool_calls m) - length (filter (toolFails env) (enumerate 0 (tool_calls m)))
         \<and> compileRequests (handleSearchAndReturn env maxPeople messages response)
           = [conversation (handleSearchAndReturn env maxPeople messages response)]"
proof -
  let ?ics = "enumerate 0 (tool_calls m)"
  have wf: "wellFormedCall env (snd ic)" if "ic \<in> set ?ics" for ic
    using snd_in_enumerate [OF that] assms(3) by blast
  have col: "collect (map (searchCall env) ?ics)
             = Inr (map (\<lambda>ic. (callArguments env (snd ic),
                               toolResultMessage env ic)) ?ics)"
    by (rule collect_map_Inr) (simp add: searchCall_wellFormed wf)
  have args: "map (\<lambda>ic. callArguments env (snd ic)) ?ics
              = map (callArguments env) (tool_calls m)"
    using map_map [of "callArguments env" snd ?ics]
    by (simp add: comp_def)
  have conv: "conversation (handleSearchAndReturn env maxPeople messages response)
           = messages @ [AssistantMessage (content m) (tool_calls m)]
             @ map (toolResultMessage env) ?ics @ [UserMessage (compilePrompt maxPeople)]"
    using assms(1,2) by (simp add: handleSearchAndReturn_def Let_def col comp_def)
  have disp: "dispatched (handleSearchAndReturn env maxPeople messages response)
           = map (callArguments env) (tool_calls m)"
    using assms(1,2) args by (simp add: handleSearchAndReturn_def Let_def col comp_def)
  have comp: "compileRequests (handleSearchAndReturn env maxPeople messages response)
           = [conversation (handleSearchAndReturn env maxPeople messages response)]"
    using assms(1,2) by (simp add: handleSearchAndReturn_def Let_def col comp_def)
  have len: "length (map (toolResultMessage env) ?ics) = length (tool_calls m)"
    by simp
  have ce: "length (filter isSearchError (map (toolResultMessage env) ?ics))
            = length (filter (toolFails env) ?ics)"
    by (rule count_errors)
  have "length (filter isSerialized (map (toolResultMessage env) ?ics))
            = length ?ics - length (filter (toolFails env) ?ics)"
    by (rule count_serialized)
  then have cs: "length (filter isSerialized (map (toolResultMessage env) ?ics))
            = length (tool_calls m) - length (filter (toolFails env) ?ics)"
    by (simp only: length_enumerate)
  from conv disp len ce cs comp show ?thesis
    by (intro conjI)
qed

lemma collect_Inl:
  "x \<in> set xs \<Longrightarrow> f x = Inl e \<Longrightarrow> \<exists>e'. collect (map f xs) = Inl e'"
proof (induction xs)
  case Nil
  then show ?case by simp
next
  case (Cons y ys)
  show ?case
  proof (cases "f y")
    case (Inl e0)
    then show ?thesis by (simp add: sbind_def)
  next
    case (Inr v)
    with Cons.prems have "x \<in> set ys" by auto
    from Cons.IH [OF this Cons.prems(2)] obtain e' where "collect (map f ys) = Inl e'" by blast
    with Inr show ?thesis by (simp add: sbind_def)
  qed
qed

text \<open>
  C5 on the code. A requested call can also fail before the search is reached: its
  arguments are not valid JSON (a truncated or empty string), or are \<^verbatim>\<open>null\<close>. In
  \<^verbatim>\<open>handleSearchAndReturn\<close> the line \<^verbatim>\<open>JSON.parse(toolCall.function.arguments)\<close> and the
  read of \<^verbatim>\<open>args.query\<close> stand before the \<^verbatim>\<open>try\<close> of the call, so the call's promise
  rejects and \<^verbatim>\<open>Promise.all\<close> rejects with it. Take any model turn in which one
  requested call fails in this way: \<^verbatim>\<open>handleSearchAndReturn\<close> throws, no tool message
  is appended for any call of the batch, the results of the sibling calls are dropped,
  no compilation call is made, and the pass ends in the \<^verbatim>\<open>catch\<close> of the retry loop.
  The enrichment agent has the same loop with \<^verbatim>\<open>JSON.parse\<close> inside the \<^verbatim>\<open>try\<close>.
\<close>

theorem malformed_arguments_abort_batch:
  assumes "choices response = m # rest"
      and "(i, c) \<in> set (enumerate 0 (tool_calls m))"
      and "parseCall env c = Inl e0"
  shows "(\<exists>e. searchResult (handleSearchAndReturn env maxPeople messages response) = Inl e)
         \<and> conversation (handleSearchAndReturn env maxPeople messages response)
             = messages @ [AssistantMessage (content m) (tool_calls m)]
         \<and> compileRequests (handleSearchAndReturn env maxPeople messages response) = []
         \<and> (\<exists>e. discoveryAttempt logThrows maxPeople prompt
                     \<lparr>firstCall = Returns response, searchEnv = env\<rparr> = Caught e)"
proof -
  have "searchCall env (i, c) = Inl e0"
    using assms(3) by (simp add: searchCall_def sbind_def)
  from collect_Inl [where f = "searchCall env", OF assms(2) this]
  obtain e' where col: "collect (map (searchCall env) (enumerate 0 (tool_calls m))) = Inl e'"
    by blast
  from assms(2) have ne: "tool_calls m \<noteq> []" by auto
  have r: "searchResult (handleSearchAndReturn env maxPeople ms response) = Inl e'" for ms
    using assms(1) col ne by (simp add: handleSearchAndReturn_def Let_def)
  have c1: "conversation (handleSearchAndReturn env maxPeople messages response)
            = messages @ [AssistantMessage (content m) (tool_calls m)]"
    using assms(1) col ne by (simp add: handleSearchAndReturn_def Let_def)
  have c2: "compileRequests (handleSearchAndReturn env maxPeople messages response) = []"
    using assms(1) col ne by (simp add: handleSearchAndReturn_def Let_def)
  have c3: "discoveryAttempt logThrows maxPeople prompt
              \<lparr>firstCall = Returns response, searchEnv = env\<rparr> = Caught e'"
    by (simp add: discoveryAttempt_def r)
  from r [of messages] c1 c2 c3 show ?thesis by blast
qed

subsection \<open>Concrete runs\<close>

text \<open>A batch of three calls in which the second tool call times out.\<close>

definition threeCalls :: assistant_message where
  "threeCalls =
     \<lparr>content = None,
      tool_calls =
        [\<lparr>call_id = ''c1'', function_name = ''search_engine'', arguments = ''founders''\<rparr>,
         \<lparr>call_id = ''c2'', function_name = ''search_engine'', arguments = ''ceos''\<rparr>,
         \<lparr>call_id = ''c3'', function_name = ''search_engine'', arguments = ''startups''\<rparr>]\<rparr>"

definition secondCallTimesOut :: search_env where
  "secondCallTimesOut =
     \<lparr>parseArguments = (\<lambda>s. Some (JObj [(''query'', JStr s)])),
      callTool = (\<lambda>i args. if i = 1 then Raises (Error ''timeout'') else Returns (JArr [])),
      compileCall = (\<lambda>ms. Returns \<lparr>choices = [\<lparr>content = Some ''none'', tool_calls = []\<rparr>]\<rparr>)\<rparr>"

lemma search_batch_example:
  "choices \<lparr>choices = [threeCalls]\<rparr> = threeCalls # []
   \<and> tool_calls threeCalls \<noteq> []
   \<and> list_all (wellFormedCall secondCallTimesOut) (tool_calls threeCalls)
   \<and> length (dispatched (handleSearchAndReturn secondCallTimesOut 3 [UserMessage ''find'']
                 \<lparr>choices = [threeCalls]\<rparr>)) = 3
   \<and> length (filter isSearchError
               (map (toolResultMessage secondCallTimesOut) (enumerate 0 (tool_calls threeCalls))))
       = 1
   \<and> length (filter isSerialized
               (map (toolResultMessage secondCallTimesOut) (enumerate 0 (tool_calls threeCalls))))
       = 2
   \<and> compileRequests (handleSearchAndReturn secondCallTimesOut 3 [UserMessage ''find'']
                        \<lparr>choices = [threeCalls]\<rparr>)
       = [[UserMessage ''find'', AssistantMessage None (tool_calls threeCalls),
           ToolMessage ''c1'' (Stringified (JArr [])),
           ToolMessage ''c2'' (Raw ''Search Error: timeout''),
           ToolMessage ''c3'' (Stringified (JArr [])),
           UserMessage (compilePrompt 3)]]"
proof -
  have wf: "\<forall>c \<in> set (tool_calls threeCalls). wellFormedCall secondCallTimesOut c"
    by (simp add: threeCalls_def secondCallTimesOut_def wellFormedCall_def nullish_def)
  have ne: "tool_calls threeCalls \<noteq> []"
    by (simp add: threeCalls_def)
  have fails: "length (filter (toolFails secondCallTimesOut) (enumerate 0 (tool_calls threeCalls)))
               = 1"
    by (simp add: threeCalls_def secondCallTimesOut_def toolFails_def)
  have msgs: "map (toolResultMessage secondCallTimesOut) (enumerate 0 (tool_calls threeCalls))
              = [ToolMessage ''c1'' (Stringified (JArr [])),
                 ToolMessage ''c2'' (Raw ''Search Error: timeout''),
                 ToolMessage ''c3'' (Stringified (JArr []))]"
    by (simp add: threeCalls_def secondCallTimesOut_def toolResultMessage_def toolMessage_def)
  have three: "length (tool_calls threeCalls) = 3"
    by (simp add: threeCalls_def)
  have cnt: "content threeCalls = None"
    by (simp add: threeCalls_def)
  from search_batch_survives_tool_failures
         [of "\<lparr>choices = [threeCalls]\<rparr>" threeCalls "[]" secondCallTimesOut 3
             "[UserMessage ''find'']", OF _ ne wf]
  show ?thesis
    using wf ne fails three
    by (simp add: msgs cnt list_all_iff)
qed

text \<open>
  A batch of three calls in which the arguments of the second are a truncated JSON text;
  every search succeeds.
\<close>

definition truncatedSecond :: assistant_message where
  "truncatedSecond =
     \<lparr>content = None,
      tool_calls =
        [\<lparr>call_id = ''c1'', function_name = ''search_engine'', arguments = ''founders''\<rparr>,
         \<lparr>call_id = ''c2'', function_name = ''search_engine'', arguments = ''{''\<rparr>,
         \<lparr>call_id = ''c3'', function_name = ''search_engine'', arguments = ''startups''\<rparr>]\<rparr>"

definition searchesSucceed :: search_env where
  "searchesSucceed =
     \<lparr>parseArguments = (\<lambda>s. if s = ''{'' then None else Some (JObj [(''query'', JStr s)])),
      callTool = (\<lambda>i args. Returns (JArr [])),
      compileCall = (\<lambda>ms. Returns \<lparr>choices = [\<lparr>content = Some ''none'', tool_calls = []\<rparr>]\<rparr>)\<rparr>"

theorem malformed_arguments_abort_batch_witness:
  "choices \<lparr>choices = [truncatedSecond]\<rparr> = truncatedSecond # []
   \<and> (1, \<lparr>call_id = ''c2'', function_name = ''search_engine'', arguments = ''{''\<rparr>)
       \<in> set (enumerate 0 (tool_calls truncatedSecond))
   \<and> parseCall searchesSucceed
         \<lparr>call_id = ''c2'', function_name = ''search_engine'', arguments = ''{''\<rparr>
       = Inl SyntaxError
   \<and> length (tool_calls truncatedSecond) = 3
   \<and> searchResult (handleSearchAndReturn searchesSucceed 3 [UserMessage ''find'']
                       \<lparr>choices = [truncatedSecond]\<rparr>) = Inl SyntaxError
   \<and> conversation (handleSearchAndReturn searchesSucceed 3 [UserMessage ''find'']
                       \<lparr>choices = [truncatedSecond]\<rparr>)
       = [UserMessage ''find'', AssistantMessage None (tool_calls truncatedSecond)]
   \<and> dispatched (handleSearchAndReturn searchesSucceed 3 [UserMessage ''find'']
                     \<lparr>choices = [truncatedSecond]\<rparr>)
       = [JObj [(''query'', JStr ''founders'')], JObj [(''query'', JStr ''startups'')]]
   \<and> compileRequests (handleSearchAndReturn searchesSucceed 3 [UserMessage ''find'']
                          \<lparr>choices = [truncatedSecond]\<rparr>) = []"
proof -
  let ?c2 = "\<lparr>call_id = ''c2'', function_name = ''search_engine'', arguments = ''{''\<rparr>"
  have h1: "choices \<lparr>choices = [truncatedSecond]\<rparr> = truncatedSecond # []"
    by simp
  have h2: "(1, ?c2) \<in> set (enumerate 0 (tool_calls truncatedSecond))"
    by (simp add: truncatedSecond_def)
  have h3: "parseCall searchesSucceed ?c2 = Inl SyntaxError"
    by (simp add: parseCall_def searchesSucceed_def)
  have n: "length (tool_calls truncatedSecond) = 3"
    by (simp add: truncatedSecond_def)
  have cnt: "content truncatedSecond = None"
    by (simp add: truncatedSecond_def)
  have res: "searchResult (handleSearchAndReturn searchesSucceed 3 [UserMessage ''find'']
                             \<lparr>choices = [truncatedSecond]\<rparr>) = Inl SyntaxError"
    by (simp add: handleSearchAndReturn_def Let_def truncatedSecond_def searchesSucceed_def
        searchCall_def parseCall_def toolMessage_def sbind_def)
  have dis: "dispatched (handleSearchAndReturn searchesSucceed 3 [UserMessage ''find'']
                           \<lparr>choices = [truncatedSecond]\<rparr>)
             = [JObj [(''query'', JStr ''founders'')], JObj [(''query'', JStr ''startups'')]]"
    by (simp add: handleSearchAndReturn_def Let_def truncatedSecond_def searchesSucceed_def
        searchCall_def parseCall_def toolMessage_def sbind_def rights_def List.map_filter_def)
  from malformed_arguments_abort_batch
         [OF h1 h2 h3, of 3 "[UserMessage ''find'']" "\<lambda>r. False" "''find''"]
  show ?thesis
    using h1 h2 h3 n res dis by (simp add: cnt)
qed

text \<open>The model is unreachable in every pass of every stage.\<close>

definition offlineTurn :: discovery_turn where
  "offlineTurn = \<lparr>firstCall = Raises (Error ''offline''), searchEnv = secondCallTimesOut\<rparr>"

theorem stage_retry_bound_witness:
  "discoveryAttempt (\<lambda>r. False) 3 ''find'' offlineTurn = Caught (Error ''offline'')
   \<and> enrichmentAttempt (\<lambda>r. False) (Raises (Error ''offline'')) = Caught (Error ''offline'')
   \<and> emailAttempt (\<lambda>r. False) (Raises (Error ''offline'')) = Caught (Error ''offline'')
   \<and> (\<exists>out. findBasicPeople (\<lambda>r. False) (Returns [''search_engine'']) 3 ''find''
                (\<lambda>i. offlineTurn) agentRetryAttempts [''founders'']
              = Inr (out, 2) \<and> payload_status out = JStr ''failed'')
   \<and> (\<exists>out. enrichPeopleWithEmailSignals (\<lambda>r. False) (Returns [''search_engine''])
                (\<lambda>i. Raises (Error ''offline'')) agentRetryAttempts
              = Inr (out, 2) \<and> payload_status out = JStr ''failed'')
   \<and> \<not> nullish (JObj [(''emailType'', JStr ''sales_outreach'')])
   \<and> (\<exists>out. generatePersonalizedEmails (\<lambda>r. False)
                (JObj [(''emailType'', JStr ''sales_outreach'')]) 1200
                (\<lambda>i. Raises (Error ''offline'')) agentRetryAttempts
              = Inr (out, 2) \<and> payload_status out = JStr ''failed'')"
proof -
  have d: "discoveryAttempt (\<lambda>r. False) 3 ''find'' offlineTurn = Caught (Error ''offline'')"
    by (simp add: discoveryAttempt_def offlineTurn_def)
  have e: "enrichmentAttempt (\<lambda>r. False) (Raises (Error ''offline'')) = Caught (Error ''offline'')"
    by (simp add: enrichmentAttempt_def)
  have m: "emailAttempt (\<lambda>r. False) (Raises (Error ''offline'')) = Caught (Error ''offline'')"
    by (simp add: emailAttempt_def)
  from stage_retry_bound
         [of "Returns [''search_engine'']" "[''search_engine'']" "Returns [''search_engine'']"
             "[''search_engine'']"
             "JObj [(''emailType'', JStr ''sales_outreach'')]"
             "\<lambda>r. False" 3 "''find''" "\<lambda>i. offlineTurn" "[''founders'']"
             "\<lambda>r. False" "\<lambda>i. Raises (Error ''offline'')" "\<lambda>r. False"
             1200 "\<lambda>i. Raises (Error ''offline'')"]
  show ?thesis
    using d e m by (auto simp: nullish_def)
qed

text \<open>A content of 128 characters with the opener and no personalization signal.\<close>

definition boilerplateEmail :: string where
  "boilerplateEmail =
     ''Hi Sam, Hope this finds you well. We make scheduling software for small clinics ''
     @ ''and would like to show you a short demo next week.''"

theorem boilerplate_email_rejected_witness:
  "includes_str (toLowerCase boilerplateEmail) ''hope this finds you well''
   \<and> list_all (\<lambda>signal. \<not> includes_str (toLowerCase boilerplateEmail) signal)
       personalizationSignals
   \<and> 100 < length boilerplateEmail
   \<and> validateEmailQuality boilerplateEmail \<le> 5
   \<and> (\<forall>logThrows modelCall. emailAttempt logThrows modelCall \<noteq> Accept boilerplateEmail)"
proof -
  have a: "includes_str (toLowerCase boilerplateEmail) ''hope this finds you well''"
    by code_simp
  have b: "list_all (\<lambda>signal. \<not> includes_str (toLowerCase boilerplateEmail) signal)
             personalizationSignals"
    by code_simp
  have c: "100 < length boilerplateEmail"
    by (simp add: boilerplateEmail_def)
  from b have b': "\<forall>signal \<in> set personalizationSignals.
                    \<not> includes_str (toLowerCase boilerplateEmail) signal"
    by (simp add: list_all_iff)
  from boilerplate_email_rejected [OF a b'] a b c show ?thesis
    by blast
qed

section \<open>The API route (src/pages/api/agent/run.ts)\<close>

subsection \<open>Data captured from the status updates\<close>

text \<open>
  \<^verbatim>\<open>capturedData\<close>: three slots, each holding whatever value the last matching status
  update carried. They start as empty arrays.
\<close>

record captured =
  capturedEmails :: json
  capturedDiscovery :: json
  capturedEnrichment :: json

definition emptyCaptured :: captured where
  "emptyCaptured =
     \<lparr>capturedEmails = JArr [], capturedDiscovery = JArr [], capturedEnrichment = JArr []\<rparr>"

text \<open>The capturing half of the \<^verbatim>\<open>'update'\<close> listener.\<close>

definition capture :: "StatusUpdate \<Rightarrow> captured \<Rightarrow> captured" where
  "capture u c =
     (if truthy (udata u)
      then (let c1 = (if uphase u = ''discovery'' \<and> truthy (opt_prop (udata u) ''people'')
                      then c\<lparr>capturedDiscovery := opt_prop (udata u) ''people''\<rparr>
                      else c);
                c2 = (if uphase u = ''enrichment''
                         \<and> truthy (opt_prop (udata u) ''enrichedProfiles'')
                      then c1\<lparr>capturedEnrichment := opt_prop (udata u) ''enrichedProfiles''\<rparr>
                      else c1)
            in if uphase u = ''email_writing'' \<and> truthy (opt_prop (udata u) ''emails'')
               then c2\<lparr>capturedEmails := opt_prop (udata u) ''emails''\<rparr>
               else c2)
      else c)"

subsection \<open>transformCapturedDataToProspects\<close>

text \<open>
  An array spread \<^verbatim>\<open>...(v || [])\<close>: arrays and strings are iterable, a string yielding
  its characters; spreading any other truthy value throws a \<^verbatim>\<open>TypeError\<close>.
\<close>

fun iterate :: "json \<Rightarrow> js_error + json list" where
  "iterate (JArr xs) = Inr xs"
| "iterate (JStr s) = Inr (map (\<lambda>c. JStr [c]) s)"
| "iterate v = Inl TypeError"

definition spreadOr :: "json \<Rightarrow> js_error + json list" where
  "spreadOr v = iterate (or_js v (JArr []))"

text \<open>\<^verbatim>\<open>data[index]\<close> of \<^verbatim>\<open>data = captured || []\<close>.\<close>

definition entryAt :: "json \<Rightarrow> nat \<Rightarrow> json" where
  "entryAt v index = js_index (or_js v (JArr [])) index"

text \<open>
  The body of the \<^verbatim>\<open>forEach\<close> callback for the email at \<open>index\<close>, given the entries
  \<^verbatim>\<open>discoveryData[index]\<close> and \<^verbatim>\<open>enrichmentData[index]\<close>. The first thing that can throw is
  \<^verbatim>\<open>email.recipientName\<close>, on a \<^verbatim>\<open>null\<close> email; then the three spreads. Every other
  access is on a truthy value or optional. \<open>generatedAt\<close> is
  \<^verbatim>\<open>new Date().toISOString()\<close>.
\<close>

definition prospectFrom :: "string \<Rightarrow> nat \<Rightarrow> json \<Rightarrow> json \<Rightarrow> json \<Rightarrow> js_error + json" where
  "prospectFrom generatedAt index email discoveryEntry enrichmentEntry =
     (let discoveryPerson = or_js discoveryEntry (JObj []);
          enrichedProfile = or_js enrichmentEntry (JObj []);
          personalInfo = opt_prop enrichedProfile ''personalInfo'';
          companyInfo = opt_prop enrichedProfile ''companyInfo'';
          emailSignals = opt_prop enrichedProfile ''emailSignals''
      in sbind (get_prop email ''recipientName'') (\<lambda>recipientName.
         sbind (spreadOr (opt_prop enrichedProfile ''keyInsights'')) (\<lambda>keyInsights.
         sbind (spreadOr (opt_prop emailSignals ''personalizedHooks'')) (\<lambda>personalizedHooks.
         sbind (spreadOr (opt_prop emailSignals ''currentChallenges'')) (\<lambda>currentChallenges.
         Inr (JObj
           [(''id'', JStr (''prospect_'' @ show_nat (index + 1))),
            (''name'',
               or_js (or_js recipientName (opt_prop discoveryPerson ''name''))
                 (JStr (''Person '' @ show_nat (index + 1)))),
            (''company'',
               or_js (or_js (opt_prop email ''recipientCompany'')
                        (opt_prop discoveryPerson ''company''))
                 (JStr ''Unknown Company'')),
            (''role'',
               or_js (or_js (opt_prop discoveryPerson ''role'') (opt_prop enrichedProfile ''role''))
                 (JStr ''Professional'')),
            (''location'',
               or_js (or_js (opt_prop discoveryPerson ''location'')
                        (opt_prop personalInfo ''location''))
                 (JStr [])),
            (''email'',
               or_js (or_js (or_js (opt_prop email ''recipientEmail'')
                               (opt_prop discoveryPerson ''email''))
                        (opt_prop personalInfo ''email''))
                 (JStr [])),
            (''linkedInUrl'',
               or_js (or_js (opt_prop discoveryPerson ''linkedinUrl'')
                        (opt_prop personalInfo ''linkedinUrl''))
                 JNull),
            (''companyUrl'',
               or_js (or_js (opt_prop discoveryPerson ''companyUrl'')
                        (opt_prop companyInfo ''companyUrl''))
                 JNull),
            (''imageUrl'', or_js (opt_prop discoveryPerson ''imageUrl'') JNull),
            (''message'',
               JObj [(''subject'', or_js (opt_prop email ''subject'') (JStr ''No subject available'')),
                     (''body'', or_js (opt_prop email ''body'') (JStr ''No message available'')),
                     (''personalization'', or_js (opt_prop email ''personalizationPoints'') (JArr [])),
                     (''confidence'', or_js (opt_prop email ''confidence'') (JNum 0)),
                     (''wordCount'', or_js (opt_prop email ''wordCount'') (JNum 0)),
                     (''emailType'', or_js (opt_prop email ''emailType'') (JStr ''unknown''))]),
            (''research'',
               JObj [(''insights'',
                        JArr (filter truthy (keyInsights @ personalizedHooks @ currentChallenges))),
                     (''painPoints'', or_js (opt_prop emailSignals ''painPoints'') (JArr [])),
                     (''opportunities'', or_js (opt_prop emailSignals ''opportunities'') (JArr [])),
                     (''companyInfo'', or_js companyInfo (JObj [])),
                     (''fundingStage'', or_js (opt_prop companyInfo ''fundingStage'') (JStr [])),
                     (''teamSize'', or_js (opt_prop companyInfo ''teamSize'') (JNum 0))]),
            (''confidence'',
               or_js (or_js (opt_prop email ''confidence'') (opt_prop enrichedProfile ''confidence''))
                 (JNum 0)),
            (''emailType'', or_js (opt_prop email ''emailType'') (JStr ''unknown'')),
            (''wordCount'', or_js (opt_prop email ''wordCount'') (JNum 0)),
            (''generatedAt'', JStr generatedAt)]))))))"

text \<open>
  \<^verbatim>\<open>emailData.forEach(...)\<close> inside the function's \<^verbatim>\<open>try\<close>: the prospects are pushed one
  by one, and the first callback that throws ends the loop in the \<^verbatim>\<open>catch\<close>, which
  only logs. The prospects pushed so far stay.
\<close>

fun buildAll :: "('a \<Rightarrow> js_error + json) \<Rightarrow> 'a list \<Rightarrow> json list" where
  "buildAll f [] = []"
| "buildAll f (x # xs) = (case f x of Inl e \<Rightarrow> [] | Inr p \<Rightarrow> p # buildAll f xs)"

text \<open>\<open>generatedAt i\<close> is the time string read while the prospect at index \<open>i\<close> is built.\<close>

definition transformCapturedDataToProspects :: "(nat \<Rightarrow> string) \<Rightarrow> captured \<Rightarrow> json list" where
  "transformCapturedDataToProspects generatedAt capturedData =
     (let emailData = or_js (capturedEmails capturedData) (JArr []);
          discoveryData = or_js (capturedDiscovery capturedData) (JArr []);
          enrichmentData = or_js (capturedEnrichment capturedData) (JArr [])
      in case emailData of
           JArr emails \<Rightarrow>
             if emails \<noteq> []
             then buildAll
                    (\<lambda>ie. prospectFrom (generatedAt (fst ie)) (fst ie) (snd ie)
                            (js_index discoveryData (fst ie)) (js_index enrichmentData (fst ie)))
                    (enumerate 0 emails)
             else []
         | _ \<Rightarrow> [])"

subsection \<open>The event stream\<close>

text \<open>
  What the handler writes to the response: the opening comment, \<^verbatim>\<open>event: message\<close> frames
  carrying a JSON value, and the \<^verbatim>\<open>event: done\<close> frame with \<^verbatim>\<open>[DONE]\<close>, after which
  \<^verbatim>\<open>res.end()\<close> is called.
\<close>

datatype chunk = Comment string | Message json | DoneSentinel

record sse =
  written :: "chunk list"
  ended :: bool

datatype reply = Preflight | JsonReply nat json | EventStream sse

record request =
  reqMethod :: string
  reqBody :: json

text \<open>
  The client's side. \<open>disconnectAt = Some k\<close>: the \<^verbatim>\<open>'close'\<close> or \<^verbatim>\<open>'end'\<close> hook of the
  request runs before the status update with index \<open>k\<close> is logged (for \<open>k\<close> the number of
  updates: after the last one and before the run settles); \<open>None\<close>: it does not run
  while the run is under way. The other fields are \<^verbatim>\<open>res.writable\<close> at the moments it
  is read: for the initial message, when update \<open>i\<close> is forwarded, when the outcome is
  sent, and when the timer calls \<^verbatim>\<open>endSSEStream\<close>.
\<close>

record connection =
  disconnectAt :: "nat option"
  writableAtStart :: bool
  writableAtUpdate :: "nat \<Rightarrow> bool"
  writableAtOutcome :: bool
  writableAtEnd :: bool

text \<open>
  What \<^verbatim>\<open>new MasterOrchestratorAgent(statusManager)\<close> and \<^verbatim>\<open>executeQuery(query)\<close> do: the
  status updates logged on the manager, in order, and how the call settles. A
  constructor that throws is a run that logs nothing and raises.
\<close>

record agent_run =
  logged :: "StatusUpdate list"
  settled :: "MasterExecutionResult outcome"

text \<open>
  The rest of the environment: \<^verbatim>\<open>Date.prototype.toISOString\<close>, the clock while prospect
  \<open>i\<close> is built, the value of
  \<^verbatim>\<open>prospects.reduce((sum, p) => sum + (p.confidence || 0), 0) / prospects.length\<close>, and
  what the orchestrator does with a query.
\<close>

record route_env =
  isoString :: "int \<Rightarrow> string"
  prospectClock :: "nat \<Rightarrow> int"
  averageOf :: "json list \<Rightarrow> json"
  agent :: "json \<Rightarrow> agent_run"

text \<open>\<^verbatim>\<open>sendSSEData\<close>; \<^verbatim>\<open>JSON.stringify\<close> and \<^verbatim>\<open>res.write\<close> are taken not to throw.\<close>

definition sendSSEData :: "bool \<Rightarrow> json \<Rightarrow> chunk list \<Rightarrow> chunk list" where
  "sendSSEData writable d out = (if writable then out @ [Message d] else out)"

definition endSSEStream :: "bool \<Rightarrow> chunk list \<Rightarrow> sse" where
  "endSSEStream writable out =
     (if writable then \<lparr>written = out @ [DoneSentinel], ended = True\<rparr>
      else \<lparr>written = out, ended = False\<rparr>)"

definition phaseMapping :: "(string \<times> string) list" where
  "phaseMapping =
     [(''planning'', ''planning''), (''discovery'', ''discovery''), (''enrichment'', ''research''),
      (''email_writing'', ''generation''), (''complete'', ''complete''), (''error'', ''error'')]"

definition initialUpdate :: json where
  "initialUpdate =
     JObj [(''type'', JStr ''status-update''), (''phase'', JStr ''planning''),
           (''message'', JStr ''Starting agent process...''), (''progress'', JNum 0),
           (''thinking'', JStr ''Initializing systems'')]"

definition frontendUpdate :: "StatusUpdate \<Rightarrow> json" where
  "frontendUpdate u =
     JObj [(''type'', JStr ''status-update''),
           (''phase'', JStr (case map_of phaseMapping (uphase u) of None \<Rightarrow> uphase u | Some p \<Rightarrow> p)),
           (''message'', JStr (message u)),
           (''progress'', case progress u of None \<Rightarrow> JUndefined | Some p \<Rightarrow> JNum p),
           (''thinking'', JStr (message u)),
           (''data'', udata u)]"

text \<open>\<open>responseSent\<close> when the update with index \<open>i\<close> is logged.\<close>

definition disconnectedBy :: "connection \<Rightarrow> nat \<Rightarrow> bool" where
  "disconnectedBy conn i = (case disconnectAt conn of None \<Rightarrow> False | Some k \<Rightarrow> k \<le> i)"

text \<open>The forwarding half of the \<^verbatim>\<open>'update'\<close> listener.\<close>

definition forward :: "connection \<Rightarrow> nat \<times> StatusUpdate \<Rightarrow> chunk list \<Rightarrow> chunk list" where
  "forward conn iu out =
     (if disconnectedBy conn (fst iu) then out
      else sendSSEData (writableAtUpdate conn (fst iu)) (frontendUpdate (snd iu)) out)"

definition executionPlan_json :: "ExecutionPlan \<Rightarrow> json" where
  "executionPlan_json p =
     JObj [(''intent'', JStr (intent p)),
           (''searchQueries'', JArr (map JStr (searchQueries p))),
           (''emailType'', JStr (emailType p)),
           (''userProfile'', userProfile_json (userProfile p)),
           (''targetCount'', JNum (of_nat (targetCount p)))]"

definition timing_json :: "Timing \<Rightarrow> json" where
  "timing_json t =
     JObj [(''total'', JStr (timing_total t)), (''discovery'', JStr (timing_discovery t)),
           (''enrichment'', JStr (timing_enrichment t)),
           (''emailWriting'', JStr (timing_emailWriting t))]"

text \<open>The \<^verbatim>\<open>final-result\<close> message built from the captured data and the master result.\<close>

definition finalUpdate :: "route_env \<Rightarrow> captured \<Rightarrow> MasterExecutionResult \<Rightarrow> json" where
  "finalUpdate env capturedData masterResult =
     (let prospects =
            transformCapturedDataToProspects (\<lambda>i. isoString env (prospectClock env i)) capturedData
      in JObj
           [(''type'', JStr ''final-result''),
            (''result'',
               JObj [(''success'', JBool (success masterResult)),
                     (''prospects'', JArr prospects),
                     (''timing'', timing_json (timing masterResult)),
                     (''sessionId'', JStr (resultSessionId masterResult)),
                     (''totalProspects'', JNum (of_nat (length prospects))),
                     (''averageConfidence'',
                        if prospects \<noteq> [] then averageOf env prospects else JNum 0),
                     (''metadata'',
                        JObj [(''executionPlan'',
                                 case executionPlan masterResult of
                                   None \<Rightarrow> JNull
                                 | Some p \<Rightarrow> executionPlan_json p),
                              (''attemptNumber'', JNum (of_nat (attemptNumber masterResult))),
                              (''timestamp'',
                                 JStr (isoString env (resultTimestamp masterResult))),
                              (''capturedDataSummary'',
                                 JObj [(''emails'',
                                          opt_prop (capturedEmails capturedData) ''length''),
                                       (''discovery'',
                                          opt_prop (capturedDiscovery capturedData) ''length''),
                                       (''enrichment'',
                                          opt_prop (capturedEnrichment capturedData)
                                            ''length'')])])])])"

text \<open>\<^verbatim>\<open>{ type: 'error', message: error.message || 'An unexpected error occurred' }\<close>\<close>

definition errorUpdate :: "js_error \<Rightarrow> json" where
  "errorUpdate e =
     JObj [(''type'', JStr ''error''),
           (''message'',
              or_js (JStr (error_message e)) (JStr ''An unexpected error occurred''))]"

text \<open>
  The handler from \<^verbatim>\<open>res.writeHead\<close> on, for a run that settles. The listener sees every
  update in the order it is logged. When the run has settled and the disconnect hook has
  run, the handler returns without writing; otherwise it sends the outcome, a
  \<^verbatim>\<open>final-result\<close> for a returned result and an \<^verbatim>\<open>error\<close> for an exception, and sets the
  timer that ends the stream.
\<close>

definition eventStream :: "route_env \<Rightarrow> connection \<Rightarrow> agent_run \<Rightarrow> sse" where
  "eventStream env conn run =
     (let out0 = [Comment ''connection established''];
          out1 = sendSSEData (writableAtStart conn) initialUpdate out0;
          out2 = fold (forward conn) (enumerate 0 (logged run)) out1;
          capturedData = fold capture (logged run) emptyCaptured
      in if disconnectedBy conn (length (logged run))
         then \<lparr>written = out2, ended = False\<rparr>
         else endSSEStream (writableAtEnd conn)
                (sendSSEData (writableAtOutcome conn)
                   (case settled run of
                      Returns masterResult \<Rightarrow> finalUpdate env capturedData masterResult
                    | Raises e \<Rightarrow> errorUpdate e)
                   out2))"

definition handler :: "route_env \<Rightarrow> connection \<Rightarrow> request \<Rightarrow> reply" where
  "handler env conn req =
     (if reqMethod req = ''OPTIONS'' then Preflight
      else if reqMethod req \<noteq> ''POST''
      then JsonReply 405 (JObj [(''error'', JStr ''Method not allowed'')])
      else if \<not> truthy (reqBody req)
      then JsonReply 400 (JObj [(''error'', JStr ''Request body is required'')])
      else if \<not> truthy (opt_prop (reqBody req) ''query'')
      then JsonReply 400 (JObj [(''error'', JStr ''Query is required'')])
      else EventStream (eventStream env conn (agent env (opt_prop (reqBody req) ''query''))))"

text \<open>
  The run of the orchestrator of the previous section on a string query, as the route
  sets it up: \<^verbatim>\<open>new StatusManager()\<close> without a session id and without an
  \<^verbatim>\<open>'error'\<close> listener.
\<close>

definition orchestratorRun :: "world \<Rightarrow> int \<times> string \<Rightarrow> string \<Rightarrow> agent_run" where
  "orchestratorRun w g q =
     (let r = executeQuery w orchestratorRetryAttempts q (start_run (new_StatusManager None g))
      in \<lparr>logged = updates (sm (snd r)),
          settled = (case fst r of Inl e \<Rightarrow> Raises e | Inr res \<Rightarrow> Returns res)\<rparr>)"

subsection \<open>The outcome event\<close>

text \<open>
  The frames that precede the outcome: the opening comment and \<^verbatim>\<open>status-update\<close>
  messages.
\<close>

definition statusFrame :: "chunk \<Rightarrow> bool" where
  "statusFrame c =
     (case c of
        Comment s \<Rightarrow> True
      | Message d \<Rightarrow> opt_prop d ''type'' = JStr ''status-update''
      | DoneSentinel \<Rightarrow> False)"

definition outcomeOf :: "route_env \<Rightarrow> agent_run \<Rightarrow> json" where
  "outcomeOf env run =
     (case settled run of
        Returns masterResult \<Rightarrow> finalUpdate env (fold capture (logged run) emptyCaptured) masterResult
      | Raises e \<Rightarrow> errorUpdate e)"

lemma type_frontendUpdate: "opt_prop (frontendUpdate u) ''type'' = JStr ''status-update''"
  by (simp add: frontendUpdate_def opt_prop_def)

lemma type_finalUpdate: "opt_prop (finalUpdate env c m) ''type'' = JStr ''final-result''"
  by (simp add: finalUpdate_def opt_prop_def Let_def)

lemma type_errorUpdate: "opt_prop (errorUpdate e) ''type'' = JStr ''error''"
  by (simp add: errorUpdate_def opt_prop_def)

lemma type_outcomeOf:
  "opt_prop (outcomeOf env run) ''type'' = JStr ''final-result''
   \<or> opt_prop (outcomeOf env run) ''type'' = JStr ''error''"
  by (cases "settled run") (simp_all add: outcomeOf_def type_finalUpdate type_errorUpdate)

lemma forward_frames:
  "list_all statusFrame out \<Longrightarrow> list_all statusFrame (forward conn iu out)"
  by (simp add: forward_def sendSSEData_def statusFrame_def type_frontendUpdate)

lemma fold_forward_frames:
  "list_all statusFrame out \<Longrightarrow> list_all statusFrame (fold (forward conn) ius out)"
proof (induction ius arbitrary: out)
  case Nil
  then show ?case by simp
next
  case (Cons iu ius)
  from Cons.prems have "list_all statusFrame (forward conn iu out)" by (rule forward_frames)
  then have "list_all statusFrame (fold (forward conn) ius (forward conn iu out))"
    by (rule Cons.IH)
  then show ?case by simp
qed

lemma initial_frames:
  "list_all statusFrame
     (sendSSEData b initialUpdate [Comment ''connection established''])"
  by (simp add: sendSSEData_def statusFrame_def initialUpdate_def opt_prop_def)

lemma forward_connected:
  assumes "disconnectAt conn = None" and "\<forall>i. writableAtUpdate conn i"
  shows "fold (forward conn) (enumerate n us) out = out @ map (\<lambda>u. Message (frontendUpdate u)) us"
  using assms
proof (induction us arbitrary: n out)
  case Nil
  show ?case by simp
next
  case (Cons u us)
  have "forward conn (n, u) out = out @ [Message (frontendUpdate u)]"
    using Cons.prems by (simp add: forward_def disconnectedBy_def sendSSEData_def)
  with Cons.IH [OF Cons.prems, of "Suc n" "out @ [Message (frontendUpdate u)]"]
  show ?case by simp
qed

text \<open>
  C9. Take a request that passes validation (a \<^verbatim>\<open>POST\<close> with a body and a query) and a
  client that stays connected: the disconnect hook does not run, and the response is
  writable when the outcome is sent and when the stream is ended. Then, however the
  orchestrator's run settles, the handler answers with an event stream that consists
  of the comment and status-update frames, then one frame whose type is
  \<^verbatim>\<open>final-result\<close> (the run returned) or \<^verbatim>\<open>error\<close> (the run threw), then the
  \<^verbatim>\<open>done\<close> frame, and the stream is ended. If the response was writable all along, the
  status-update frames are the initial message and one frame for every logged update.
\<close>

theorem outcome_event_before_done:
  assumes "reqMethod req = ''POST''"
      and "truthy (reqBody req)"
      and "truthy (opt_prop (reqBody req) ''query'')"
      and "disconnectAt conn = None"
      and "writableAtOutcome conn"
      and "writableAtEnd conn"
  shows "\<exists>pre. handler env conn req
              = EventStream
                  \<lparr>written =
                     pre @ [Message (outcomeOf env (agent env (opt_prop (reqBody req) ''query''))),
                            DoneSentinel],
                   ended = True\<rparr>
           \<and> list_all statusFrame pre
           \<and> (opt_prop (outcomeOf env (agent env (opt_prop (reqBody req) ''query''))) ''type''
                = JStr ''final-result''
              \<or> opt_prop (outcomeOf env (agent env (opt_prop (reqBody req) ''query''))) ''type''
                = JStr ''error'')
           \<and> (writableAtStart conn \<and> (\<forall>i. writableAtUpdate conn i) \<longrightarrow>
                pre = [Comment ''connection established'', Message initialUpdate]
                      @ map (\<lambda>u. Message (frontendUpdate u))
                          (logged (agent env (opt_prop (reqBody req) ''query''))))"
proof -
  let ?run = "agent env (opt_prop (reqBody req) ''query'')"
  let ?out1 = "sendSSEData (writableAtStart conn) initialUpdate [Comment ''connection established'']"
  let ?pre = "fold (forward conn) (enumerate 0 (logged ?run)) ?out1"
  have nd: "\<not> disconnectedBy conn (length (logged ?run))"
    using assms(4) by (simp add: disconnectedBy_def)
  have "reqMethod req \<noteq> ''OPTIONS''"
    using assms(1) by simp
  then have h: "handler env conn req
           = EventStream \<lparr>written = ?pre @ [Message (outcomeOf env ?run), DoneSentinel],
                          ended = True\<rparr>"
    using assms(1,2,3,5,6) nd
    by (simp add: handler_def eventStream_def Let_def endSSEStream_def sendSSEData_def
        outcomeOf_def)
  have fr: "list_all statusFrame ?pre"
    using initial_frames by (rule fold_forward_frames)
  have full: "?pre = [Comment ''connection established'', Message initialUpdate]
                     @ map (\<lambda>u. Message (frontendUpdate u)) (logged ?run)"
    if "writableAtStart conn" and "\<forall>i. writableAtUpdate conn i"
    using forward_connected [OF assms(4) that(2), of 0 "logged ?run" ?out1] that(1)
    by (simp add: sendSSEData_def)
  from h fr type_outcomeOf [of env ?run] full show ?thesis
    by blast
qed

text \<open>
  Outside that claim: once the disconnect hook has run, the handler returns without an
  outcome frame and without ending the stream.
\<close>

lemma disconnected_stream_stays_open:
  assumes "disconnectAt conn = Some k" and "k \<le> length (logged run)"
  shows "\<not> ended (eventStream env conn run)
         \<and> list_all statusFrame (written (eventStream env conn run))"
proof -
  have d: "disconnectedBy conn (length (logged run))"
    using assms by (simp add: disconnectedBy_def)
  have "list_all statusFrame
          (fold (forward conn) (enumerate 0 (logged run))
             (sendSSEData (writableAtStart conn) initialUpdate [Comment ''connection established'']))"
    using initial_frames by (rule fold_forward_frames)
  with d show ?thesis
    by (simp add: eventStream_def Let_def)
qed

subsection \<open>Prospects by position\<close>

fun spreadable :: "json \<Rightarrow> bool" where
  "spreadable (JArr xs) = True"
| "spreadable (JStr s) = True"
| "spreadable v = (\<not> truthy v)"

text \<open>
  What the callback needs of the email at a position and of the enrichment entry at the
  same position in order not to throw: the email is not \<^verbatim>\<open>null\<close>, and each of the three
  insight lists is absent (falsy), an array or a string.
\<close>

definition wellShaped :: "json \<Rightarrow> json \<Rightarrow> bool" where
  "wellShaped email enrichmentEntry =
     (let enrichedProfile = or_js enrichmentEntry (JObj []);
          emailSignals = opt_prop enrichedProfile ''emailSignals''
      in \<not> nullish email
         \<and> spreadable (opt_prop enrichedProfile ''keyInsights'')
         \<and> spreadable (opt_prop emailSignals ''personalizedHooks'')
         \<and> spreadable (opt_prop emailSignals ''currentChallenges''))"

text \<open>The captured emails as a list: the entries of the array, and none for any other value.\<close>

definition emailEntries :: "captured \<Rightarrow> json list" where
  "emailEntries c = (case capturedEmails c of JArr emails \<Rightarrow> emails | _ \<Rightarrow> [])"

definition capturedDiscoveryList :: "captured \<Rightarrow> json list" where
  "capturedDiscoveryList c = (case capturedDiscovery c of JArr people \<Rightarrow> people | _ \<Rightarrow> [])"

lemma spreadOr_cases:
  "spreadable v \<Longrightarrow> \<exists>xs. spreadOr v = Inr xs"
  "\<not> spreadable v \<Longrightarrow> spreadOr v = Inl TypeError"
  by (cases v; simp add: spreadOr_def or_js_def)+

lemma get_prop_nullish: "nullish v \<Longrightarrow> get_prop v k = Inl TypeError"
  by (auto simp: nullish_def)

lemma prospectFrom_wellShaped:
  "(\<exists>p. prospectFrom ga i email d e = Inr p) \<longleftrightarrow> wellShaped email e"
proof (cases "nullish email")
  case True
  then show ?thesis
    by (simp add: prospectFrom_def wellShaped_def Let_def get_prop_nullish sbind_def)
next
  case False
  from get_prop_not_nullish [OF False] obtain rn where rn: "get_prop email ''recipientName'' = Inr rn"
    by blast
  let ?ep = "or_js e (JObj [])"
  let ?es = "opt_prop ?ep ''emailSignals''"
  show ?thesis
  proof (cases "spreadable (opt_prop ?ep ''keyInsights'')")
    case False
    with rn \<open>\<not> nullish email\<close> show ?thesis
      by (simp add: prospectFrom_def wellShaped_def Let_def sbind_def spreadOr_cases(2))
  next
    case k: True
    from spreadOr_cases(1) [OF k] obtain ks where ks: "spreadOr (opt_prop ?ep ''keyInsights'') = Inr ks"
      by blast
    show ?thesis
    proof (cases "spreadable (opt_prop ?es ''personalizedHooks'')")
      case False
      with rn ks k \<open>\<not> nullish email\<close> show ?thesis
        by (simp add: prospectFrom_def wellShaped_def Let_def sbind_def spreadOr_cases(2))
    next
      case h: True
      from spreadOr_cases(1) [OF h]
      obtain hs where hs: "spreadOr (opt_prop ?es ''personalizedHooks'') = Inr hs"
        by blast
      show ?thesis
      proof (cases "spreadable (opt_prop ?es ''currentChallenges'')")
        case False
        with rn ks hs k h \<open>\<not> nullish email\<close> show ?thesis
          by (simp add: prospectFrom_def wellShaped_def Let_def sbind_def spreadOr_cases(2))
      next
        case c: True
        from spreadOr_cases(1) [OF c]
        obtain cs where cs: "spreadOr (opt_prop ?es ''currentChallenges'') = Inr cs"
          by blast
        from rn ks hs cs k h c \<open>\<not> nullish email\<close> show ?thesis
          by (simp add: prospectFrom_def wellShaped_def Let_def sbind_def)
      qed
    qed
  qed
qed

lemma buildAll_length: "length (buildAll f xs) \<le> length xs"
  by (induction xs) (simp_all split: sum.splits)

lemma buildAll_nth:
  "i < length (buildAll f xs) \<Longrightarrow> f (xs ! i) = Inr (buildAll f xs ! i)"
proof (induction xs arbitrary: i)
  case Nil
  then show ?case by simp
next
  case (Cons x xs)
  show ?case
  proof (cases "f x")
    case (Inl e)
    with Cons.prems show ?thesis by simp
  next
    case (Inr p)
    show ?thesis
    proof (cases i)
      case 0
      with Inr show ?thesis by simp
    next
      case (Suc j)
      with Cons.prems Inr have "j < length (buildAll f xs)" by simp
      from Cons.IH [OF this] Suc Inr show ?thesis by simp
    qed
  qed
qed

lemma buildAll_full:
  "length (buildAll f xs) = length xs \<longleftrightarrow> list_all (\<lambda>x. \<exists>p. f x = Inr p) xs"
proof (induction xs)
  case Nil
  show ?case by simp
next
  case (Cons x xs)
  show ?case
  proof (cases "f x")
    case (Inl e)
    then show ?thesis by simp
  next
    case (Inr p)
    with Cons.IH show ?thesis by simp
  qed
qed

lemma buildAll_stops:
  "length (buildAll f xs) < length xs \<Longrightarrow> \<exists>e. f (xs ! length (buildAll f xs)) = Inl e"
proof (induction xs)
  case Nil
  then show ?case by simp
next
  case (Cons x xs)
  show ?case
  proof (cases "f x")
    case (Inl e)
    then show ?thesis by simp
  next
    case (Inr p)
    with Cons.prems have "length (buildAll f xs) < length xs" by simp
    from Cons.IH [OF this] Inr show ?thesis by simp
  qed
qed

lemma transform_buildAll:
  "transformCapturedDataToProspects ga c
   = buildAll (\<lambda>ie. prospectFrom (ga (fst ie)) (fst ie) (snd ie)
                     (entryAt (capturedDiscovery c) (fst ie))
                     (entryAt (capturedEnrichment c) (fst ie)))
       (enumerate 0 (emailEntries c))"
  by (cases "capturedEmails c")
    (simp_all add: transformCapturedDataToProspects_def emailEntries_def entryAt_def or_js_def
      Let_def)

lemma entryAt_beyond: "length ds \<le> i \<Longrightarrow> entryAt (JArr ds) i = JUndefined"
  by (simp add: entryAt_def or_js_def)

lemma prospects_of_finalUpdate:
  "opt_prop (opt_prop (finalUpdate env c m) ''result'') ''prospects''
   = JArr (transformCapturedDataToProspects (\<lambda>i. isoString env (prospectClock env i)) c)"
  by (simp add: finalUpdate_def opt_prop_def Let_def)

lemma buildAll_length_eq:
  "k \<le> length xs \<Longrightarrow> (\<forall>j<k. \<exists>p. f (xs ! j) = Inr p)
     \<Longrightarrow> (k < length xs \<longrightarrow> (\<exists>e. f (xs ! k) = Inl e)) \<Longrightarrow> length (buildAll f xs) = k"
proof (induction xs arbitrary: k)
  case Nil
  then show ?case by simp
next
  case (Cons x xs)
  show ?case
  proof (cases k)
    case 0
    with Cons.prems(3) obtain e where "f x = Inl e" by auto
    with 0 show ?thesis by simp
  next
    case (Suc k')
    from Cons.prems(2) Suc obtain p where p: "f x = Inr p" by force
    have a: "k' \<le> length xs" using Cons.prems(1) Suc by simp
    have b: "\<forall>j<k'. \<exists>p. f (xs ! j) = Inr p"
    proof (intro allI impI)
      fix j assume "j < k'"
      then have "Suc j < k" using Suc by simp
      with Cons.prems(2) have "\<exists>p. f ((x # xs) ! Suc j) = Inr p" by blast
      then show "\<exists>p. f (xs ! j) = Inr p" by simp
    qed
    have c: "k' < length xs \<longrightarrow> (\<exists>e. f (xs ! k') = Inl e)"
      using Cons.prems(3) Suc by simp
    from Cons.IH [OF a b c] p Suc show ?thesis by simp
  qed
qed

lemma opt_prop_get_prop: "get_prop v k = Inr x \<Longrightarrow> opt_prop v k = x"
  by (simp add: opt_prop_def)

lemma prospectFrom_build:
  "prospectFrom (ga i) i e d en = Inr p \<Longrightarrow> wellShaped e en"
  using prospectFrom_wellShaped [of "ga i" i e d en] by blast

lemma transform_length:
  "length (transformCapturedDataToProspects ga c) \<le> length (emailEntries c)"
  using buildAll_length [of _ "enumerate 0 (emailEntries c)"]
  by (simp add: transform_buildAll)

lemma transform_nth:
  assumes "i < length (transformCapturedDataToProspects ga c)"
  shows "prospectFrom (ga i) i (emailEntries c ! i) (entryAt (capturedDiscovery c) i)
           (entryAt (capturedEnrichment c) i)
         = Inr (transformCapturedDataToProspects ga c ! i)"
proof -
  let ?f = "\<lambda>ie. prospectFrom (ga (fst ie)) (fst ie) (snd ie)
                   (entryAt (capturedDiscovery c) (fst ie))
                   (entryAt (capturedEnrichment c) (fst ie))"
  let ?xs = "enumerate 0 (emailEntries c)"
  from assms have i: "i < length (buildAll ?f ?xs)" by (simp add: transform_buildAll)
  have "length (buildAll ?f ?xs) \<le> length ?xs" by (rule buildAll_length)
  with i have il: "i < length (emailEntries c)" by simp
  from buildAll_nth [OF i] have "?f (?xs ! i) = Inr (buildAll ?f ?xs ! i)" .
  with il show ?thesis by (simp add: transform_buildAll nth_enumerate_eq)
qed

lemma transform_full:
  "length (transformCapturedDataToProspects ga c) = length (emailEntries c)
   \<longleftrightarrow> list_all (\<lambda>ie. wellShaped (snd ie) (entryAt (capturedEnrichment c) (fst ie)))
         (enumerate 0 (emailEntries c))"
  using buildAll_full
    [of "\<lambda>ie. prospectFrom (ga (fst ie)) (fst ie) (snd ie)
                 (entryAt (capturedDiscovery c) (fst ie))
                 (entryAt (capturedEnrichment c) (fst ie))"
        "enumerate 0 (emailEntries c)"]
  by (simp add: transform_buildAll prospectFrom_wellShaped)

lemma transform_stops:
  assumes "length (transformCapturedDataToProspects ga c) < length (emailEntries c)"
  shows "\<not> wellShaped (emailEntries c ! length (transformCapturedDataToProspects ga c))
             (entryAt (capturedEnrichment c) (length (transformCapturedDataToProspects ga c)))"
proof -
  let ?f = "\<lambda>ie. prospectFrom (ga (fst ie)) (fst ie) (snd ie)
                   (entryAt (capturedDiscovery c) (fst ie))
                   (entryAt (capturedEnrichment c) (fst ie))"
  let ?xs = "enumerate 0 (emailEntries c)"
  let ?n = "length (buildAll ?f ?xs)"
  from assms have lt: "?n < length ?xs" by (simp add: transform_buildAll)
  from buildAll_stops [OF lt] obtain err where "?f (?xs ! ?n) = Inl err" by blast
  with lt have "prospectFrom (ga ?n) ?n (emailEntries c ! ?n) (entryAt (capturedDiscovery c) ?n)
                  (entryAt (capturedEnrichment c) ?n) = Inl err"
    by (simp add: nth_enumerate_eq)
  then have "\<not> (\<exists>p. prospectFrom (ga ?n) ?n (emailEntries c ! ?n)
                        (entryAt (capturedDiscovery c) ?n)
                        (entryAt (capturedEnrichment c) ?n) = Inr p)"
    by simp
  then have "\<not> wellShaped (emailEntries c ! ?n) (entryAt (capturedEnrichment c) ?n)"
    by (simp add: prospectFrom_wellShaped)
  then show ?thesis by (simp add: transform_buildAll)
qed

text \<open>
  The fields of a prospect whose discovery entry and enrichment entry are both missing:
  what the email gives, and the fixed defaults.
\<close>

definition defaultsProspect :: "string \<Rightarrow> nat \<Rightarrow> json \<Rightarrow> json" where
  "defaultsProspect generatedAt index email =
     JObj
       [(''id'', JStr (''prospect_'' @ show_nat (index + 1))),
        (''name'',
           or_js (opt_prop email ''recipientName'') (JStr (''Person '' @ show_nat (index + 1)))),
        (''company'', or_js (opt_prop email ''recipientCompany'') (JStr ''Unknown Company'')),
        (''role'', JStr ''Professional''),
        (''location'', JStr []),
        (''email'', or_js (opt_prop email ''recipientEmail'') (JStr [])),
        (''linkedInUrl'', JNull),
        (''companyUrl'', JNull),
        (''imageUrl'', JNull),
        (''message'',
           JObj [(''subject'', or_js (opt_prop email ''subject'') (JStr ''No subject available'')),
                 (''body'', or_js (opt_prop email ''body'') (JStr ''No message available'')),
                 (''personalization'', or_js (opt_prop email ''personalizationPoints'') (JArr [])),
                 (''confidence'', or_js (opt_prop email ''confidence'') (JNum 0)),
                 (''wordCount'', or_js (opt_prop email ''wordCount'') (JNum 0)),
                 (''emailType'', or_js (opt_prop email ''emailType'') (JStr ''unknown''))]),
        (''research'',
           JObj [(''insights'', JArr []), (''painPoints'', JArr []), (''opportunities'', JArr []),
                 (''companyInfo'', JObj []), (''fundingStage'', JStr []), (''teamSize'', JNum 0)]),
        (''confidence'', or_js (opt_prop email ''confidence'') (JNum 0)),
        (''emailType'', or_js (opt_prop email ''emailType'') (JStr ''unknown'')),
        (''wordCount'', or_js (opt_prop email ''wordCount'') (JNum 0)),
        (''generatedAt'', JStr generatedAt)]"

lemma or_js_undefined [simp]: "or_js (or_js a JUndefined) b = or_js a b"
  by (simp add: or_js_def)

lemma opt_prop_empty [simp]: "opt_prop (JObj []) k = JUndefined" "opt_prop JUndefined k = JUndefined"
  by (simp_all add: opt_prop_def)

lemma prospectFrom_defaults:
  assumes "\<not> nullish email"
  shows "prospectFrom t j email JUndefined JUndefined = Inr (defaultsProspect t j email)"
proof -
  from get_prop_not_nullish [OF assms]
  obtain rn where rn: "get_prop email ''recipientName'' = Inr rn" by blast
  then have rn': "opt_prop email ''recipientName'' = rn" by (rule opt_prop_get_prop)
  have e: "or_js JUndefined (JObj []) = JObj []" by (simp add: or_js_def)
  have s: "spreadOr JUndefined = Inr []" by (simp add: spreadOr_def or_js_def)
  have u: "or_js JUndefined b = b" for b by (simp add: or_js_def)
  show ?thesis
    unfolding prospectFrom_def defaultsProspect_def Let_def e
    by (simp add: rn rn' [symmetric] sbind_def s u)
qed

lemma opt_prop_JObj:
  "opt_prop (JObj kvs) k = (case map_of kvs k of None \<Rightarrow> JUndefined | Some v \<Rightarrow> v)"
  by (simp add: opt_prop_def)

lemma prospect_fields:
  assumes "wellShaped email en"
  shows "\<exists>p. prospectFrom t j email d en = Inr p
           \<and> opt_prop p ''id'' = JStr (''prospect_'' @ show_nat (j + 1))
           \<and> opt_prop p ''name''
               = or_js (or_js (opt_prop email ''recipientName'') (opt_prop (or_js d (JObj [])) ''name''))
                   (JStr (''Person '' @ show_nat (j + 1)))
           \<and> opt_prop p ''company''
               = or_js (or_js (opt_prop email ''recipientCompany'')
                          (opt_prop (or_js d (JObj [])) ''company''))
                   (JStr ''Unknown Company'')
           \<and> opt_prop p ''role''
               = or_js (or_js (opt_prop (or_js d (JObj [])) ''role'')
                          (opt_prop (or_js en (JObj [])) ''role''))
                   (JStr ''Professional'')
           \<and> opt_prop p ''email''
               = or_js (or_js (or_js (opt_prop email ''recipientEmail'')
                                 (opt_prop (or_js d (JObj [])) ''email''))
                          (opt_prop (opt_prop (or_js en (JObj [])) ''personalInfo'') ''email''))
                   (JStr [])
           \<and> opt_prop (opt_prop p ''message'') ''body''
               = or_js (opt_prop email ''body'') (JStr ''No message available'')"
proof -
  let ?ep = "or_js en (JObj [])"
  let ?es = "opt_prop ?ep ''emailSignals''"
  from assms have nn: "\<not> nullish email"
    and k: "spreadable (opt_prop ?ep ''keyInsights'')"
    and h: "spreadable (opt_prop ?es ''personalizedHooks'')"
    and c: "spreadable (opt_prop ?es ''currentChallenges'')"
    by (simp_all add: wellShaped_def Let_def)
  from get_prop_not_nullish [OF nn]
  obtain rn where rn: "get_prop email ''recipientName'' = Inr rn" by blast
  then have rn': "opt_prop email ''recipientName'' = rn" by (rule opt_prop_get_prop)
  from spreadOr_cases(1) [OF k] obtain ks where ks: "spreadOr (opt_prop ?ep ''keyInsights'') = Inr ks"
    by blast
  from spreadOr_cases(1) [OF h] obtain hs where hs: "spreadOr (opt_prop ?es ''personalizedHooks'') = Inr hs"
    by blast
  from spreadOr_cases(1) [OF c] obtain cs where cs: "spreadOr (opt_prop ?es ''currentChallenges'') = Inr cs"
    by blast
  show ?thesis
    unfolding prospectFrom_def Let_def
    by (simp add: rn rn' ks hs cs sbind_def opt_prop_JObj)
qed

text \<open>
  C10, amended. The prospect list is built by position from the entries of the captured
  email array (none when the captured value is not an array). It holds the prospects for
  the positions before the first one whose email or enrichment entry is not well shaped:
  it is never longer than the email array, and empty when there are no email entries; its
  entry at position \<open>i\<close> is the prospect built from email \<open>i\<close>, discovery entry \<open>i\<close> and
  enrichment entry \<open>i\<close>, which are well shaped; it has one prospect per email exactly
  when every position is well shaped, and otherwise stops at the first position that is
  not. In a prospect the email's value comes first, then the discovery entry's, then the
  enrichment entry's, then a fixed default (shown for the id, name, company, role, email
  address and message body). An index beyond the end of the discovery or enrichment
  array gives a missing entry, and with both entries missing the prospect holds the
  email's fields and the fixed defaults. This list is the \<open>prospects\<close> field of the
  \<^verbatim>\<open>final-result\<close> message.
\<close>

theorem prospects_by_position:
  "length (transformCapturedDataToProspects ga c) \<le> length (emailEntries c)
   \<and> (emailEntries c = [] \<longrightarrow> transformCapturedDataToProspects ga c = [])
   \<and> (\<forall>i < length (transformCapturedDataToProspects ga c).
         prospectFrom (ga i) i (emailEntries c ! i) (entryAt (capturedDiscovery c) i)
           (entryAt (capturedEnrichment c) i)
         = Inr (transformCapturedDataToProspects ga c ! i)
         \<and> wellShaped (emailEntries c ! i) (entryAt (capturedEnrichment c) i))
   \<and> (length (transformCapturedDataToProspects ga c) = length (emailEntries c)
        \<longleftrightarrow> list_all (\<lambda>ie. wellShaped (snd ie) (entryAt (capturedEnrichment c) (fst ie)))
              (enumerate 0 (emailEntries c)))
   \<and> (length (transformCapturedDataToProspects ga c) < length (emailEntries c) \<longrightarrow>
         \<not> wellShaped (emailEntries c ! length (transformCapturedDataToProspects ga c))
             (entryAt (capturedEnrichment c) (length (transformCapturedDataToProspects ga c))))
   \<and> (wellShaped email en \<longrightarrow>
         (\<exists>p. prospectFrom t j email d en = Inr p
            \<and> opt_prop p ''id'' = JStr (''prospect_'' @ show_nat (j + 1))
            \<and> opt_prop p ''name''
                = or_js (or_js (opt_prop email ''recipientName'')
                           (opt_prop (or_js d (JObj [])) ''name''))
                    (JStr (''Person '' @ show_nat (j + 1)))
            \<and> opt_prop p ''company''
                = or_js (or_js (opt_prop email ''recipientCompany'')
                           (opt_prop (or_js d (JObj [])) ''company''))
                    (JStr ''Unknown Company'')
            \<and> opt_prop p ''role''
                = or_js (or_js (opt_prop (or_js d (JObj [])) ''role'')
                           (opt_prop (or_js en (JObj [])) ''role''))
                    (JStr ''Professional'')
            \<and> opt_prop p ''email''
                = or_js (or_js (or_js (opt_prop email ''recipientEmail'')
                                  (opt_prop (or_js d (JObj [])) ''email''))
                           (opt_prop (opt_prop (or_js en (JObj [])) ''personalInfo'') ''email''))
                    (JStr [])
            \<and> opt_prop (opt_prop p ''message'') ''body''
                = or_js (opt_prop email ''body'') (JStr ''No message available'')))
   \<and> (length ds \<le> j \<longrightarrow> entryAt (JArr ds) j = JUndefined)
   \<and> (\<not> nullish email \<longrightarrow>
         prospectFrom t j email JUndefined JUndefined = Inr (defaultsProspect t j email))
   \<and> opt_prop (opt_prop (finalUpdate env c m) ''result'') ''prospects''
       = JArr (transformCapturedDataToProspects (\<lambda>i. isoString env (prospectClock env i)) c)"
proof (intro conjI allI impI)
  show "length (transformCapturedDataToProspects ga c) \<le> length (emailEntries c)"
    by (rule transform_length)
next
  assume "emailEntries c = []"
  with transform_length [of ga c] show "transformCapturedDataToProspects ga c = []"
    by simp
next
  fix i assume "i < length (transformCapturedDataToProspects ga c)"
  then show "prospectFrom (ga i) i (emailEntries c ! i) (entryAt (capturedDiscovery c) i)
               (entryAt (capturedEnrichment c) i)
             = Inr (transformCapturedDataToProspects ga c ! i)"
    by (rule transform_nth)
next
  fix i assume "i < length (transformCapturedDataToProspects ga c)"
  then have "prospectFrom (ga i) i (emailEntries c ! i) (entryAt (capturedDiscovery c) i)
               (entryAt (capturedEnrichment c) i)
             = Inr (transformCapturedDataToProspects ga c ! i)"
    by (rule transform_nth)
  then show "wellShaped (emailEntries c ! i) (entryAt (capturedEnrichment c) i)"
    by (rule prospectFrom_build)
next
  show "length (transformCapturedDataToProspects ga c) = length (emailEntries c)
        \<longleftrightarrow> list_all (\<lambda>ie. wellShaped (snd ie) (entryAt (capturedEnrichment c) (fst ie)))
              (enumerate 0 (emailEntries c))"
    by (rule transform_full)
next
  assume "length (transformCapturedDataToProspects ga c) < length (emailEntries c)"
  then show "\<not> wellShaped (emailEntries c ! length (transformCapturedDataToProspects ga c))
               (entryAt (capturedEnrichment c) (length (transformCapturedDataToProspects ga c)))"
    by (rule transform_stops)
next
  assume "wellShaped email en"
  then show "\<exists>p. prospectFrom t j email d en = Inr p
            \<and> opt_prop p ''id'' = JStr (''prospect_'' @ show_nat (j + 1))
            \<and> opt_prop p ''name''
                = or_js (or_js (opt_prop email ''recipientName'')
                           (opt_prop (or_js d (JObj [])) ''name''))
                    (JStr (''Person '' @ show_nat (j + 1)))
            \<and> opt_prop p ''company''
                = or_js (or_js (opt_prop email ''recipientCompany'')
                           (opt_prop (or_js d (JObj [])) ''company''))
                    (JStr ''Unknown Company'')
            \<and> opt_prop p ''role''
                = or_js (or_js (opt_prop (or_js d (JObj [])) ''role'')
                           (opt_prop (or_js en (JObj [])) ''role''))
                    (JStr ''Professional'')
            \<and> opt_prop p ''email''
                = or_js (or_js (or_js (opt_prop email ''recipientEmail'')
                                  (opt_prop (or_js d (JObj [])) ''email''))
                           (opt_prop (opt_prop (or_js en (JObj [])) ''personalInfo'') ''email''))
                    (JStr [])
            \<and> opt_prop (opt_prop p ''message'') ''body''
                = or_js (opt_prop email ''body'') (JStr ''No message available'')"
    by (rule prospect_fields)
next
  assume "length ds \<le> j"
  then show "entryAt (JArr ds) j = JUndefined" by (rule entryAt_beyond)
next
  assume "\<not> nullish email"
  then show "prospectFrom t j email JUndefined JUndefined = Inr (defaultsProspect t j email)"
    by (rule prospectFrom_defaults)
next
  show "opt_prop (opt_prop (finalUpdate env c m) ''result'') ''prospects''
        = JArr (transformCapturedDataToProspects (\<lambda>i. isoString env (prospectClock env i)) c)"
    by (rule prospects_of_finalUpdate)
qed

subsection \<open>Concrete requests and captured data\<close>

definition sampleMail :: json where
  "sampleMail =
     JObj [(''recipientName'', JStr ''Sam Lee''), (''recipientCompany'', JStr ''Acme''),
           (''subject'', JStr ''Hello''), (''body'', JStr ''Hi Sam'')]"

definition bareMail :: json where
  "bareMail = JObj [(''subject'', JStr ''Quick question''), (''body'', JStr ''Hi there'')]"

definition samplePerson :: json where
  "samplePerson =
     JObj [(''name'', JStr ''Sam Lee''), (''company'', JStr ''Acme''), (''role'', JStr ''CEO'')]"

text \<open>Two emails, one discovered person, no enriched profile.\<close>

definition twoEmails :: captured where
  "twoEmails =
     \<lparr>capturedEmails = JArr [sampleMail, bareMail], capturedDiscovery = JArr [samplePerson],
      capturedEnrichment = JArr []\<rparr>"

theorem prospects_by_position_witness:
  "list_all (\<lambda>ie. wellShaped (snd ie) (entryAt (capturedEnrichment twoEmails) (fst ie)))
     (enumerate 0 (emailEntries twoEmails))
   \<and> length (capturedDiscoveryList twoEmails) = 1
   \<and> length (transformCapturedDataToProspects (\<lambda>i. ''t'') twoEmails) = 2
   \<and> transformCapturedDataToProspects (\<lambda>i. ''t'') twoEmails ! 1 = defaultsProspect ''t'' 1 bareMail
   \<and> opt_prop (defaultsProspect ''t'' 1 bareMail) ''company'' = JStr ''Unknown Company''"
proof -
  have ee: "emailEntries twoEmails = [sampleMail, bareMail]"
    by (simp add: emailEntries_def twoEmails_def)
  have en: "capturedEnrichment twoEmails = JArr []" and di: "capturedDiscovery twoEmails = JArr [samplePerson]"
    by (simp_all add: twoEmails_def)
  have u: "entryAt (JArr []) i = JUndefined" for i
    by (simp add: entryAt_def or_js_def)
  have w1: "wellShaped sampleMail JUndefined" and w2: "wellShaped bareMail JUndefined"
    by (simp_all add: wellShaped_def sampleMail_def bareMail_def nullish_def or_js_def)
  have ws: "list_all (\<lambda>ie. wellShaped (snd ie) (entryAt (capturedEnrichment twoEmails) (fst ie)))
              (enumerate 0 (emailEntries twoEmails))"
    by (simp add: ee en u w1 w2)
  note T = prospects_by_position
             [where ga = "\<lambda>i. ''t''" and c = twoEmails and ds = "[samplePerson]" and j = 1
                and email = bareMail and t = "''t''"]
  from T ws have len: "length (transformCapturedDataToProspects (\<lambda>i. ''t'') twoEmails) = 2"
    by (simp add: ee)
  from T len have "prospectFrom ''t'' 1 (emailEntries twoEmails ! 1)
                     (entryAt (capturedDiscovery twoEmails) 1) (entryAt (capturedEnrichment twoEmails) 1)
                   = Inr (transformCapturedDataToProspects (\<lambda>i. ''t'') twoEmails ! 1)"
    by simp
  moreover from T have "entryAt (JArr [samplePerson]) 1 = JUndefined" by simp
  moreover have "\<not> nullish bareMail" by (simp add: bareMail_def nullish_def)
  with T have "prospectFrom ''t'' 1 bareMail JUndefined JUndefined
               = Inr (defaultsProspect ''t'' 1 bareMail)"
    by blast
  ultimately have p1: "transformCapturedDataToProspects (\<lambda>i. ''t'') twoEmails ! 1
                       = defaultsProspect ''t'' 1 bareMail"
    by (simp add: ee en di u)
  have co: "opt_prop (defaultsProspect ''t'' 1 bareMail) ''company'' = JStr ''Unknown Company''"
    by (simp add: defaultsProspect_def bareMail_def opt_prop_def or_js_def)
  have dl: "length (capturedDiscoveryList twoEmails) = 1"
    by (simp add: capturedDiscoveryList_def twoEmails_def)
  from ws dl len p1 co show ?thesis by simp
qed

text \<open>
  Status updates as the orchestrator logs them after the email stage and after the
  enrichment stage: four emails of which the fourth is \<^verbatim>\<open>null\<close>; one email; one
  enriched profile whose \<open>keyInsights\<close> is an object instead of a list.
\<close>

definition fourEmailsUpdate :: StatusUpdate where
  "fourEmailsUpdate =
     \<lparr>uid = (''s1'', 0, 0), utype = T_data, uphase = ''email_writing'',
      message = ''Generated emails:'', timestamp = 0,
      udata = JObj [(''emails'', JArr [sampleMail, sampleMail, sampleMail, JNull]),
                    (''phase'', JStr ''email_writing''), (''action'', JStr ''data'')],
      progress = None\<rparr>"

definition oneEmailUpdate :: StatusUpdate where
  "oneEmailUpdate =
     \<lparr>uid = (''s1'', 1, 0), utype = T_data, uphase = ''email_writing'',
      message = ''Generated emails:'', timestamp = 1,
      udata = JObj [(''emails'', JArr [sampleMail]),
                    (''phase'', JStr ''email_writing''), (''action'', JStr ''data'')],
      progress = None\<rparr>"

definition insightsObjectUpdate :: StatusUpdate where
  "insightsObjectUpdate =
     \<lparr>uid = (''s1'', 0, 0), utype = T_data, uphase = ''enrichment'',
      message = ''Key insights:'', timestamp = 0,
      udata = JObj [(''enrichedProfiles'',
                       JArr [JObj [(''name'', JStr ''Sam Lee''),
                                   (''keyInsights'', JObj [(''funding'', JStr ''Series A'')])]]),
                    (''phase'', JStr ''enrichment''), (''action'', JStr ''data'')],
      progress = None\<rparr>"

text \<open>What the listener has captured after these updates.\<close>

definition fourCaptured :: captured where
  "fourCaptured = fold capture [fourEmailsUpdate] emptyCaptured"

definition insightsCaptured :: captured where
  "insightsCaptured = fold capture [insightsObjectUpdate, oneEmailUpdate] emptyCaptured"

lemma wellShaped_sampleMail: "wellShaped sampleMail JUndefined"
  by (simp add: wellShaped_def sampleMail_def nullish_def or_js_def)

text \<open>
  C10, as the claim states it, fails when an entry is not well shaped. With the fourth
  of four captured emails \<^verbatim>\<open>null\<close>, three prospects are built for four captured
  emails. With \<open>keyInsights\<close> an object in the enriched profile at position 0, no
  prospect is built for the one captured email.
\<close>

theorem malformed_entry_truncates_prospects_counterexample:
  "emailEntries fourCaptured = [sampleMail, sampleMail, sampleMail, JNull]
   \<and> length (transformCapturedDataToProspects (\<lambda>i. ''t'') fourCaptured) = 3
   \<and> emailEntries insightsCaptured = [sampleMail]
   \<and> length (transformCapturedDataToProspects (\<lambda>i. ''t'') insightsCaptured) = 0"
proof -
  let ?c = "fourCaptured"
  let ?d = "insightsCaptured"
  have c: "?c = \<lparr>capturedEmails = JArr [sampleMail, sampleMail, sampleMail, JNull],
                  capturedDiscovery = JArr [], capturedEnrichment = JArr []\<rparr>"
    by (simp add: fourCaptured_def capture_def fourEmailsUpdate_def emptyCaptured_def
        opt_prop_def Let_def)
  have d: "?d = \<lparr>capturedEmails = JArr [sampleMail], capturedDiscovery = JArr [],
                  capturedEnrichment =
                    JArr [JObj [(''name'', JStr ''Sam Lee''),
                                (''keyInsights'', JObj [(''funding'', JStr ''Series A'')])]]\<rparr>"
    by (simp add: insightsCaptured_def capture_def insightsObjectUpdate_def oneEmailUpdate_def
        emptyCaptured_def opt_prop_def Let_def)
  have ec: "emailEntries ?c = [sampleMail, sampleMail, sampleMail, JNull]"
    by (simp only: c) (simp add: emailEntries_def)
  have cd: "capturedDiscovery ?c = JArr []" and ce: "capturedEnrichment ?c = JArr []"
    by (simp_all only: c) simp_all
  have ed: "emailEntries ?d = [sampleMail]"
    by (simp only: d) (simp add: emailEntries_def)
  have u: "entryAt (JArr []) i = JUndefined" for i
    by (simp add: entryAt_def or_js_def)
  have ok: "\<exists>p. prospectFrom t i sampleMail JUndefined JUndefined = Inr p" for t i
    using wellShaped_sampleMail by (simp only: prospectFrom_wellShaped)
  have bad: "prospectFrom t i JNull x y = Inl TypeError" for t i x y
    by (simp add: prospectFrom_def Let_def sbind_def)
  have "length (buildAll (\<lambda>ie. prospectFrom ''t'' (fst ie) (snd ie)
                                  (entryAt (capturedDiscovery ?c) (fst ie))
                                  (entryAt (capturedEnrichment ?c) (fst ie)))
                  (enumerate 0 (emailEntries ?c))) = 3"
  proof (rule buildAll_length_eq)
    show "3 \<le> length (enumerate 0 (emailEntries ?c))" by (simp add: ec)
    show "\<forall>j<3. \<exists>p. prospectFrom ''t'' (fst (enumerate 0 (emailEntries ?c) ! j))
                         (snd (enumerate 0 (emailEntries ?c) ! j))
                         (entryAt (capturedDiscovery ?c) (fst (enumerate 0 (emailEntries ?c) ! j)))
                         (entryAt (capturedEnrichment ?c) (fst (enumerate 0 (emailEntries ?c) ! j)))
                       = Inr p"
    proof (intro allI impI)
      fix j :: nat assume "j < 3"
      then have "j = 0 \<or> j = 1 \<or> j = 2" by auto
      then show "\<exists>p. prospectFrom ''t'' (fst (enumerate 0 (emailEntries ?c) ! j))
                         (snd (enumerate 0 (emailEntries ?c) ! j))
                         (entryAt (capturedDiscovery ?c) (fst (enumerate 0 (emailEntries ?c) ! j)))
                         (entryAt (capturedEnrichment ?c) (fst (enumerate 0 (emailEntries ?c) ! j)))
                       = Inr p"
        using ok by (auto simp: ec cd ce u)
    qed
    show "3 < length (enumerate 0 (emailEntries ?c)) \<longrightarrow>
            (\<exists>e. prospectFrom ''t'' (fst (enumerate 0 (emailEntries ?c) ! 3))
                   (snd (enumerate 0 (emailEntries ?c) ! 3))
                   (entryAt (capturedDiscovery ?c) (fst (enumerate 0 (emailEntries ?c) ! 3)))
                   (entryAt (capturedEnrichment ?c) (fst (enumerate 0 (emailEntries ?c) ! 3)))
                 = Inl e)"
      by (simp add: ec bad)
  qed
  then have lc: "length (transformCapturedDataToProspects (\<lambda>i. ''t'') ?c) = 3"
    by (simp only: transform_buildAll)
  have nw: "\<not> wellShaped sampleMail
               (JObj [(''name'', JStr ''Sam Lee''),
                      (''keyInsights'', JObj [(''funding'', JStr ''Series A'')])])"
    by (simp add: wellShaped_def or_js_def opt_prop_def)
  have "\<not> list_all (\<lambda>ie. wellShaped (snd ie) (entryAt (capturedEnrichment ?d) (fst ie)))
            (enumerate 0 (emailEntries ?d))"
    using nw by (simp add: ed) (simp add: d entryAt_def or_js_def)
  then have ne: "length (transformCapturedDataToProspects (\<lambda>i. ''t'') ?d) \<noteq> length (emailEntries ?d)"
    by (simp add: transform_full)
  have le: "length (transformCapturedDataToProspects (\<lambda>i. ''t'') ?d) \<le> length (emailEntries ?d)"
    by (rule transform_length)
  have l1: "length (emailEntries ?d) = 1"
    by (simp add: ed)
  from ne le l1 have ld: "length (transformCapturedDataToProspects (\<lambda>i. ''t'') ?d) = 0"
    by linarith
  from ec lc ed ld show ?thesis by (intro conjI)
qed

text \<open>A request whose run logs one update and then throws, on a connection that stays up.\<close>

definition liveConnection :: connection where
  "liveConnection =
     \<lparr>disconnectAt = None, writableAtStart = True, writableAtUpdate = (\<lambda>i. True),
      writableAtOutcome = True, writableAtEnd = True\<rparr>"

definition understandingUpdate :: StatusUpdate where
  "understandingUpdate =
     \<lparr>uid = (''s1'', 0, 0), utype = T_info, uphase = ''planning'',
      message = ''Understanding your request...'', timestamp = 0,
      udata = JObj [(''phase'', JStr ''planning''), (''action'', JStr ''info'')],
      progress = None\<rparr>"

definition failingRoute :: route_env where
  "failingRoute =
     \<lparr>isoString = (\<lambda>t. ''t''), prospectClock = (\<lambda>i. 0), averageOf = (\<lambda>ps. JNum 0),
      agent = (\<lambda>q. \<lparr>logged = [understandingUpdate],
                     settled = Raises (Error ''Search engine tool not available'')\<rparr>)\<rparr>"

definition findFounders :: request where
  "findFounders = \<lparr>reqMethod = ''POST'', reqBody = JObj [(''query'', JStr ''find founders'')]\<rparr>"

theorem outcome_event_before_done_witness:
  "reqMethod findFounders = ''POST''
   \<and> truthy (reqBody findFounders)
   \<and> truthy (opt_prop (reqBody findFounders) ''query'')
   \<and> disconnectAt liveConnection = None
   \<and> writableAtOutcome liveConnection
   \<and> writableAtEnd liveConnection
   \<and> handler failingRoute liveConnection findFounders
       = EventStream
           \<lparr>written =
              [Comment ''connection established'', Message initialUpdate,
               Message (frontendUpdate understandingUpdate),
               Message (JObj [(''type'', JStr ''error''),
                              (''message'', JStr ''Search engine tool not available'')]),
               DoneSentinel],
            ended = True\<rparr>"
proof -
  have h1: "reqMethod findFounders = ''POST''"
    and h2: "truthy (reqBody findFounders)"
    and h3: "truthy (opt_prop (reqBody findFounders) ''query'')"
    by (simp_all add: findFounders_def opt_prop_def)
  have h4: "disconnectAt liveConnection = None"
    and h5: "writableAtOutcome liveConnection"
    and h6: "writableAtEnd liveConnection"
    and h7: "writableAtStart liveConnection \<and> (\<forall>i. writableAtUpdate liveConnection i)"
    by (simp_all add: liveConnection_def)
  from outcome_event_before_done [OF h1 h2 h3 h4 h5 h6, of failingRoute]
  obtain pre where
    eq: "handler failingRoute liveConnection findFounders
         = EventStream
             \<lparr>written =
                pre @ [Message (outcomeOf failingRoute
                                  (agent failingRoute (opt_prop (reqBody findFounders) ''query''))),
                       DoneSentinel],
              ended = True\<rparr>"
    and full: "writableAtStart liveConnection \<and> (\<forall>i. writableAtUpdate liveConnection i) \<longrightarrow>
               pre = [Comment ''connection established'', Message initialUpdate]
                     @ map (\<lambda>u. Message (frontendUpdate u))
                         (logged (agent failingRoute (opt_prop (reqBody findFounders) ''query'')))"
    by blast
  from full h7 have pre: "pre = [Comment ''connection established'', Message initialUpdate,
                               Message (frontendUpdate understandingUpdate)]"
    by (simp add: failingRoute_def)
  have out: "outcomeOf failingRoute (agent failingRoute (opt_prop (reqBody findFounders) ''query''))
             = JObj [(''type'', JStr ''error''),
                     (''message'', JStr ''Search engine tool not available'')]"
    by (simp add: outcomeOf_def failingRoute_def errorUpdate_def or_js_def)
  from h1 h2 h3 h4 h5 h6 eq show ?thesis
    by (simp add: pre out)
qed

subsection \<open>The route on the orchestrator\<close>

text \<open>
  The route registers no \<^verbatim>\<open>'error'\<close> listener. When discovery throws in both pipeline
  attempts, \<^verbatim>\<open>executeQuery\<close> does not return its failure result: the last
  \<^verbatim>\<open>failPhase\<close> throws, and the outcome the client receives is the \<^verbatim>\<open>error\<close> message.
\<close>

lemma route_reports_exhausted_run:
  assumes "returned (discoveryRun (attemptEnv w 1)) = Raises e1"
      and "returned (discoveryRun (attemptEnv w 2)) = Raises e2"
  shows "outcomeOf env (orchestratorRun w g q) = errorUpdate UnhandledError"
proof -
  have nl: "\<not> errorListener (new_StatusManager None g)"
    by (simp add: new_StatusManager_def initializePhases_def)
  have "fst (executeQuery w orchestratorRetryAttempts q (start_run (new_StatusManager None g)))
        = Inl UnhandledError"
    using assms refl nl by (rule exhausted_run_throws_without_listener)
  then show ?thesis
    by (simp add: outcomeOf_def orchestratorRun_def Let_def)
qed

end
